theory Spec2Isabelle
  imports Complex_Main
begin

section \<open>Dense matrices and cubes\<close>

text \<open>
  The layers work on Armadillo matrices and cubes: a shape and a block of memory in
  column-major order. Element \<open>(i, j)\<close> of a matrix with \<open>n_rows\<close> rows lives at
  position \<open>i + j * n_rows\<close>; slice \<open>s\<close> of a cube is the matrix at offset
  \<open>s * n_rows * n_cols\<close>. Elements are modelled as exact reals (the sources use
  \<open>double\<close>); sizes are \<open>size_t\<close> in the sources and natural numbers here, with
  the wrap-around written out where the sources compute a divisor or an index from them
  (\<open>size_t_times\<close>, \<open>size_t_minus\<close>).

  Everything the sources leave undefined or answer with an exception is an error value.
\<close>

datatype error =
    DivisionByZero          \<comment> \<open>integer division by zero\<close>
  | InvalidConversion       \<comment> \<open>a double that is no \<open>size_t\<close>: negative, infinite or NaN\<close>
  | IndexOutOfBounds        \<comment> \<open>Armadillo's bounds check, or a read past a buffer\<close>
  | IncompatibleDimensions  \<comment> \<open>Armadillo's size check on assignment and addition\<close>
  | EmptyContainer          \<comment> \<open>\<open>back()\<close> or \<open>pop_back()\<close> on an empty vector\<close>
  | EmptyWindow             \<comment> \<open>a mean over no cell at all (0/0, NaN in the sources)\<close>
  | InvalidSlot             \<comment> \<open>a slot of \<open>network\<close> that holds no layer is used as one\<close>
  | LayerFailure            \<comment> \<open>an exception raised by a sub-layer\<close>

record mat =
  n_rows :: nat
  n_cols :: nat
  mem :: "real list"

record cube = mat +
  n_slices :: nat

definition n_elem :: "mat \<Rightarrow> nat" where
  "n_elem m = n_rows m * n_cols m"

definition cube_n_elem :: "cube \<Rightarrow> nat" where
  "cube_n_elem c = n_rows c * n_cols c * n_slices c"

definition is_empty :: "mat \<Rightarrow> bool" where
  "is_empty m = (n_elem m = 0)"

definition wf_mat :: "mat \<Rightarrow> bool" where
  "wf_mat m = (length (mem m) = n_rows m * n_cols m)"

definition wf_cube :: "cube \<Rightarrow> bool" where
  "wf_cube c = (length (mem c) = n_rows c * n_cols c * n_slices c)"

definition zeros :: "nat \<Rightarrow> nat \<Rightarrow> mat" where
  "zeros r c = \<lparr>n_rows = r, n_cols = c, mem = replicate (r * c) 0\<rparr>"

text \<open>A matrix that holds one value everywhere.\<close>

definition filled :: "nat \<Rightarrow> nat \<Rightarrow> real \<Rightarrow> mat" where
  "filled r c v = \<lparr>n_rows = r, n_cols = c, mem = replicate (r * c) v\<rparr>"

definition zeros_cube :: "nat \<Rightarrow> nat \<Rightarrow> nat \<Rightarrow> cube" where
  "zeros_cube r c s = \<lparr>n_rows = r, n_cols = c, mem = replicate (r * c * s) 0, n_slices = s\<rparr>"

definition mat_at :: "mat \<Rightarrow> nat \<Rightarrow> nat \<Rightarrow> real" where
  "mat_at m i j = mem m ! (i + j * n_rows m)"

definition slice :: "cube \<Rightarrow> nat \<Rightarrow> mat" where
  "slice c s = \<lparr>n_rows = n_rows c, n_cols = n_cols c,
     mem = take (n_rows c * n_cols c) (drop (s * (n_rows c * n_cols c)) (mem c))\<rparr>"

definition set_slice :: "cube \<Rightarrow> nat \<Rightarrow> mat \<Rightarrow> cube" where
  "set_slice c s m = c\<lparr>mem :=
     take (s * (n_rows c * n_cols c)) (mem c) @ mem m @
     drop (Suc s * (n_rows c * n_cols c)) (mem c)\<rparr>"

text \<open>
  \<open>a * b\<close> on \<open>size_t\<close> (64 bits): the product wraps around. The second equation
  computes the same on integers in binary.
\<close>

definition size_t_times :: "nat \<Rightarrow> nat \<Rightarrow> nat" where
  "size_t_times a b = (a * b) mod 2 ^ 64"

lemma size_t_times_code [code]:
  "size_t_times a b = nat ((int a * int b) mod 2 ^ 64)"
  by (simp add: size_t_times_def nat_mod_distrib nat_mult_distrib nat_power_eq)

section \<open>The mean pooling layer\<close>

text \<open>
  The members of \<open>MeanPoolingType\<close> that \<open>Forward\<close> and \<open>Backward\<close> read or write.
  The member \<open>floor\<close> is called \<open>floor_mode\<close> here. \<open>inputTemp\<close> is a view of the
  memory of the last input of \<open>Forward\<close>; the model keeps the values it shows.
\<close>

record MeanPooling =
  kernelWidth :: nat
  kernelHeight :: nat
  strideWidth :: nat
  strideHeight :: nat
  floor_mode :: bool
  inSize :: nat
  outSize :: nat
  inputWidth :: nat
  inputHeight :: nat
  outputWidth :: nat
  outputHeight :: nat
  offset :: nat
  batchSize :: nat
  inputTemp :: cube
  outputTemp :: cube
  gTemp :: cube

text \<open>
  The constructor \<open>MeanPoolingType(kernelWidth, kernelHeight, strideWidth, strideHeight,
  floor)\<close>: the sizes are zero and the cubes empty. \<open>inputWidth\<close> and
  \<open>inputHeight\<close> are set from outside before \<open>Forward\<close> runs.
\<close>

definition MeanPooling_new :: "nat \<Rightarrow> nat \<Rightarrow> nat \<Rightarrow> nat \<Rightarrow> bool \<Rightarrow> MeanPooling" where
  "MeanPooling_new kw kh sw sh fl =
     \<lparr>kernelWidth = kw, kernelHeight = kh, strideWidth = sw, strideHeight = sh,
      floor_mode = fl, inSize = 0, outSize = 0, inputWidth = 0, inputHeight = 0,
      outputWidth = 0, outputHeight = 0, offset = 0, batchSize = 0,
      inputTemp = zeros_cube 0 0 0, outputTemp = zeros_cube 0 0 0, gTemp = zeros_cube 0 0 0\<rparr>"

text \<open>
  The conversion of a \<open>double\<close> to \<open>size_t\<close>, for the integral values
  \<open>std::floor\<close> and \<open>std::ceil\<close> return: undefined for a negative one.
\<close>

definition to_size_t :: "int \<Rightarrow> error + nat" where
  "to_size_t z = (if z < 0 then Inl InvalidConversion else Inr (nat z))"

text \<open>
  \<open>std::floor((inputWidth - (double) kernelWidth) / (double) strideWidth + 1)\<close>, and
  \<open>std::ceil\<close> of the same: the subtraction and the division are those of
  \<open>double\<close>, so the difference may be negative; a stride of zero divides by zero and
  gives an infinity or a NaN, which converts to no \<open>size_t\<close>.
\<close>

definition output_size :: "bool \<Rightarrow> nat \<Rightarrow> nat \<Rightarrow> nat \<Rightarrow> error + nat" where
  "output_size fl inputW kernelW strideW =
     (if strideW = 0 then Inl InvalidConversion
      else if fl then to_size_t \<lfloor>(real inputW - real kernelW) / real strideW + 1\<rfloor>
      else to_size_t \<lceil>(real inputW - real kernelW) / real strideW + 1\<rceil>)"

subsection \<open>Pooling and unpooling of one slice\<close>

text \<open>
  The cells of the input that the window of output cell \<open>(i, j)\<close> covers: the window
  is placed at \<open>(i * strideWidth, j * strideHeight)\<close>, has size
  \<open>kernelWidth \<times> kernelHeight\<close>, and is clipped at the far edges of the input.
\<close>

definition window_cells :: "MeanPooling \<Rightarrow> mat \<Rightarrow> nat \<Rightarrow> nat \<Rightarrow> (nat \<times> nat) list" where
  "window_cells st input i j =
     concat (map (\<lambda>y. map (\<lambda>x. (x, y))
         [i * strideWidth st ..< min (i * strideWidth st + kernelWidth st) (n_rows input)])
       [j * strideHeight st ..< min (j * strideHeight st + kernelHeight st) (n_cols input)])"

text \<open>The cells of an \<open>r \<times> c\<close> matrix, in the order of its memory.\<close>

definition cells :: "nat \<Rightarrow> nat \<Rightarrow> (nat \<times> nat) list" where
  "cells r c = concat (map (\<lambda>j. map (\<lambda>i. (i, j)) [0 ..< r]) [0 ..< c])"

definition cells_of :: "mat \<Rightarrow> (nat \<times> nat) list" where
  "cells_of m = cells (n_rows m) (n_cols m)"

text \<open>
  Modelled from the spec: \<open>Pooling\<close> is declared in \<open>mean_pooling.hpp\<close>, which is
  not among the sources. The spec: each output cell \<open>(i, j)\<close> is the arithmetic mean of
  the input cells covered by its window; where a window reaches beyond the input only the
  cells in bounds contribute and the divisor is their count. A window with no cell in
  bounds has no mean.
\<close>

definition window_mean :: "MeanPooling \<Rightarrow> mat \<Rightarrow> nat \<times> nat \<Rightarrow> error + real" where
  "window_mean st input ij =
     (let cells = window_cells st input (fst ij) (snd ij) in
      if cells = [] then Inl EmptyWindow
      else Inr (sum_list (map (\<lambda>c. mat_at input (fst c) (snd c)) cells) / real (length cells)))"

fun collect :: "(error + 'a) list \<Rightarrow> error + 'a list" where
  "collect [] = Inr []"
| "collect (Inl e # rs) = Inl e"
| "collect (Inr v # rs) = (case collect rs of Inl e \<Rightarrow> Inl e | Inr vs \<Rightarrow> Inr (v # vs))"

definition Pooling :: "MeanPooling \<Rightarrow> mat \<Rightarrow> mat \<Rightarrow> error + mat" where
  "Pooling st input output =
     (case collect (map (window_mean st input) (cells_of output)) of
        Inl e \<Rightarrow> Inl e
      | Inr vs \<Rightarrow> Inr (output\<lparr>mem := vs\<rparr>))"

text \<open>
  Modelled from the spec: \<open>Unpooling\<close> is declared in \<open>mean_pooling.hpp\<close>, which is
  not among the sources. The spec: for every window, each contributing input cell receives
  \<open>outputGrad(i, j)\<close> divided by the window's count of contributing cells, added to what
  the cell holds. The model visits the windows in the order of the error's memory and the
  cells of a window one by one.
\<close>

definition add_at :: "real \<Rightarrow> mat \<Rightarrow> nat \<times> nat \<Rightarrow> mat" where
  "add_at v m c = m\<lparr>mem := (mem m)[fst c + snd c * n_rows m :=
     mem m ! (fst c + snd c * n_rows m) + v]\<rparr>"

definition Unpooling_window :: "MeanPooling \<Rightarrow> mat \<Rightarrow> mat \<Rightarrow> mat \<Rightarrow> nat \<times> nat \<Rightarrow> mat" where
  "Unpooling_window st input err output ij =
     (let cells = window_cells st input (fst ij) (snd ij) in
      foldl (add_at (mat_at err (fst ij) (snd ij) / real (length cells))) output cells)"

definition Unpooling :: "MeanPooling \<Rightarrow> mat \<Rightarrow> mat \<Rightarrow> mat \<Rightarrow> mat" where
  "Unpooling st input err output = foldl (Unpooling_window st input err) output (cells_of err)"

text \<open>
  What the window of output cell \<open>ij\<close> passes to cell \<open>(x, y)\<close> of the input
  gradient, for the statement of the properties: the error of the window divided by its
  count of cells if the window covers the cell, and nothing otherwise.
\<close>

definition window_share :: "MeanPooling \<Rightarrow> mat \<Rightarrow> mat \<Rightarrow> nat \<Rightarrow> nat \<Rightarrow> nat \<times> nat \<Rightarrow> real" where
  "window_share st inp err x y ij =
     (if (x, y) \<in> set (window_cells st inp (fst ij) (snd ij))
      then mat_at err (fst ij) (snd ij) / real (length (window_cells st inp (fst ij) (snd ij)))
      else 0)"

subsection \<open>Forward\<close>

text \<open>
  The loop \<open>for (s = 0; s < inputTemp.n_slices; s++)
  Pooling(inputTemp.slice(s), outputTemp.slice(s))\<close>.
\<close>

function Forward_slices :: "MeanPooling \<Rightarrow> nat \<Rightarrow> error + MeanPooling" where
  "Forward_slices st s =
     (if s < n_slices (inputTemp st) then
        (case Pooling st (slice (inputTemp st) s) (slice (outputTemp st) s) of
           Inl e \<Rightarrow> Inl e
         | Inr m \<Rightarrow> Forward_slices (st\<lparr>outputTemp := set_slice (outputTemp st) s m\<rparr>) (Suc s))
      else Inr st)"
  by pat_completeness auto
termination
  by (relation "measure (\<lambda>(st, s). n_slices (inputTemp st) - s)") auto

declare Forward_slices.simps [simp del]

text \<open>
  \<open>MeanPoolingType::Forward\<close>, in the order of the sources.

  First the view of the input: the divisor
  \<open>inputWidth * inputHeight * batchSize\<close> is a product of \<open>size_t\<close> and wraps
  around; the division that computes \<open>inSize\<close> is an integer division, undefined
  for a divisor of zero; the cube \<open>inputTemp\<close> shows the first
  \<open>inputWidth * inputHeight * (batchSize * inSize)\<close> elements of the input. The number
  of slices, \<open>batchSize * inSize\<close>, is at most the element count of the input when
  the divisor did not wrap.
\<close>

definition Forward_view :: "MeanPooling \<Rightarrow> mat \<Rightarrow> error + MeanPooling" where
  "Forward_view st0 input =
     (let st1 = st0\<lparr>batchSize := n_cols input\<rparr>;
          divisor = size_t_times (size_t_times (inputWidth st1) (inputHeight st1))
                      (batchSize st1) in
      if divisor = 0 then Inl DivisionByZero
      else
        let st2 = st1\<lparr>inSize := n_elem input div divisor\<rparr>
        in Inr (st2\<lparr>inputTemp :=
                      \<lparr>n_rows = inputWidth st2, n_cols = inputHeight st2,
                       mem = take (inputWidth st2 * inputHeight st2 *
                                   (batchSize st2 * inSize st2)) (mem input),
                       n_slices = batchSize st2 * inSize st2\<rparr>\<rparr>))"

text \<open>Then the size of the output, by the rounding mode, and the zeroed \<open>outputTemp\<close>.\<close>

definition Forward_output_size :: "MeanPooling \<Rightarrow> error + MeanPooling" where
  "Forward_output_size st3 =
     (case output_size (floor_mode st3) (inputWidth st3) (kernelWidth st3) (strideWidth st3) of
        Inl e \<Rightarrow> Inl e
      | Inr ow \<Rightarrow>
     (case output_size (floor_mode st3) (inputHeight st3) (kernelHeight st3)
             (strideHeight st3) of
        Inl e \<Rightarrow> Inl e
      | Inr oh \<Rightarrow>
        let st4 = st3\<lparr>outputWidth := ow, outputHeight := oh,
                      offset := (if floor_mode st3 then 0 else 1)\<rparr>
        in Inr (st4\<lparr>outputTemp :=
                      zeros_cube (outputWidth st4) (outputHeight st4)
                        (batchSize st4 * inSize st4)\<rparr>)))"

text \<open>
  After the loop over the slices: the output is a copy of the memory of \<open>outputTemp\<close>
  in \<open>batchSize\<close> columns, and the cached sizes are those of \<open>outputTemp\<close>.
\<close>

definition Forward_output :: "MeanPooling \<Rightarrow> MeanPooling \<times> mat" where
  "Forward_output st6 =
     (st6\<lparr>outputWidth := n_rows (outputTemp st6),
           outputHeight := n_cols (outputTemp st6),
           outSize := batchSize st6 * inSize st6\<rparr>,
      \<lparr>n_rows = cube_n_elem (outputTemp st6) div batchSize st6,
       n_cols = batchSize st6,
       mem = take (cube_n_elem (outputTemp st6) div batchSize st6 * batchSize st6)
               (mem (outputTemp st6))\<rparr>)"

definition MeanPooling_Forward :: "MeanPooling \<Rightarrow> mat \<Rightarrow> error + MeanPooling \<times> mat" where
  "MeanPooling_Forward st0 input =
     (case Forward_view st0 input of
        Inl e \<Rightarrow> Inl e
      | Inr st3 \<Rightarrow>
     (case Forward_output_size st3 of
        Inl e \<Rightarrow> Inl e
      | Inr st5 \<Rightarrow>
     (case Forward_slices st5 0 of
        Inl e \<Rightarrow> Inl e
      | Inr st6 \<Rightarrow> Inr (Forward_output st6))))"

subsection \<open>Backward\<close>

text \<open>
  The loop \<open>for (s = 0; s < mappedError.n_slices; s++)
  Unpooling(inputTemp.slice(s), mappedError.slice(s), gTemp.slice(s))\<close>; a slice of
  \<open>inputTemp\<close> that does not exist is refused by Armadillo's bounds check.
\<close>

function Backward_slices :: "MeanPooling \<Rightarrow> cube \<Rightarrow> nat \<Rightarrow> error + MeanPooling" where
  "Backward_slices st mappedError s =
     (if s < n_slices mappedError then
        (if n_slices (inputTemp st) \<le> s \<or> n_slices (gTemp st) \<le> s then Inl IndexOutOfBounds
         else Backward_slices
           (st\<lparr>gTemp := set_slice (gTemp st) s
                 (Unpooling st (slice (inputTemp st) s) (slice mappedError s)
                    (slice (gTemp st) s))\<rparr>)
           mappedError (Suc s))
      else Inr st)"
  by pat_completeness auto
termination
  by (relation "measure (\<lambda>(st, e, s). n_slices e - s)") auto

declare Backward_slices.simps [simp del]

text \<open>
  \<open>MeanPoolingType::Backward\<close>. Its first parameter is unnamed in the sources.
  \<open>mappedError\<close> is a view of the memory of \<open>gy\<close> with the shape cached by
  \<open>Forward\<close>; the sources build it without a check, so a \<open>gy\<close> with fewer elements
  than the view is read past its end.
\<close>

definition MeanPooling_Backward ::
  "MeanPooling \<Rightarrow> mat \<Rightarrow> mat \<Rightarrow> error + MeanPooling \<times> mat" where
  "MeanPooling_Backward st0 input gy =
     (if length (mem gy) < outputWidth st0 * outputHeight st0 * outSize st0
      then Inl IndexOutOfBounds
      else
        let mappedError = \<lparr>n_rows = outputWidth st0, n_cols = outputHeight st0,
                            mem = take (outputWidth st0 * outputHeight st0 * outSize st0) (mem gy),
                            n_slices = outSize st0\<rparr>;
            st1 = st0\<lparr>gTemp := zeros_cube (n_rows (inputTemp st0)) (n_cols (inputTemp st0))
                               (n_slices (inputTemp st0))\<rparr>
        in
        (case Backward_slices st1 mappedError 0 of
          Inl e \<Rightarrow> Inl e
        | Inr st2 \<Rightarrow>
        if batchSize st2 = 0 then Inl DivisionByZero
        else Inr (st2,
          \<lparr>n_rows = cube_n_elem (gTemp st2) div batchSize st2,
           n_cols = batchSize st2,
           mem = take (cube_n_elem (gTemp st2) div batchSize st2 * batchSize st2)
                   (mem (gTemp st2))\<rparr>)))"

section \<open>The recurrent attention layer\<close>

subsection \<open>Matrix operations with Armadillo's checks\<close>

text \<open>
  \<open>a - b\<close> on \<open>size_t\<close> (64 bits): it wraps around below zero.
\<close>

definition size_t_minus :: "nat \<Rightarrow> nat \<Rightarrow> nat" where
  "size_t_minus a b = (if b \<le> a then a - b else 2 ^ 64 + a - b)"

text \<open>
  \<open>X.submat(r1, c1, r2, c2)\<close> read as a value. Armadillo refuses a range that is
  reversed or reaches beyond the matrix.
\<close>

definition submat :: "mat \<Rightarrow> nat \<Rightarrow> nat \<Rightarrow> nat \<Rightarrow> nat \<Rightarrow> error + mat" where
  "submat X r1 c1 r2 c2 =
     (if r2 < r1 \<or> c2 < c1 \<or> n_rows X \<le> r2 \<or> n_cols X \<le> c2 then Inl IndexOutOfBounds
      else Inr \<lparr>n_rows = r2 - r1 + 1, n_cols = c2 - c1 + 1,
        mem = concat (map (\<lambda>j. map (\<lambda>i. mat_at X i j) [r1 ..< Suc r2]) [c1 ..< Suc c2])\<rparr>)"

text \<open>
  \<open>X.submat(r1, c1, r2, c2) = M\<close>: the same bounds check, then the shapes must
  agree; the cells of the range take the elements of \<open>M\<close>, the others keep theirs.
\<close>

definition assign_submat :: "mat \<Rightarrow> nat \<Rightarrow> nat \<Rightarrow> nat \<Rightarrow> nat \<Rightarrow> mat \<Rightarrow> error + mat" where
  "assign_submat X r1 c1 r2 c2 M =
     (if r2 < r1 \<or> c2 < c1 \<or> n_rows X \<le> r2 \<or> n_cols X \<le> c2 then Inl IndexOutOfBounds
      else if n_rows M \<noteq> r2 - r1 + 1 \<or> n_cols M \<noteq> c2 - c1 + 1 then Inl IncompatibleDimensions
      else Inr (X\<lparr>mem := map (\<lambda>p.
          if r1 \<le> p mod n_rows X \<and> p mod n_rows X \<le> r2 \<and>
             c1 \<le> p div n_rows X \<and> p div n_rows X \<le> c2
          then mat_at M (p mod n_rows X - r1) (p div n_rows X - c1)
          else mem X ! p) [0 ..< length (mem X)]\<rparr>))"

text \<open>\<open>X.col(k) = M\<close>: column \<open>k\<close> must exist and \<open>M\<close> must be one column of the same height.\<close>

definition assign_col :: "mat \<Rightarrow> nat \<Rightarrow> mat \<Rightarrow> error + mat" where
  "assign_col X k M =
     (if n_cols X \<le> k then Inl IndexOutOfBounds
      else if n_rows M \<noteq> n_rows X \<or> n_cols M \<noteq> 1 then Inl IncompatibleDimensions
      else Inr (X\<lparr>mem := map (\<lambda>p.
          if p div n_rows X = k then mat_at M (p mod n_rows X) 0 else mem X ! p)
          [0 ..< length (mem X)]\<rparr>))"

text \<open>\<open>X.col(k)\<close> read as a value.\<close>

definition col :: "mat \<Rightarrow> nat \<Rightarrow> error + mat" where
  "col X k =
     (if n_cols X \<le> k then Inl IndexOutOfBounds
      else Inr \<lparr>n_rows = n_rows X, n_cols = 1, mem = map (\<lambda>i. mat_at X i k) [0 ..< n_rows X]\<rparr>)"

text \<open>\<open>g += c\<close>: the shapes must agree.\<close>

definition add_assign :: "mat \<Rightarrow> mat \<Rightarrow> error + mat" where
  "add_assign g c =
     (if n_rows g \<noteq> n_rows c \<or> n_cols g \<noteq> n_cols c then Inl IncompatibleDimensions
      else Inr (g\<lparr>mem := map (\<lambda>p. mem g ! p + mem c ! p) [0 ..< n_rows g * n_cols g]\<rparr>))"

text \<open>
  \<open>arma::mat(buf.memptr() + off, r, c, false, false)\<close>: a matrix on the memory of
  \<open>buf\<close> from offset \<open>off\<close>. The sources build it unchecked; a view that reaches
  beyond the buffer is an error here. The model keeps the values the view shows.
\<close>

definition mem_view :: "mat \<Rightarrow> nat \<Rightarrow> nat \<Rightarrow> nat \<Rightarrow> error + mat" where
  "mem_view buf off r c =
     (if length (mem buf) < off + r * c then Inl IndexOutOfBounds
      else Inr \<lparr>n_rows = r, n_cols = c, mem = take (r * c) (drop off (mem buf))\<rparr>)"

subsection \<open>Sub-layers\<close>

text \<open>
  A sub-layer is an object behind the layer interface: its current output, its parameters,
  its gradient, and whatever else it holds (\<open>internal\<close>). Its methods are parameters of
  the model (\<open>LayerOps\<close>): \<open>Forward(input, output)\<close> and
  \<open>Backward(input, gy, g)\<close> may change the object in any way and return what they
  write to their last argument; when they throw, they return the error and the object as
  the throw leaves it.
\<close>

record 's Layer =
  internal :: 's
  OutputParameter :: mat
  Parameters :: mat
  Gradient :: mat

record 's LayerOps =
  Forward_op :: "'s Layer \<Rightarrow> mat \<Rightarrow> error \<times> 's Layer + 's Layer \<times> mat"
  Backward_op :: "'s Layer \<Rightarrow> mat \<Rightarrow> mat \<Rightarrow> error \<times> 's Layer + 's Layer \<times> mat"

text \<open>
  The calls that the layer makes to its sub-layers and that return, in order: those of
  \<open>Forward\<close> (input, output) and of \<open>Backward\<close> (input, error, delta). The list
  \<open>calls\<close> of the layer records them; nothing reads it.
\<close>

datatype module = RnnModule | ActionModule

datatype event =
    ForwardCall module mat mat
  | BackwardCall module mat mat mat

text \<open>
  A slot of the vector \<open>network\<close>, whose declaration is not among the sources. The
  constructor pushes the pointers \<open>rnnModule\<close> and \<open>actionModule\<close>;
  \<open>Forward\<close> reads \<open>network[l]->OutputParameter()\<close>; \<open>Backward\<close> assigns
  a saved output to a slot, \<open>network[...] = moduleOutputParameter.back()\<close>. So a slot
  holds what the sources put there: one of the two sub-layers, or a matrix.
\<close>

datatype slot = LayerSlot module | MatrixSlot mat

text \<open>
  The members of \<open>RecurrentAttention\<close>. \<open>moduleOutputParameter\<close> is a vector:
  \<open>push_back\<close> appends, \<open>back\<close> is the last element.
\<close>

record ('r, 'a) RecurrentAttention =
  outSize :: nat
  rnnModule :: "'r Layer"
  actionModule :: "'a Layer"
  network :: "slot list"
  rho :: nat
  forwardStep :: nat
  backwardStep :: nat
  deterministic :: bool
  initialInput :: mat
  moduleOutputParameter :: "mat list"
  intermediateGradient :: mat
  attentionGradient :: mat
  actionError :: mat
  actionDelta :: mat
  recurrentError :: mat
  rnnDelta :: mat
  calls :: "event list"

definition empty_mat :: mat where
  "empty_mat = \<lparr>n_rows = 0, n_cols = 0, mem = []\<rparr>"

text \<open>
  The constructor \<open>RecurrentAttention(outSize, rnn, action, rho)\<close>: it pushes the
  recurrent module and then the action module to \<open>network\<close>.
\<close>

definition RecurrentAttention_new ::
  "nat \<Rightarrow> 'r Layer \<Rightarrow> 'a Layer \<Rightarrow> nat \<Rightarrow> ('r, 'a) RecurrentAttention" where
  "RecurrentAttention_new outSize0 rnn action rho0 =
     \<lparr>outSize = outSize0, rnnModule = rnn, actionModule = action,
      network = [LayerSlot RnnModule, LayerSlot ActionModule], rho = rho0,
      forwardStep = 0, backwardStep = 0, deterministic = False,
      initialInput = empty_mat, moduleOutputParameter = [],
      intermediateGradient = empty_mat, attentionGradient = empty_mat,
      actionError = empty_mat, actionDelta = empty_mat, recurrentError = empty_mat,
      rnnDelta = empty_mat, calls = []\<rparr>"

text \<open>
  The methods of the layer return the layer as they leave it: with the result when they
  return, with the error when they throw. \<open>layer_after\<close> is the layer that a part
  of a method leaves, either way.
\<close>

definition layer_after :: "error \<times> 'st + 'st \<Rightarrow> 'st" where
  "layer_after res = (case res of Inl (e, st) \<Rightarrow> st | Inr st \<Rightarrow> st)"

subsection \<open>Forward\<close>

text \<open>
  The glimpse input: \<open>zeros(input.n_elem, 2)\<close>, then \<open>col(0) = input\<close>, then
  \<open>submat(0, 1, n_elem - 1, 1) = \<close> the output of the action module, where
  \<open>n_elem\<close> is the element count of that output.
\<close>

definition glimpseInput :: "mat \<Rightarrow> mat \<Rightarrow> error + mat" where
  "glimpseInput input actionOutput =
     (case assign_col (zeros (n_elem input) 2) 0 input of
        Inl e \<Rightarrow> Inl e
      | Inr g0 \<Rightarrow> assign_submat g0 0 1 (size_t_minus (n_elem actionOutput) 1) 1 actionOutput)"

text \<open>
  \<open>network[l]->OutputParameter()\<close>: the current output of the sub-layer that the slot
  points to. A slot that holds a matrix points to no layer.
\<close>

definition slot_OutputParameter :: "('r, 'a) RecurrentAttention \<Rightarrow> slot \<Rightarrow> error + mat" where
  "slot_OutputParameter st s =
     (case s of
        LayerSlot RnnModule \<Rightarrow> Inr (OutputParameter (rnnModule st))
      | LayerSlot ActionModule \<Rightarrow> Inr (OutputParameter (actionModule st))
      | MatrixSlot m \<Rightarrow> Inl InvalidSlot)"

text \<open>
  The loop \<open>for (l = 0; l < network.size(); ++l)
  moduleOutputParameter.push_back(network[l]->OutputParameter())\<close>, on the slots that are
  left to visit.
\<close>

fun SaveOutputParameters ::
  "slot list \<Rightarrow> ('r, 'a) RecurrentAttention \<Rightarrow>
   error \<times> ('r, 'a) RecurrentAttention + ('r, 'a) RecurrentAttention" where
  "SaveOutputParameters [] st = Inr st"
| "SaveOutputParameters (s # ss) st =
     (case slot_OutputParameter st s of
        Inl e \<Rightarrow> Inl (e, st)
      | Inr m \<Rightarrow>
          SaveOutputParameters ss
            (st\<lparr>moduleOutputParameter := moduleOutputParameter st @ [m]\<rparr>))"

lemma SaveOutputParameters_frame:
  "SaveOutputParameters ss st = Inr st' \<Longrightarrow>
     st' = st\<lparr>moduleOutputParameter := moduleOutputParameter st'\<rparr>"
proof (induction ss arbitrary: st)
  case Nil
  then show ?case by simp
next
  case (Cons s ss)
  from Cons.prems obtain m where
    r: "SaveOutputParameters ss (st\<lparr>moduleOutputParameter := moduleOutputParameter st @ [m]\<rparr>)
          = Inr st'"
    by (cases "slot_OutputParameter st s") auto
  show ?case by (subst Cons.IH[OF r]) simp
qed

text \<open>One iteration of the loop of \<open>Forward\<close>.\<close>

definition ForwardStep ::
  "'r LayerOps \<Rightarrow> 'a LayerOps \<Rightarrow> mat \<Rightarrow> ('r, 'a) RecurrentAttention \<Rightarrow>
   error \<times> ('r, 'a) RecurrentAttention + ('r, 'a) RecurrentAttention" where
  "ForwardStep rops aops input st =
     (let actionIn = (if forwardStep st = 0 then initialInput st
                      else OutputParameter (rnnModule st)) in
      case Forward_op aops (actionModule st) actionIn of
        Inl (e, a) \<Rightarrow> Inl (e, st\<lparr>actionModule := a\<rparr>)
      | Inr (a, aout) \<Rightarrow>
      let st1 = st\<lparr>actionModule := a\<lparr>OutputParameter := aout\<rparr>,
                   calls := calls st @ [ForwardCall ActionModule actionIn aout]\<rparr> in
      (case glimpseInput input (OutputParameter (actionModule st1)) of
        Inl e \<Rightarrow> Inl (e, st1)
      | Inr gl \<Rightarrow>
      (case Forward_op rops (rnnModule st1) gl of
        Inl (e, r) \<Rightarrow> Inl (e, st1\<lparr>rnnModule := r\<rparr>)
      | Inr (r, rout) \<Rightarrow>
      let st2 = st1\<lparr>rnnModule := r\<lparr>OutputParameter := rout\<rparr>,
                    calls := calls st1 @ [ForwardCall RnnModule gl rout]\<rparr> in
      if \<not> deterministic st2 then SaveOutputParameters (network st2) st2
      else Inr st2)))"

text \<open>What a step that returns has done.\<close>

lemma ForwardStep_Inr:
  assumes "ForwardStep rops aops input st = Inr st'"
  obtains a aout gl r rout where
    "Forward_op aops (actionModule st)
       (if forwardStep st = 0 then initialInput st else OutputParameter (rnnModule st))
     = Inr (a, aout)"
    and "glimpseInput input aout = Inr gl"
    and "Forward_op rops (rnnModule st) gl = Inr (r, rout)"
    and "st' = st\<lparr>actionModule := a\<lparr>OutputParameter := aout\<rparr>,
                  rnnModule := r\<lparr>OutputParameter := rout\<rparr>,
                  calls := calls st @
                    [ForwardCall ActionModule
                       (if forwardStep st = 0 then initialInput st
                        else OutputParameter (rnnModule st)) aout,
                     ForwardCall RnnModule gl rout],
                  moduleOutputParameter := moduleOutputParameter st'\<rparr>"
proof -
  define ain where
    "ain = (if forwardStep st = 0 then initialInput st else OutputParameter (rnnModule st))"
  note F = assms[unfolded ForwardStep_def Let_def, folded ain_def]
  from F obtain a aout where a: "Forward_op aops (actionModule st) ain = Inr (a, aout)"
    by (cases "Forward_op aops (actionModule st) ain") auto
  define st1 where "st1 = st\<lparr>actionModule := a\<lparr>OutputParameter := aout\<rparr>,
                   calls := calls st @ [ForwardCall ActionModule ain aout]\<rparr>"
  note F1 = F[unfolded a sum.case prod.case, folded st1_def]
  from F1 obtain gl where gl: "glimpseInput input (OutputParameter (actionModule st1)) = Inr gl"
    by (cases "glimpseInput input (OutputParameter (actionModule st1))") auto
  note F2 = F1[unfolded gl sum.case]
  from F2 obtain r rout where r: "Forward_op rops (rnnModule st1) gl = Inr (r, rout)"
    by (cases "Forward_op rops (rnnModule st1) gl") auto
  define st2 where "st2 = st1\<lparr>rnnModule := r\<lparr>OutputParameter := rout\<rparr>,
                    calls := calls st1 @ [ForwardCall RnnModule gl rout]\<rparr>"
  note F3 = F2[unfolded r sum.case prod.case, folded st2_def]
  have "st' = st2\<lparr>moduleOutputParameter := moduleOutputParameter st'\<rparr>"
  proof (cases "deterministic st2")
    case True
    with F3 have "st' = st2" by simp
    then show ?thesis by simp
  next
    case False
    with F3 have "SaveOutputParameters (network st2) st2 = Inr st'" by simp
    then show ?thesis by (rule SaveOutputParameters_frame)
  qed
  then have "st' = st\<lparr>actionModule := a\<lparr>OutputParameter := aout\<rparr>,
                  rnnModule := r\<lparr>OutputParameter := rout\<rparr>,
                  calls := calls st @ [ForwardCall ActionModule ain aout,
                     ForwardCall RnnModule gl rout],
                  moduleOutputParameter := moduleOutputParameter st'\<rparr>"
    by (simp add: st2_def st1_def)
  moreover from gl have "glimpseInput input aout = Inr gl" by (simp add: st1_def)
  moreover from r have "Forward_op rops (rnnModule st) gl = Inr (r, rout)" by (simp add: st1_def)
  ultimately show ?thesis using a that unfolding ain_def by blast
qed

lemma ForwardStep_counters:
  assumes "ForwardStep rops aops input st = Inr st'"
  shows "rho st' = rho st \<and> forwardStep st' = forwardStep st"
proof -
  from assms obtain a aout gl r rout where
    st': "st' = st\<lparr>actionModule := a\<lparr>OutputParameter := aout\<rparr>,
                  rnnModule := r\<lparr>OutputParameter := rout\<rparr>,
                  calls := calls st @
                    [ForwardCall ActionModule
                       (if forwardStep st = 0 then initialInput st
                        else OutputParameter (rnnModule st)) aout,
                     ForwardCall RnnModule gl rout],
                  moduleOutputParameter := moduleOutputParameter st'\<rparr>"
    by (rule ForwardStep_Inr)
  have "rho st' = rho st" by (subst st') simp
  moreover have "forwardStep st' = forwardStep st" by (subst st') simp
  ultimately show ?thesis by simp
qed

function ForwardLoop ::
  "'r LayerOps \<Rightarrow> 'a LayerOps \<Rightarrow> mat \<Rightarrow> ('r, 'a) RecurrentAttention \<Rightarrow>
   error \<times> ('r, 'a) RecurrentAttention + ('r, 'a) RecurrentAttention" where
  "ForwardLoop rops aops input st =
     (if forwardStep st < rho st then
        (case ForwardStep rops aops input st of
           Inl e \<Rightarrow> Inl e
         | Inr st' \<Rightarrow> ForwardLoop rops aops input (st'\<lparr>forwardStep := forwardStep st' + 1\<rparr>))
      else Inr st)"
  by pat_completeness auto
termination
  by (relation "measure (\<lambda>(rops, aops, input, st). rho st - forwardStep st)")
     (auto dest!: ForwardStep_counters)

declare ForwardLoop.simps [simp del]

text \<open>
  \<open>RecurrentAttention::Forward\<close>: the action input is allocated when it is empty, the
  loop runs from step 0, the output is the current output of the recurrent module, and
  both cursors are reset. A throw leaves the layer as it is at that point.
\<close>

definition InitializeActionInput ::
  "mat \<Rightarrow> ('r, 'a) RecurrentAttention \<Rightarrow> ('r, 'a) RecurrentAttention" where
  "InitializeActionInput input st =
     (if is_empty (initialInput st)
      then st\<lparr>initialInput := zeros (outSize st) (n_cols input)\<rparr>
      else st)"

definition RecurrentAttention_Forward ::
  "'r LayerOps \<Rightarrow> 'a LayerOps \<Rightarrow> ('r, 'a) RecurrentAttention \<Rightarrow> mat \<Rightarrow>
   error \<times> ('r, 'a) RecurrentAttention + ('r, 'a) RecurrentAttention \<times> mat" where
  "RecurrentAttention_Forward rops aops st input =
     (case ForwardLoop rops aops input ((InitializeActionInput input st)\<lparr>forwardStep := 0\<rparr>) of
        Inl e \<Rightarrow> Inl e
      | Inr st' \<Rightarrow>
          Inr (st'\<lparr>forwardStep := 0, backwardStep := 0\<rparr>, OutputParameter (rnnModule st')))"

text \<open>The layer after a call of \<open>Forward\<close>, whether it returned or threw.\<close>

definition after_Forward ::
  "error \<times> ('r, 'a) RecurrentAttention + ('r, 'a) RecurrentAttention \<times> mat \<Rightarrow>
   ('r, 'a) RecurrentAttention" where
  "after_Forward res = (case res of Inl (e, st) \<Rightarrow> st | Inr (st, out) \<Rightarrow> st)"

subsection \<open>Backward\<close>

text \<open>
  Modelled from the spec: \<open>IntermediateGradient\<close> is declared in
  \<open>recurrent_attention.hpp\<close>, which is not among the sources. The spec: it accumulates
  the step's gradient contributions of the two modules into the running attention-gradient
  total. It is a parameter \<open>ig\<close> of the model: any function of the layer that may fail
  and returns the two sub-layers and the two gradient buffers
  (\<open>intermediateGradient\<close>, \<open>attentionGradient\<close>); no other member changes.
\<close>

definition IntermediateGradient ::
  "(('r, 'a) RecurrentAttention \<Rightarrow>
      error \<times> ('r Layer \<times> 'a Layer \<times> mat \<times> mat) + 'r Layer \<times> 'a Layer \<times> mat \<times> mat) \<Rightarrow>
   ('r, 'a) RecurrentAttention \<Rightarrow>
   error \<times> ('r, 'a) RecurrentAttention + ('r, 'a) RecurrentAttention" where
  "IntermediateGradient ig st =
     (case ig st of
        Inl (e, r, a, i, t) \<Rightarrow>
          Inl (e, st\<lparr>rnnModule := r, actionModule := a,
                     intermediateGradient := i, attentionGradient := t\<rparr>)
      | Inr (r, a, i, t) \<Rightarrow>
          Inr (st\<lparr>rnnModule := r, actionModule := a,
                  intermediateGradient := i, attentionGradient := t\<rparr>))"

text \<open>
  \<open>network[network.size() - 1 - l] = moduleOutputParameter.back();
  moduleOutputParameter.pop_back()\<close>: the saved output on top of the stack is assigned to
  the slot of \<open>network\<close>, and popped. The sub-layer that the slot pointed to is not
  written. \<open>back()\<close> on an empty vector is undefined.
\<close>

definition LoadOutputParameter ::
  "nat \<Rightarrow> ('r, 'a) RecurrentAttention \<Rightarrow>
   error \<times> ('r, 'a) RecurrentAttention + ('r, 'a) RecurrentAttention" where
  "LoadOutputParameter l st =
     (if moduleOutputParameter st = [] then Inl (EmptyContainer, st)
      else Inr (st\<lparr>network := (network st)[length (network st) - 1 - l :=
                                 MatrixSlot (last (moduleOutputParameter st))],
                   moduleOutputParameter := butlast (moduleOutputParameter st)\<rparr>))"

text \<open>
  The inner loop \<open>for (l = 0; l < network.size(); ++l)\<close> of \<open>Backward\<close>, on the
  values of \<open>l\<close> that are left: for the two slots of the constructor it runs for
  \<open>l = 0\<close> on \<open>network[1]\<close> and for \<open>l = 1\<close> on \<open>network[0]\<close>.
\<close>

fun LoadOutputParameters ::
  "nat list \<Rightarrow> ('r, 'a) RecurrentAttention \<Rightarrow>
   error \<times> ('r, 'a) RecurrentAttention + ('r, 'a) RecurrentAttention" where
  "LoadOutputParameters [] st = Inr st"
| "LoadOutputParameters (l # ls) st =
     (case LoadOutputParameter l st of
        Inl e \<Rightarrow> Inl e
      | Inr st' \<Rightarrow> LoadOutputParameters ls st')"

lemma LoadOutputParameters_frame:
  "LoadOutputParameters ls st = Inr st' \<Longrightarrow>
     st' = st\<lparr>network := network st', moduleOutputParameter := moduleOutputParameter st'\<rparr>"
proof (induction ls arbitrary: st)
  case Nil
  then show ?case by simp
next
  case (Cons l ls)
  from Cons.prems obtain st1 where l: "LoadOutputParameter l st = Inr st1"
    and r: "LoadOutputParameters ls st1 = Inr st'"
    by (cases "LoadOutputParameter l st") auto
  from l have st1: "st1 = st\<lparr>network := network st1,
      moduleOutputParameter := moduleOutputParameter st1\<rparr>"
    by (cases "moduleOutputParameter st = []") (auto simp: LoadOutputParameter_def)
  show ?case by (subst Cons.IH[OF r], subst st1) simp
qed

text \<open>
  One iteration of the loop of \<open>Backward\<close>, on the layer and the caller's \<open>g\<close>,
  in the order of the sources. First the error of the recurrent module: the output
  gradient \<open>gy\<close> at cursor 0, the action delta otherwise.
\<close>

definition SelectRecurrentError ::
  "mat \<Rightarrow> ('r, 'a) RecurrentAttention \<Rightarrow> ('r, 'a) RecurrentAttention" where
  "SelectRecurrentError gy st =
     st\<lparr>recurrentError := (if backwardStep st = 0 then gy else actionDelta st)\<rparr>"

text \<open>
  After the inner loop over \<open>network\<close>, the action module runs backward on the action
  error: from its own current output at the last cursor, \<open>rho - 1\<close>, and from the
  initial action input otherwise.
\<close>

definition ActionBackward ::
  "'a LayerOps \<Rightarrow> ('r, 'a) RecurrentAttention \<Rightarrow>
   error \<times> ('r, 'a) RecurrentAttention + ('r, 'a) RecurrentAttention" where
  "ActionBackward aops st =
     (let actionIn = (if backwardStep st = rho st - 1
                      then OutputParameter (actionModule st) else initialInput st) in
      case Backward_op aops (actionModule st) actionIn (actionError st) of
        Inl (e, a) \<Rightarrow> Inl (e, st\<lparr>actionModule := a\<rparr>)
      | Inr (a, adelta) \<Rightarrow>
          Inr (st\<lparr>actionModule := a, actionDelta := adelta,
                  calls := calls st @
                    [BackwardCall ActionModule actionIn (actionError st) adelta]\<rparr>))"

text \<open>The recurrent module runs backward on the selected error, from its current output.\<close>

definition RnnBackward ::
  "'r LayerOps \<Rightarrow> ('r, 'a) RecurrentAttention \<Rightarrow>
   error \<times> ('r, 'a) RecurrentAttention + ('r, 'a) RecurrentAttention" where
  "RnnBackward rops st =
     (case Backward_op rops (rnnModule st) (OutputParameter (rnnModule st))
             (recurrentError st) of
        Inl (e, r) \<Rightarrow> Inl (e, st\<lparr>rnnModule := r\<rparr>)
      | Inr (r, rdelta) \<Rightarrow>
          Inr (st\<lparr>rnnModule := r, rnnDelta := rdelta,
                  calls := calls st @
                    [BackwardCall RnnModule (OutputParameter (rnnModule st))
                       (recurrentError st) rdelta]\<rparr>))"

text \<open>\<open>g = rnnDelta.col(1)\<close> at cursor 0 and \<open>g += rnnDelta.col(1)\<close> otherwise.\<close>

definition AccumulateInputGradient ::
  "('r, 'a) RecurrentAttention \<Rightarrow> mat \<Rightarrow> error + mat" where
  "AccumulateInputGradient st g =
     (case col (rnnDelta st) 1 of
        Inl e \<Rightarrow> Inl e
      | Inr c \<Rightarrow> if backwardStep st = 0 then Inr c else add_assign g c)"

definition BackwardStep ::
  "'r LayerOps \<Rightarrow> 'a LayerOps \<Rightarrow>
   (('r, 'a) RecurrentAttention \<Rightarrow>
      error \<times> ('r Layer \<times> 'a Layer \<times> mat \<times> mat) + 'r Layer \<times> 'a Layer \<times> mat \<times> mat) \<Rightarrow>
   mat \<Rightarrow> ('r, 'a) RecurrentAttention \<Rightarrow> mat \<Rightarrow>
   error \<times> ('r, 'a) RecurrentAttention \<times> mat + ('r, 'a) RecurrentAttention \<times> mat" where
  "BackwardStep rops aops ig gy st g =
     (let st1 = SelectRecurrentError gy st in
      case LoadOutputParameters [0 ..< length (network st1)] st1 of
        Inl (e, st2) \<Rightarrow> Inl (e, st2, g)
      | Inr st3 \<Rightarrow>
     (case ActionBackward aops st3 of
        Inl (e, st3') \<Rightarrow> Inl (e, st3', g)
      | Inr st4 \<Rightarrow>
     (case RnnBackward rops st4 of
        Inl (e, st4') \<Rightarrow> Inl (e, st4', g)
      | Inr st5 \<Rightarrow>
     (case AccumulateInputGradient st5 g of
        Inl e \<Rightarrow> Inl (e, st5, g)
      | Inr g' \<Rightarrow>
     (case IntermediateGradient ig st5 of
        Inl (e, st5') \<Rightarrow> Inl (e, st5', g')
      | Inr st6 \<Rightarrow> Inr (st6, g'))))))"

lemma BackwardStep_counters:
  assumes "BackwardStep rops aops ig gy st g = Inr (st', g')"
  shows "rho st' = rho st \<and> backwardStep st' = backwardStep st"
proof -
  define st1 where "st1 = SelectRecurrentError gy st"
  from assms obtain st3 where
    l: "LoadOutputParameters [0 ..< length (network st1)] st1 = Inr st3"
    by (cases "LoadOutputParameters [0 ..< length (network st1)] st1")
       (auto simp: BackwardStep_def st1_def Let_def)
  from assms l obtain st4 where ab: "ActionBackward aops st3 = Inr st4"
    by (cases "ActionBackward aops st3") (auto simp: BackwardStep_def st1_def Let_def)
  from assms l ab obtain st5 where rb: "RnnBackward rops st4 = Inr st5"
    by (cases "RnnBackward rops st4") (auto simp: BackwardStep_def st1_def Let_def)
  from assms l ab rb obtain g1 where "AccumulateInputGradient st5 g = Inr g1"
    by (cases "AccumulateInputGradient st5 g") (auto simp: BackwardStep_def st1_def Let_def)
  with assms l ab rb have ig: "IntermediateGradient ig st5 = Inr st'"
    by (cases "IntermediateGradient ig st5") (auto simp: BackwardStep_def st1_def Let_def)
  have f1: "rho st1 = rho st" "backwardStep st1 = backwardStep st"
    by (simp_all add: st1_def SelectRecurrentError_def)
  have f3: "rho st3 = rho st1" "backwardStep st3 = backwardStep st1"
    by (subst LoadOutputParameters_frame[OF l], simp)+
  from ab have f4: "rho st4 = rho st3" "backwardStep st4 = backwardStep st3"
    by (auto simp: ActionBackward_def Let_def split: sum.splits)
  from rb have f5: "rho st5 = rho st4" "backwardStep st5 = backwardStep st4"
    by (auto simp: RnnBackward_def split: sum.splits)
  from ig have f6: "rho st' = rho st5" "backwardStep st' = backwardStep st5"
    by (auto simp: IntermediateGradient_def split: sum.splits)
  show ?thesis by (simp add: f1 f3 f4 f5 f6)
qed

function BackwardLoop ::
  "'r LayerOps \<Rightarrow> 'a LayerOps \<Rightarrow>
   (('r, 'a) RecurrentAttention \<Rightarrow>
      error \<times> ('r Layer \<times> 'a Layer \<times> mat \<times> mat) + 'r Layer \<times> 'a Layer \<times> mat \<times> mat) \<Rightarrow>
   mat \<Rightarrow> ('r, 'a) RecurrentAttention \<Rightarrow> mat \<Rightarrow>
   error \<times> ('r, 'a) RecurrentAttention \<times> mat + ('r, 'a) RecurrentAttention \<times> mat" where
  "BackwardLoop rops aops ig gy st g =
     (if backwardStep st < rho st then
        (case BackwardStep rops aops ig gy st g of
           Inl e \<Rightarrow> Inl e
         | Inr (st', g') \<Rightarrow>
             BackwardLoop rops aops ig gy (st'\<lparr>backwardStep := backwardStep st' + 1\<rparr>) g')
      else Inr (st, g))"
  by pat_completeness auto
termination
  by (relation "measure (\<lambda>(rops, aops, ig, gy, st, g). rho st - backwardStep st)")
     (auto dest!: BackwardStep_counters)

declare BackwardLoop.simps [simp del]

text \<open>
  The two blocks before the loop of \<open>Backward\<close>: the gradient buffers and the action
  error are allocated when \<open>intermediateGradient\<close> is empty and the cursor is 0; at
  cursor 0 the gradients of the two sub-layers become views of \<open>intermediateGradient\<close>,
  the recurrent module's at offset 0 and the action module's behind it, and
  \<open>attentionGradient\<close> is zeroed.
\<close>

definition InitializeGradients ::
  "('r, 'a) RecurrentAttention \<Rightarrow>
   error \<times> ('r, 'a) RecurrentAttention + ('r, 'a) RecurrentAttention" where
  "InitializeGradients st =
     (let weights = n_elem (Parameters (rnnModule st)) + n_elem (Parameters (actionModule st));
          st1 = (if is_empty (intermediateGradient st) \<and> backwardStep st = 0
                 then st\<lparr>intermediateGradient := zeros weights 1,
                         attentionGradient := zeros weights 1,
                         actionError := zeros (n_rows (OutputParameter (actionModule st)))
                                          (n_cols (OutputParameter (actionModule st)))\<rparr>
                 else st) in
      if backwardStep st1 = 0 then
        (case mem_view (intermediateGradient st1) 0
                (n_rows (Parameters (rnnModule st1))) (n_cols (Parameters (rnnModule st1))) of
           Inl e \<Rightarrow> Inl (e, st1)
         | Inr gr \<Rightarrow>
         (case mem_view (intermediateGradient st1) (n_elem (Parameters (rnnModule st1)))
                (n_rows (Parameters (actionModule st1)))
                (n_cols (Parameters (actionModule st1))) of
           Inl e \<Rightarrow> Inl (e, st1\<lparr>rnnModule := (rnnModule st1)\<lparr>Gradient := gr\<rparr>\<rparr>)
         | Inr ga \<Rightarrow>
           Inr (st1\<lparr>rnnModule := (rnnModule st1)\<lparr>Gradient := gr\<rparr>,
                    actionModule := (actionModule st1)\<lparr>Gradient := ga\<rparr>,
                    attentionGradient := zeros (n_rows (attentionGradient st1))
                                           (n_cols (attentionGradient st1))\<rparr>)))
      else Inr st1)"

text \<open>\<open>RecurrentAttention::Backward\<close>. Its first parameter is unnamed in the sources.\<close>

definition RecurrentAttention_Backward ::
  "'r LayerOps \<Rightarrow> 'a LayerOps \<Rightarrow>
   (('r, 'a) RecurrentAttention \<Rightarrow>
      error \<times> ('r Layer \<times> 'a Layer \<times> mat \<times> mat) + 'r Layer \<times> 'a Layer \<times> mat \<times> mat) \<Rightarrow>
   ('r, 'a) RecurrentAttention \<Rightarrow> mat \<Rightarrow> mat \<Rightarrow> mat \<Rightarrow>
   error \<times> ('r, 'a) RecurrentAttention \<times> mat + ('r, 'a) RecurrentAttention \<times> mat" where
  "RecurrentAttention_Backward rops aops ig st input gy g =
     (case InitializeGradients st of
        Inl (e, st1) \<Rightarrow> Inl (e, st1, g)
      | Inr st1 \<Rightarrow> BackwardLoop rops aops ig gy st1 g)"

subsection \<open>Gradient\<close>

text \<open>
  \<open>RecurrentAttention::Gradient\<close>; its three parameters are unnamed in the sources.
  Each block is read from \<open>attentionGradient\<close> only when its module has parameters.
\<close>

definition RecurrentAttention_Gradient ::
  "('r, 'a) RecurrentAttention \<Rightarrow>
   error \<times> ('r, 'a) RecurrentAttention + ('r, 'a) RecurrentAttention" where
  "RecurrentAttention_Gradient st =
     (case (if n_elem (Parameters (rnnModule st)) \<noteq> 0 then
              (case submat (attentionGradient st) 0 0
                      (size_t_minus (0 + n_elem (Parameters (rnnModule st))) 1) 0 of
                 Inl e \<Rightarrow> Inl (e, st)
               | Inr b \<Rightarrow> Inr (st\<lparr>rnnModule := (rnnModule st)\<lparr>Gradient := b\<rparr>\<rparr>,
                               0 + n_elem (Parameters (rnnModule st))))
            else Inr (st, 0)) of
        Inl e \<Rightarrow> Inl e
      | Inr (st1, offset1) \<Rightarrow>
          if n_elem (Parameters (actionModule st1)) \<noteq> 0 then
            (case submat (attentionGradient st1) offset1 0
                    (size_t_minus (offset1 + n_elem (Parameters (actionModule st1))) 1) 0 of
               Inl e \<Rightarrow> Inl (e, st1)
             | Inr b \<Rightarrow> Inr (st1\<lparr>actionModule := (actionModule st1)\<lparr>Gradient := b\<rparr>\<rparr>))
          else Inr st1)"

subsection \<open>The calls of a run, for the statement of the properties\<close>

text \<open>
  The calls that the steps of \<open>Forward\<close> make, given for each step the output of the
  action module, the glimpse input and the output of the recurrent module: the action
  module is called on \<open>prev\<close>, then the recurrent module on the glimpse input, and the
  output of the recurrent module is \<open>prev\<close> for the next step.
\<close>

fun forward_calls :: "mat \<Rightarrow> (mat \<times> mat \<times> mat) list \<Rightarrow> event list" where
  "forward_calls prev [] = []"
| "forward_calls prev ((aout, gl, rout) # steps) =
     ForwardCall ActionModule prev aout # ForwardCall RnnModule gl rout #
     forward_calls rout steps"

text \<open>
  The calls that the iterations of \<open>Backward\<close> make, given for each iteration the
  inputs and the deltas of the two modules: the action module runs backward on the action
  error, and the recurrent module runs backward on \<open>recErr\<close>; the action delta is
  \<open>recErr\<close> for the next iteration.
\<close>

fun backward_calls :: "mat \<Rightarrow> mat \<Rightarrow> (mat \<times> mat \<times> mat \<times> mat) list \<Rightarrow> event list" where
  "backward_calls actErr recErr [] = []"
| "backward_calls actErr recErr ((ain, rin, adelta, rdelta) # steps) =
     BackwardCall ActionModule ain actErr adelta #
     BackwardCall RnnModule rin recErr rdelta #
     backward_calls actErr adelta steps"

text \<open>
  What the iterations from cursor \<open>k\<close> on make of \<open>g\<close>, given the deltas of the
  recurrent module: at cursor 0 column 1 of the delta is assigned, later it is added.
\<close>

fun accumulate :: "nat \<Rightarrow> mat \<Rightarrow> mat list \<Rightarrow> error + mat" where
  "accumulate k g [] = Inr g"
| "accumulate k g (d # ds) =
     (case col d 1 of
        Inl e \<Rightarrow> Inl e
      | Inr c \<Rightarrow>
     (case (if k = 0 then Inr c else add_assign g c) of
        Inl e \<Rightarrow> Inl e
      | Inr g' \<Rightarrow> accumulate (Suc k) g' ds))"

text \<open>Readings of a list of calls.\<close>

definition rnn_errors :: "event list \<Rightarrow> mat list" where
  "rnn_errors evs = concat (map (\<lambda>ev. case ev of
       BackwardCall RnnModule i e d \<Rightarrow> [e] | _ \<Rightarrow> []) evs)"

definition rnn_deltas :: "event list \<Rightarrow> mat list" where
  "rnn_deltas evs = concat (map (\<lambda>ev. case ev of
       BackwardCall RnnModule i e d \<Rightarrow> [d] | _ \<Rightarrow> []) evs)"

definition action_deltas :: "event list \<Rightarrow> mat list" where
  "action_deltas evs = concat (map (\<lambda>ev. case ev of
       BackwardCall ActionModule i e d \<Rightarrow> [d] | _ \<Rightarrow> []) evs)"


definition action_inputs :: "event list \<Rightarrow> mat list" where
  "action_inputs evs = concat (map (\<lambda>ev. case ev of
       ForwardCall ActionModule i out \<Rightarrow> [i] | _ \<Rightarrow> []) evs)"

definition action_outputs :: "event list \<Rightarrow> mat list" where
  "action_outputs evs = concat (map (\<lambda>ev. case ev of
       ForwardCall ActionModule i out \<Rightarrow> [out] | _ \<Rightarrow> []) evs)"

definition rnn_inputs :: "event list \<Rightarrow> mat list" where
  "rnn_inputs evs = concat (map (\<lambda>ev. case ev of
       ForwardCall RnnModule i out \<Rightarrow> [i] | _ \<Rightarrow> []) evs)"

definition rnn_outputs :: "event list \<Rightarrow> mat list" where
  "rnn_outputs evs = concat (map (\<lambda>ev. case ev of
       ForwardCall RnnModule i out \<Rightarrow> [out] | _ \<Rightarrow> []) evs)"

section \<open>Example configurations\<close>

text \<open>A 5 \<times> 5 input with one channel and one batch column, holding 1 to 25.\<close>

definition input_5x5 :: mat where
  "input_5x5 = \<lparr>n_rows = 25, n_cols = 1, mem = map real [1 ..< 26]\<rparr>"

definition pool_5x5 :: "bool \<Rightarrow> MeanPooling" where
  "pool_5x5 fl = (MeanPooling_new 2 2 2 2 fl)\<lparr>inputWidth := 5, inputHeight := 5\<rparr>"

text \<open>Kernel 2 \<times> 2, stride 2 \<times> 2, floor mode, for 4 \<times> 4 inputs.\<close>

definition pool_4x4 :: MeanPooling where
  "pool_4x4 = (MeanPooling_new 2 2 2 2 True)\<lparr>inputWidth := 4, inputHeight := 4\<rparr>"

text \<open>The same layer after \<open>Forward\<close> on the 4 \<times> 4 input of ones.\<close>

definition pool_4x4_cached :: MeanPooling where
  "pool_4x4_cached = pool_4x4\<lparr>inSize := 1, MeanPooling.outSize := 1,
     outputWidth := 2, outputHeight := 2, batchSize := 1,
     inputTemp := \<lparr>n_rows = 4, n_cols = 4, mem = replicate 16 1, n_slices = 1\<rparr>,
     outputTemp := \<lparr>n_rows = 2, n_cols = 2, mem = replicate 4 1, n_slices = 1\<rparr>\<rparr>"

text \<open>
  Overlapping windows: kernel 2 \<times> 2 and stride 1 \<times> 1, after \<open>Forward\<close> on a
  3 \<times> 3 input with one channel and one batch column.
\<close>

definition pool_overlap_cached :: MeanPooling where
  "pool_overlap_cached = (MeanPooling_new 2 2 1 1 True)\<lparr>inputWidth := 3, inputHeight := 3,
     inSize := 1, MeanPooling.outSize := 1, outputWidth := 2, outputHeight := 2, batchSize := 1,
     inputTemp := \<lparr>n_rows = 3, n_cols = 3, mem = map real [1 ..< 10], n_slices = 1\<rparr>,
     outputTemp := \<lparr>n_rows = 2, n_cols = 2, mem = [3, 4, 6, 7], n_slices = 1\<rparr>\<rparr>"

text \<open>Kernel 1 \<times> 1, stride 1 \<times> 1, for 2 \<times> 2 inputs; and a column of five elements.\<close>

definition pool_unit :: MeanPooling where
  "pool_unit = (MeanPooling_new 1 1 1 1 True)\<lparr>inputWidth := 2, inputHeight := 2\<rparr>"

definition input_5 :: mat where
  "input_5 = \<lparr>n_rows = 5, n_cols = 1, mem = [1, 2, 3, 4, 5]\<rparr>"

definition input_2x2 :: mat where
  "input_2x2 = \<lparr>n_rows = 4, n_cols = 1, mem = [1, 2, 3, 4]\<rparr>"

text \<open>
  Kernel 1 \<times> 1, stride 1 \<times> 1, for inputs of \<open>2\<^sup>3\<^sup>2 \<times> 2\<^sup>3\<^sup>2\<close>; and a column
  without elements.
\<close>

definition pool_unit_wide :: MeanPooling where
  "pool_unit_wide = (MeanPooling_new 1 1 1 1 True)\<lparr>inputWidth := 2 ^ 32, inputHeight := 2 ^ 32\<rparr>"

definition empty_column :: mat where
  "empty_column = \<lparr>n_rows = 0, n_cols = 1, mem = []\<rparr>"

subsection \<open>Recurrent attention examples\<close>

text \<open>
  Two sub-layers without internal state. The action module passes its input on; running
  backward it returns its input raised by one. The recurrent module adds the two columns
  of the glimpse input; running backward it returns its error in column 0 and twice its
  error in column 1.
\<close>

definition action_ops :: "unit LayerOps" where
  "action_ops = \<lparr>Forward_op = (\<lambda>l x. Inr (l, x)),
     Backward_op = (\<lambda>l x gy. Inr (l, x\<lparr>mem := map (\<lambda>v. v + 1) (mem x)\<rparr>))\<rparr>"

definition rnn_ops :: "unit LayerOps" where
  "rnn_ops = \<lparr>Forward_op = (\<lambda>l x. Inr (l,
       \<lparr>n_rows = n_rows x, n_cols = 1,
        mem = map (\<lambda>i. mat_at x i 0 + mat_at x i 1) [0 ..< n_rows x]\<rparr>)),
     Backward_op = (\<lambda>l x gy. Inr (l,
       \<lparr>n_rows = n_rows gy, n_cols = 2, mem = mem gy @ map (\<lambda>v. 2 * v) (mem gy)\<rparr>))\<rparr>"

text \<open>An \<open>IntermediateGradient\<close> that leaves the sub-layers and the buffers as they are.\<close>

definition keep_gradients ::
  "(unit, unit) RecurrentAttention \<Rightarrow>
   error \<times> (unit Layer \<times> unit Layer \<times> mat \<times> mat) + unit Layer \<times> unit Layer \<times> mat \<times> mat" where
  "keep_gradients st =
     Inr (rnnModule st, actionModule st, intermediateGradient st, attentionGradient st)"

text \<open>
  A layer of two steps: the recurrent module has two parameters, the action module none.
\<close>

definition layer_with :: "mat \<Rightarrow> unit Layer" where
  "layer_with ps = \<lparr>internal = (), OutputParameter = empty_mat, Parameters = ps,
     Gradient = empty_mat\<rparr>"

definition attention_example :: "(unit, unit) RecurrentAttention" where
  "attention_example =
     RecurrentAttention_new 3 (layer_with (filled 2 1 5)) (layer_with empty_mat) 2"

text \<open>The same layer with an accumulated attention gradient of two nines.\<close>

definition attention_with_gradient :: "(unit, unit) RecurrentAttention" where
  "attention_with_gradient = attention_example\<lparr>attentionGradient := filled 2 1 9\<rparr>"

text \<open>
  An action module whose output is one zero whatever its input, and a layer of two steps
  with \<open>outSize = 0\<close>.
\<close>

definition fixed_ops :: "unit LayerOps" where
  "fixed_ops = \<lparr>Forward_op = (\<lambda>l x. Inr (l, filled 1 1 0)),
     Backward_op = (\<lambda>l x gy. Inr (l, x))\<rparr>"

definition attention_flat :: "(unit, unit) RecurrentAttention" where
  "attention_flat =
     RecurrentAttention_new 0 (layer_with (filled 2 1 5)) (layer_with empty_mat) 2"

text \<open>Inputs and an output gradient of three rows.\<close>

definition input_3 :: mat where
  "input_3 = \<lparr>n_rows = 3, n_cols = 1, mem = [1, 2, 3]\<rparr>"

definition gy_3 :: mat where
  "gy_3 = \<lparr>n_rows = 3, n_cols = 1, mem = [10, 20, 30]\<rparr>"

section \<open>Properties of the mean pooling layer\<close>

subsection \<open>The phases of Forward\<close>

lemma Forward_slices_frame:
  "Forward_slices st s = Inr st' \<Longrightarrow>
     st' = st\<lparr>outputTemp := (outputTemp st)\<lparr>mem := mem (outputTemp st')\<rparr>\<rparr>"
proof (induction st s rule: Forward_slices.induct)
  case (1 st s)
  show ?case
  proof (cases "s < n_slices (inputTemp st)")
    case False
    with "1.prems" show ?thesis by (simp add: Forward_slices.simps[of st s])
  next
    case True
    with "1.prems" obtain m where m: "Pooling st (slice (inputTemp st) s) (slice (outputTemp st) s) = Inr m"
      and r: "Forward_slices (st\<lparr>outputTemp := set_slice (outputTemp st) s m\<rparr>) (Suc s) = Inr st'"
      by (auto simp: Forward_slices.simps[of st s] split: sum.splits)
    from "1.IH"[OF True m r] show ?thesis
      by (simp add: set_slice_def)
  qed
qed

lemma to_size_t_Inr: "to_size_t z = Inr n \<Longrightarrow> int n = z"
  by (auto simp: to_size_t_def split: if_splits)

lemma output_size_floor:
  "output_size True iw kw sw = Inr n \<Longrightarrow> int n = \<lfloor>(real iw - real kw) / real sw + 1\<rfloor>"
  by (auto simp: output_size_def dest: to_size_t_Inr split: if_splits)

lemma output_size_ceil:
  "output_size False iw kw sw = Inr n \<Longrightarrow> int n = \<lceil>(real iw - real kw) / real sw + 1\<rceil>"
  by (auto simp: output_size_def dest: to_size_t_Inr split: if_splits)

lemma size_t_times_fits: "a * b < 2 ^ 64 \<Longrightarrow> size_t_times a b = a * b"
  by (simp add: size_t_times_def)

lemma size_t_times_eq_0: "size_t_times a b \<noteq> 0 \<Longrightarrow> a \<noteq> 0 \<and> b \<noteq> 0"
  by (cases "a = 0"; cases "b = 0") (simp_all add: size_t_times_def)

lemma Forward_view_Inr:
  assumes "Forward_view st input = Inr st3"
  defines "d \<equiv> size_t_times (size_t_times (inputWidth st) (inputHeight st)) (n_cols input)"
  shows "n_cols input \<noteq> 0"
    and "st3 = st\<lparr>batchSize := n_cols input,
                  inSize := n_elem input div d,
                  inputTemp := \<lparr>n_rows = inputWidth st, n_cols = inputHeight st,
                       mem = take (inputWidth st * inputHeight st *
                                   (n_cols input * (n_elem input div d))) (mem input),
                       n_slices = n_cols input * (n_elem input div d)\<rparr>\<rparr>"
proof -
  from assms(1) have nz: "d \<noteq> 0"
    by (auto simp: Forward_view_def Let_def d_def split: if_splits)
  then show "n_cols input \<noteq> 0"
    unfolding d_def
    using size_t_times_eq_0[of "size_t_times (inputWidth st) (inputHeight st)" "n_cols input"]
    by simp
  from assms(1) nz show "st3 = st\<lparr>batchSize := n_cols input,
                  inSize := n_elem input div d,
                  inputTemp := \<lparr>n_rows = inputWidth st, n_cols = inputHeight st,
                       mem = take (inputWidth st * inputHeight st *
                                   (n_cols input * (n_elem input div d))) (mem input),
                       n_slices = n_cols input * (n_elem input div d)\<rparr>\<rparr>"
    by (simp add: Forward_view_def Let_def d_def split: if_splits)
qed

lemma Forward_output_size_Inr:
  assumes "Forward_output_size st3 = Inr st5"
  shows "output_size (floor_mode st3) (inputWidth st3) (kernelWidth st3) (strideWidth st3)
           = Inr (outputWidth st5)"
    and "output_size (floor_mode st3) (inputHeight st3) (kernelHeight st3) (strideHeight st3)
           = Inr (outputHeight st5)"
    and "st5 = st3\<lparr>outputWidth := outputWidth st5, outputHeight := outputHeight st5,
                   offset := (if floor_mode st3 then 0 else 1),
                   outputTemp := zeros_cube (outputWidth st5) (outputHeight st5)
                        (batchSize st3 * inSize st3)\<rparr>"
  using assms by (auto simp: Forward_output_size_def Let_def split: sum.splits)

lemma MeanPooling_Forward_Inr:
  assumes "MeanPooling_Forward st input = Inr (st', out)"
  obtains st3 st5 st6 where "Forward_view st input = Inr st3"
    and "Forward_output_size st3 = Inr st5"
    and "Forward_slices st5 0 = Inr st6"
    and "Forward_output st6 = (st', out)"
  using assms by (auto simp: MeanPooling_Forward_def split: sum.splits)

lemma MeanPooling_Forward_sizes:
  assumes "MeanPooling_Forward st input = Inr (st', out)"
  shows "output_size (floor_mode st) (inputWidth st) (kernelWidth st) (strideWidth st)
           = Inr (outputWidth st')"
    and "output_size (floor_mode st) (inputHeight st) (kernelHeight st) (strideHeight st)
           = Inr (outputHeight st')"
    and "n_cols out = n_cols input"
    and "n_rows out = outputWidth st' * outputHeight st' * (n_cols input * inSize st') div n_cols input"
    and "n_cols input \<noteq> 0"
proof -
  from assms obtain st3 st5 st6 where v: "Forward_view st input = Inr st3"
    and o: "Forward_output_size st3 = Inr st5"
    and l: "Forward_slices st5 0 = Inr st6"
    and r: "Forward_output st6 = (st', out)"
    by (rule MeanPooling_Forward_Inr)
  note v' = Forward_view_Inr[OF v]
  note o' = Forward_output_size_Inr[OF o]
  note l' = Forward_slices_frame[OF l]
  have st': "st' = st6\<lparr>outputWidth := n_rows (outputTemp st6),
           outputHeight := n_cols (outputTemp st6),
           MeanPooling.outSize := batchSize st6 * inSize st6\<rparr>"
    and out: "out = \<lparr>n_rows = cube_n_elem (outputTemp st6) div batchSize st6,
       n_cols = batchSize st6,
       mem = take (cube_n_elem (outputTemp st6) div batchSize st6 * batchSize st6)
               (mem (outputTemp st6))\<rparr>"
    using r by (simp_all add: Forward_output_def)
  have ot: "n_rows (outputTemp st6) = outputWidth st5" "n_cols (outputTemp st6) = outputHeight st5"
     "n_slices (outputTemp st6) = batchSize st3 * inSize st3"
    by (subst l', subst o'(3), simp add: zeros_cube_def)+
  have f6: "batchSize st6 = n_cols input" "inSize st6 = inSize st3"
    by (subst l', subst o'(3), subst v'(2), simp)+
  have f3: "floor_mode st3 = floor_mode st" "inputWidth st3 = inputWidth st"
    "kernelWidth st3 = kernelWidth st" "strideWidth st3 = strideWidth st"
    "inputHeight st3 = inputHeight st"
    "kernelHeight st3 = kernelHeight st" "strideHeight st3 = strideHeight st"
    "batchSize st3 = n_cols input"
    by (subst v'(2), simp)+
  have w: "outputWidth st' = outputWidth st5" "outputHeight st' = outputHeight st5"
    "inSize st' = inSize st3"
    using ot f6 by (simp_all add: st')
  show "output_size (floor_mode st) (inputWidth st) (kernelWidth st) (strideWidth st)
           = Inr (outputWidth st')"
    using o'(1) by (simp add: f3 w)
  show "output_size (floor_mode st) (inputHeight st) (kernelHeight st) (strideHeight st)
           = Inr (outputHeight st')"
    using o'(2) by (simp add: f3 w)
  show "n_cols out = n_cols input" by (simp add: out f6)
  show "n_rows out = outputWidth st' * outputHeight st' * (n_cols input * inSize st') div n_cols input"
    by (simp add: out f6 cube_n_elem_def ot w f3)
  show "n_cols input \<noteq> 0" by (rule v'(1))
qed

subsection \<open>The size of the output\<close>

text \<open>
  C2: whenever \<open>Forward\<close> returns, the cached output width is
  \<open>floor((inputWidth - kernelWidth) / strideWidth + 1)\<close> in floor mode and the ceiling of
  the same in ceil mode, and the height likewise; the output matrix has
  \<open>outputWidth * outputHeight * inSize\<close> rows and the columns of the input. For a
  5 \<times> 5 input with kernel 2 \<times> 2 and stride 2 \<times> 2 the output is 2 \<times> 2 in floor mode and
  3 \<times> 3 in ceil mode.
\<close>

theorem MeanPooling_Forward_output_size:
  assumes "MeanPooling_Forward st input = Inr (st', out)"
  shows "(floor_mode st \<longrightarrow>
            int (outputWidth st') =
              \<lfloor>(real (inputWidth st) - real (kernelWidth st)) / real (strideWidth st) + 1\<rfloor> \<and>
            int (outputHeight st') =
              \<lfloor>(real (inputHeight st) - real (kernelHeight st)) / real (strideHeight st) + 1\<rfloor>) \<and>
         (\<not> floor_mode st \<longrightarrow>
            int (outputWidth st') =
              \<lceil>(real (inputWidth st) - real (kernelWidth st)) / real (strideWidth st) + 1\<rceil> \<and>
            int (outputHeight st') =
              \<lceil>(real (inputHeight st) - real (kernelHeight st)) / real (strideHeight st) + 1\<rceil>) \<and>
         n_rows out = outputWidth st' * outputHeight st' * inSize st' \<and>
         n_cols out = n_cols input \<and>
         (inputWidth st = 5 \<and> inputHeight st = 5 \<and> kernelWidth st = 2 \<and> kernelHeight st = 2 \<and>
          strideWidth st = 2 \<and> strideHeight st = 2 \<longrightarrow>
            (if floor_mode st then outputWidth st' = 2 \<and> outputHeight st' = 2
             else outputWidth st' = 3 \<and> outputHeight st' = 3))"
proof -
  note s = MeanPooling_Forward_sizes[OF assms]
  have fl: "floor_mode st \<Longrightarrow>
      int (outputWidth st') =
        \<lfloor>(real (inputWidth st) - real (kernelWidth st)) / real (strideWidth st) + 1\<rfloor> \<and>
      int (outputHeight st') =
        \<lfloor>(real (inputHeight st) - real (kernelHeight st)) / real (strideHeight st) + 1\<rfloor>"
    using s(1,2) by (simp add: output_size_floor)
  have ce: "\<not> floor_mode st \<Longrightarrow>
      int (outputWidth st') =
        \<lceil>(real (inputWidth st) - real (kernelWidth st)) / real (strideWidth st) + 1\<rceil> \<and>
      int (outputHeight st') =
        \<lceil>(real (inputHeight st) - real (kernelHeight st)) / real (strideHeight st) + 1\<rceil>"
    using s(1,2) by (simp add: output_size_ceil)
  have nz: "n_cols input \<noteq> 0" by (rule s(5))
  have rows: "n_rows out = outputWidth st' * outputHeight st' * inSize st'"
  proof -
    have "outputWidth st' * outputHeight st' * (n_cols input * inSize st')
        = (outputWidth st' * outputHeight st' * inSize st') * n_cols input"
      by (simp add: mult.assoc mult.commute)
    with s(4) nz show ?thesis by simp
  qed
  have five: "inputWidth st = 5 \<and> inputHeight st = 5 \<and> kernelWidth st = 2 \<and>
      kernelHeight st = 2 \<and> strideWidth st = 2 \<and> strideHeight st = 2 \<Longrightarrow>
      (if floor_mode st then outputWidth st' = 2 \<and> outputHeight st' = 2
       else outputWidth st' = 3 \<and> outputHeight st' = 3)"
  proof (cases "floor_mode st")
    case True
    assume h: "inputWidth st = 5 \<and> inputHeight st = 5 \<and> kernelWidth st = 2 \<and>
      kernelHeight st = 2 \<and> strideWidth st = 2 \<and> strideHeight st = 2"
    from fl[OF True] h have "int (outputWidth st') = 2 \<and> int (outputHeight st') = 2" by simp
    with True show ?thesis by simp
  next
    case False
    assume h: "inputWidth st = 5 \<and> inputHeight st = 5 \<and> kernelWidth st = 2 \<and>
      kernelHeight st = 2 \<and> strideWidth st = 2 \<and> strideHeight st = 2"
    from ce[OF False] h have "int (outputWidth st') = 3 \<and> int (outputHeight st') = 3" by simp
    with False show ?thesis by simp
  qed
  from fl ce rows s(3) five show ?thesis by blast
qed

text \<open>
  \<open>Forward\<close> does return on the 5 \<times> 5 example, in both modes, with these sizes.
\<close>

theorem MeanPooling_Forward_output_size_witness:
  "(\<exists>st' out. MeanPooling_Forward (pool_5x5 True) input_5x5 = Inr (st', out) \<and>
      outputWidth st' = 2 \<and> outputHeight st' = 2 \<and> n_rows out = 2 * 2 * inSize st' \<and>
      n_cols out = 1) \<and>
   (\<exists>st' out. MeanPooling_Forward (pool_5x5 False) input_5x5 = Inr (st', out) \<and>
      outputWidth st' = 3 \<and> outputHeight st' = 3 \<and> n_rows out = 3 * 3 * inSize st' \<and>
      n_cols out = 1)"
proof
  have "case MeanPooling_Forward (pool_5x5 True) input_5x5 of
          Inr (st', out) \<Rightarrow> True | Inl e \<Rightarrow> False"
    by code_simp
  then obtain st' out where h: "MeanPooling_Forward (pool_5x5 True) input_5x5 = Inr (st', out)"
    by (auto split: sum.splits)
  from MeanPooling_Forward_output_size[OF h]
  have "outputWidth st' = 2 \<and> outputHeight st' = 2 \<and> n_rows out = 2 * 2 * inSize st' \<and>
      n_cols out = 1"
    by (simp add: pool_5x5_def MeanPooling_new_def input_5x5_def)
  with h show "\<exists>st' out. MeanPooling_Forward (pool_5x5 True) input_5x5 = Inr (st', out) \<and>
      outputWidth st' = 2 \<and> outputHeight st' = 2 \<and> n_rows out = 2 * 2 * inSize st' \<and>
      n_cols out = 1"
    by blast
next
  have "case MeanPooling_Forward (pool_5x5 False) input_5x5 of
          Inr (st', out) \<Rightarrow> True | Inl e \<Rightarrow> False"
    by code_simp
  then obtain st' out where h: "MeanPooling_Forward (pool_5x5 False) input_5x5 = Inr (st', out)"
    by (auto split: sum.splits)
  from MeanPooling_Forward_output_size[OF h]
  have "outputWidth st' = 3 \<and> outputHeight st' = 3 \<and> n_rows out = 3 * 3 * inSize st' \<and>
      n_cols out = 1"
    by (simp add: pool_5x5_def MeanPooling_new_def input_5x5_def)
  with h show "\<exists>st' out. MeanPooling_Forward (pool_5x5 False) input_5x5 = Inr (st', out) \<and>
      outputWidth st' = 3 \<and> outputHeight st' = 3 \<and> n_rows out = 3 * 3 * inSize st' \<and>
      n_cols out = 1"
    by blast
qed

subsection \<open>Backward does not read its input\<close>

text \<open>
  C9: \<open>Backward\<close> gives the same result, the same gradient and the same layer afterwards,
  for any two input tensors, given the same output gradient and the same cached state.
\<close>

theorem MeanPooling_Backward_ignores_input:
  "MeanPooling_Backward st input1 gy = MeanPooling_Backward st input2 gy"
  unfolding MeanPooling_Backward_def ..

subsection \<open>Memory in blocks\<close>

lemma length_concat_blocks:
  "(\<And>t. t < n \<Longrightarrow> length (f t) = k) \<Longrightarrow> length (concat (map f [0 ..< n])) = n * k"
  by (induction n) simp_all

lemma length_concat_blocks_from:
  "(\<And>t. s \<le> t \<Longrightarrow> t < n \<Longrightarrow> length (f t) = k) \<Longrightarrow>
     length (concat (map f [s ..< n])) = (n - s) * k"
proof (induction n)
  case 0
  then show ?case by simp
next
  case (Suc n)
  show ?case
  proof (cases "s \<le> n")
    case True
    then have "length (concat (map f [s ..< n])) = (n - s) * k"
      using Suc by simp
    moreover have "length (f n) = k" using Suc.prems True by simp
    ultimately show ?thesis using True by (simp add: Suc_diff_le)
  next
    case False
    then show ?thesis by simp
  qed
qed

lemma nth_concat_blocks:
  assumes "\<And>t. t < n \<Longrightarrow> length (f t) = k" and "t < n" and "q < k"
  shows "concat (map f [0 ..< n]) ! (t * k + q) = f t ! q"
  using assms
proof (induction n)
  case 0
  then show ?case by simp
next
  case (Suc n)
  have len: "length (concat (map f [0 ..< n])) = n * k"
    using Suc.prems(1) by (simp add: length_concat_blocks)
  show ?case
  proof (cases "t < n")
    case True
    then have "Suc t \<le> n" by simp
    then have "Suc t * k \<le> n * k" by (rule mult_le_mono1)
    with \<open>q < k\<close> have "t * k + q < n * k" by simp
    with len Suc True show ?thesis by (simp add: nth_append)
  next
    case False
    with Suc.prems have "t = n" by simp
    with len show ?thesis by (simp add: nth_append)
  qed
qed

lemma map_nth_shift: "n + r \<le> length xs \<Longrightarrow> map (\<lambda>i. xs ! (i + n)) [0 ..< r] = take r (drop n xs)"
  by (rule nth_equalityI) (simp_all add: add.commute)

lemma column_major_enum:
  "r * c \<le> length xs \<Longrightarrow>
     concat (map (\<lambda>j. map (\<lambda>i. xs ! (i + j * r)) [0 ..< r]) [0 ..< c]) = take (r * c) xs"
proof (induction c)
  case 0
  then show ?case by simp
next
  case (Suc c)
  then have le: "c * r + r \<le> length xs" by (simp add: mult.commute)
  then have "r * c \<le> length xs" by (simp add: mult.commute)
  with Suc have IH: "concat (map (\<lambda>j. map (\<lambda>i. xs ! (i + j * r)) [0 ..< r]) [0 ..< c]) = take (r * c) xs"
    by simp
  have "r * Suc c = r * c + r" by simp
  then have "take (r * Suc c) xs = take (r * c) xs @ take r (drop (r * c) xs)"
    by (simp only: take_add)
  moreover have "map (\<lambda>i. xs ! (i + c * r)) [0 ..< r] = take r (drop (r * c) xs)"
    using map_nth_shift[OF le] by (simp add: mult.commute)
  ultimately show ?case using IH by simp
qed

lemma concat_take_drop_blocks:
  "concat (map (\<lambda>t. take k (drop (t * k) xs)) [0 ..< n]) = take (n * k) xs"
proof (induction n)
  case 0
  then show ?case by simp
next
  case (Suc n)
  have "Suc n * k = n * k + k" by simp
  then have "take (Suc n * k) xs = take (n * k) xs @ take k (drop (n * k) xs)"
    by (simp only: take_add)
  with Suc show ?case by simp
qed

subsection \<open>Collecting results\<close>

lemma collect_all_Inr:
  "(\<And>x. x \<in> set xs \<Longrightarrow> f x = Inr (g x)) \<Longrightarrow> collect (map f xs) = Inr (map g xs)"
  by (induction xs) simp_all

lemma collect_length: "collect rs = Inr vs \<Longrightarrow> length vs = length rs"
proof (induction rs arbitrary: vs)
  case Nil
  then show ?case by simp
next
  case (Cons r rs)
  then show ?case by (cases r) (auto split: sum.splits)
qed

subsection \<open>Cells and windows\<close>

lemma cells_of_product:
  "cells_of m = map prod.swap (List.product [0 ..< n_cols m] [0 ..< n_rows m])"
  unfolding cells_of_def cells_def
  by (simp add: List.product_concat_map map_concat comp_def)

lemma window_cells_product:
  "window_cells st input i j = map prod.swap (List.product
     [j * strideHeight st ..< min (j * strideHeight st + kernelHeight st) (n_cols input)]
     [i * strideWidth st ..< min (i * strideWidth st + kernelWidth st) (n_rows input)])"
  unfolding window_cells_def
  by (simp add: List.product_concat_map map_concat comp_def)

lemma set_window_cells:
  "(x, y) \<in> set (window_cells st input i j) \<longleftrightarrow>
     i * strideWidth st \<le> x \<and> x < i * strideWidth st + kernelWidth st \<and> x < n_rows input \<and>
     j * strideHeight st \<le> y \<and> y < j * strideHeight st + kernelHeight st \<and> y < n_cols input"
  unfolding window_cells_product by auto

lemma distinct_window_cells: "distinct (window_cells st input i j)"
  unfolding window_cells_product
  by (simp add: distinct_map distinct_product inj_on_def)

lemma window_cells_unit:
  assumes "kernelWidth st = 1" "kernelHeight st = 1" "strideWidth st = 1" "strideHeight st = 1"
    and "i < n_rows input" "j < n_cols input"
  shows "window_cells st input i j = [(i, j)]"
proof -
  have "min (Suc i) (n_rows input) = Suc i" "min (Suc j) (n_cols input) = Suc j"
    using assms by simp_all
  with assms show ?thesis by (simp add: window_cells_def)
qed

lemma set_cells_of: "(i, j) \<in> set (cells_of m) \<longleftrightarrow> i < n_rows m \<and> j < n_cols m"
  unfolding cells_of_product by auto

lemma distinct_cells_of: "distinct (cells_of m)"
  unfolding cells_of_product
  by (simp add: distinct_map distinct_product inj_on_def)

lemma length_cells_of: "length (cells_of m) = n_rows m * n_cols m"
  unfolding cells_of_product by (simp add: mult.commute)

lemma window_cells_state [simp]:
  "window_cells (st\<lparr>outputTemp := x\<rparr>) = window_cells st"
  "window_cells (st\<lparr>gTemp := y\<rparr>) = window_cells st"
  by (simp_all add: fun_eq_iff window_cells_def)

lemma window_mean_state [simp]: "window_mean (st\<lparr>outputTemp := x\<rparr>) = window_mean st"
  by (rule ext, rule ext) (simp add: window_mean_def)

lemma Pooling_state [simp]: "Pooling (st\<lparr>outputTemp := x\<rparr>) = Pooling st"
  by (rule ext, rule ext) (simp add: Pooling_def)

lemma Unpooling_window_state [simp]:
  "Unpooling_window (st\<lparr>gTemp := x\<rparr>) = Unpooling_window st"
  by (rule ext, rule ext, rule ext, rule ext) (simp add: Unpooling_window_def)

lemma Unpooling_state [simp]: "Unpooling (st\<lparr>gTemp := x\<rparr>) = Unpooling st"
  by (rule ext, rule ext, rule ext) (simp add: Unpooling_def)

lemma Pooling_shape:
  assumes "Pooling st inp out = Inr m"
  shows "n_rows m = n_rows out" "n_cols m = n_cols out"
    "length (mem m) = n_rows out * n_cols out"
  using assms
  by (auto simp: Pooling_def length_cells_of split: sum.splits dest!: collect_length)

lemma Pooling_cong_output:
  fixes out out' :: mat
  assumes "n_rows out = n_rows out'" "n_cols out = n_cols out'"
  shows "Pooling st inp out = Pooling st inp out'"
proof -
  have "cells_of out = cells_of out'" using assms by (simp add: cells_of_def)
  moreover have "\<And>vs. out\<lparr>mem := vs\<rparr> = out'\<lparr>mem := vs\<rparr>" using assms by simp
  ultimately show ?thesis by (simp add: Pooling_def split: sum.splits)
qed

lemma Pooling_identity:
  fixes out :: mat
  assumes k: "kernelWidth st = 1" "kernelHeight st = 1" "strideWidth st = 1" "strideHeight st = 1"
    and dims: "n_rows out = n_rows inp" "n_cols out = n_cols inp"
    and wf: "wf_mat inp"
  shows "Pooling st inp out = Inr (out\<lparr>mem := mem inp\<rparr>)"
proof -
  have "\<And>c. c \<in> set (cells_of out) \<Longrightarrow>
      window_mean st inp c = Inr (mem inp ! (fst c + snd c * n_rows inp))"
  proof -
    fix c assume "c \<in> set (cells_of out)"
    then have "fst c < n_rows inp" "snd c < n_cols inp"
      using set_cells_of[of "fst c" "snd c" out] dims by simp_all
    from window_cells_unit[OF k this] show "window_mean st inp c = Inr (mem inp ! (fst c + snd c * n_rows inp))"
      by (simp add: window_mean_def mat_at_def)
  qed
  then have "collect (map (window_mean st inp) (cells_of out))
      = Inr (map (\<lambda>c. mem inp ! (fst c + snd c * n_rows inp)) (cells_of out))"
    by (rule collect_all_Inr)
  moreover have "map (\<lambda>c. mem inp ! (fst c + snd c * n_rows inp)) (cells_of out)
      = concat (map (\<lambda>j. map (\<lambda>i. mem inp ! (i + j * n_rows inp)) [0 ..< n_rows inp]) [0 ..< n_cols inp])"
    by (simp add: cells_of_def cells_def dims map_concat comp_def)
  moreover have "\<dots> = mem inp"
    using wf column_major_enum[of "n_rows inp" "n_cols inp" "mem inp"] by (simp add: wf_mat_def)
  ultimately show ?thesis by (simp add: Pooling_def)
qed

subsection \<open>The loop over the slices of Forward\<close>

lemma Forward_slices_run:
  fixes M :: "nat \<Rightarrow> real list"
  assumes "\<And>t. s \<le> t \<Longrightarrow> t < n_slices (inputTemp st) \<Longrightarrow>
      Pooling st (slice (inputTemp st) t)
        \<lparr>n_rows = n_rows (outputTemp st), n_cols = n_cols (outputTemp st), mem = []\<rparr>
      = Inr \<lparr>n_rows = n_rows (outputTemp st), n_cols = n_cols (outputTemp st), mem = M t\<rparr>"
    and "length (mem (outputTemp st)) =
           n_slices (inputTemp st) * (n_rows (outputTemp st) * n_cols (outputTemp st))"
    and "s \<le> n_slices (inputTemp st)"
    and "d = n_slices (inputTemp st) - s"
  shows "Forward_slices st s = Inr (st\<lparr>outputTemp := (outputTemp st)\<lparr>mem :=
           take (s * (n_rows (outputTemp st) * n_cols (outputTemp st))) (mem (outputTemp st)) @
           concat (map M [s ..< n_slices (inputTemp st)])\<rparr>\<rparr>)"
  using assms
proof (induction d arbitrary: s st)
  case 0
  then have s: "s = n_slices (inputTemp st)" by simp
  have "Forward_slices st s = Inr st"
    by (subst Forward_slices.simps) (simp add: s)
  moreover have "take (s * (n_rows (outputTemp st) * n_cols (outputTemp st))) (mem (outputTemp st))
      = mem (outputTemp st)"
    using "0.prems"(2) by (simp add: s)
  ultimately show ?case by (simp add: s)
next
  case (Suc d)
  define k where "k = n_rows (outputTemp st) * n_cols (outputTemp st)"
  define n where "n = n_slices (inputTemp st)"
  define ot where "ot = outputTemp st"
  from Suc.prems have lt: "s < n" by (simp add: n_def)
  have P: "Pooling st (slice (inputTemp st) s) (slice (outputTemp st) s)
      = Inr \<lparr>n_rows = n_rows (outputTemp st), n_cols = n_cols (outputTemp st), mem = M s\<rparr>"
    using Suc.prems(1)[of s] lt
      Pooling_cong_output[of "slice (outputTemp st) s"
        "\<lparr>n_rows = n_rows (outputTemp st), n_cols = n_cols (outputTemp st), mem = []\<rparr>" st
        "slice (inputTemp st) s"]
    by (simp add: n_def slice_def)
  have lenM: "length (M s) = k"
    using Pooling_shape(3)[OF P] by (simp add: k_def slice_def)
  define st1 where "st1 = st\<lparr>outputTemp := set_slice (outputTemp st) s
      \<lparr>n_rows = n_rows (outputTemp st), n_cols = n_cols (outputTemp st), mem = M s\<rparr>\<rparr>"
  have ot1: "n_rows (outputTemp st1) = n_rows (outputTemp st)"
    "n_cols (outputTemp st1) = n_cols (outputTemp st)"
    "inputTemp st1 = inputTemp st"
    "mem (outputTemp st1) = take (s * k) (mem ot) @ M s @ drop (Suc s * k) (mem ot)"
    by (simp_all add: st1_def set_slice_def k_def ot_def)
  have lenot: "length (mem ot) = n * k"
    using Suc.prems(2) by (simp add: n_def k_def ot_def)
  have sk: "Suc s * k \<le> n * k" using lt by (intro mult_le_mono1) simp
  then have sk': "s * k + k \<le> n * k" by simp
  have len1: "length (mem (outputTemp st1)) = n * k"
    using lenot lenM sk' by (simp add: ot1(4))
  have step: "Forward_slices st s = Forward_slices st1 (Suc s)"
    using lt P by (simp add: Forward_slices.simps[of st s] n_def st1_def)
  have IH0: "Forward_slices st1 (Suc s) = Inr (st1\<lparr>outputTemp := (outputTemp st1)\<lparr>mem :=
           take (Suc s * (n_rows (outputTemp st1) * n_cols (outputTemp st1))) (mem (outputTemp st1)) @
           concat (map M [Suc s ..< n_slices (inputTemp st1)])\<rparr>\<rparr>)"
  proof (rule Suc.IH)
    fix t assume "Suc s \<le> t" "t < n_slices (inputTemp st1)"
    then show "Pooling st1 (slice (inputTemp st1) t)
        \<lparr>n_rows = n_rows (outputTemp st1), n_cols = n_cols (outputTemp st1), mem = []\<rparr>
      = Inr \<lparr>n_rows = n_rows (outputTemp st1), n_cols = n_cols (outputTemp st1), mem = M t\<rparr>"
      using Suc.prems(1)[of t] by (simp add: ot1) (simp add: st1_def)
  next
    show "length (mem (outputTemp st1)) =
           n_slices (inputTemp st1) * (n_rows (outputTemp st1) * n_cols (outputTemp st1))"
      using len1 by (simp add: ot1 n_def k_def)
  next
    show "Suc s \<le> n_slices (inputTemp st1)" using lt by (simp add: ot1 n_def)
  next
    show "d = n_slices (inputTemp st1) - Suc s" using Suc.prems(4) by (simp add: ot1)
  qed
  have IH: "Forward_slices st1 (Suc s) = Inr (st1\<lparr>outputTemp := (outputTemp st1)\<lparr>mem :=
           take (Suc s * k) (mem (outputTemp st1)) @ concat (map M [Suc s ..< n])\<rparr>\<rparr>)"
    using IH0 unfolding ot1(1,2,3) k_def[symmetric] n_def[symmetric] .
  have lenA: "length (take (s * k) (mem ot)) = s * k" using lenot sk' by simp
  have tk: "take (Suc s * k) (mem (outputTemp st1)) = take (s * k) (mem ot) @ M s"
  proof -
    have "mem (outputTemp st1) = (take (s * k) (mem ot) @ M s) @ drop (Suc s * k) (mem ot)"
      by (simp add: ot1(4))
    moreover have "length (take (s * k) (mem ot) @ M s) = Suc s * k"
      using lenA lenM by simp
    ultimately show ?thesis by (metis append_eq_conv_conj)
  qed
  have upt: "[s ..< n] = s # [Suc s ..< n]" using lt by (simp add: upt_conv_Cons)
  have cc: "take (Suc s * k) (mem (outputTemp st1)) @ concat (map M [Suc s ..< n])
      = take (s * k) (mem ot) @ concat (map M [s ..< n])"
    by (simp only: tk upt) simp
  have upd: "\<And>X. st1\<lparr>outputTemp := (outputTemp st1)\<lparr>mem := X\<rparr>\<rparr>
      = st\<lparr>outputTemp := (outputTemp st)\<lparr>mem := X\<rparr>\<rparr>"
    by (simp add: st1_def set_slice_def)
  have "Forward_slices st s = Inr (st\<lparr>outputTemp := (outputTemp st)\<lparr>mem :=
           take (s * k) (mem ot) @ concat (map M [s ..< n])\<rparr>\<rparr>)"
    using step IH by (simp only: cc upd)
  then show ?case by (simp only: k_def n_def ot_def)
qed

subsection \<open>Unpooling, cell by cell\<close>

lemma index_inj:
  fixes x y x' y' r :: nat
  assumes "x < r" "x' < r" "x + y * r = x' + y' * r"
  shows "x = x' \<and> y = y'"
proof -
  have "(x + y * r) mod r = x" "(x' + y' * r) mod r = x'" using assms(1,2) by simp_all
  moreover have "(x + y * r) div r = y" "(x' + y' * r) div r = y'" using assms(1,2) by simp_all
  ultimately show ?thesis using assms(3) by metis
qed

lemma add_at_shape [simp]:
  "n_rows (add_at v m c) = n_rows m"
  "n_cols (add_at v m c) = n_cols m"
  "length (mem (add_at v m c)) = length (mem m)"
  by (simp_all add: add_at_def)

lemma foldl_add_at_shape [simp]:
  "n_rows (foldl (add_at v) out cs) = n_rows out"
  "n_cols (foldl (add_at v) out cs) = n_cols out"
  "length (mem (foldl (add_at v) out cs)) = length (mem out)"
  by (induction cs arbitrary: out) simp_all

lemma foldl_add_at_nth:
  assumes "distinct (map (\<lambda>c. fst c + snd c * n_rows out) cs)" and "p < length (mem out)"
  shows "mem (foldl (add_at v) out cs) ! p =
         mem out ! p + (if p \<in> (\<lambda>c. fst c + snd c * n_rows out) ` set cs then v else 0)"
  using assms
proof (induction cs arbitrary: out)
  case Nil
  then show ?case by simp
next
  case (Cons c cs)
  let ?out = "add_at v out c"
  have d: "distinct (map (\<lambda>c. fst c + snd c * n_rows ?out) cs)"
    using Cons.prems(1) by simp
  have p: "p < length (mem ?out)" using Cons.prems(2) by simp
  have notin: "fst c + snd c * n_rows out \<notin> (\<lambda>c. fst c + snd c * n_rows out) ` set cs"
    using Cons.prems(1) by auto
  have here: "mem ?out ! p = (if p = fst c + snd c * n_rows out then mem out ! p + v else mem out ! p)"
    using Cons.prems(2) by (auto simp: add_at_def nth_list_update)
  from Cons.IH[OF d p] have
    "mem (foldl (add_at v) ?out cs) ! p =
       mem ?out ! p + (if p \<in> (\<lambda>c. fst c + snd c * n_rows out) ` set cs then v else 0)"
    by simp
  with here notin show ?case by auto
qed

lemma distinct_window_index:
  assumes "n_rows inp = r"
  shows "distinct (map (\<lambda>c. fst c + snd c * r) (window_cells st inp i j))"
proof -
  have "inj_on (\<lambda>c. fst c + snd c * r) (set (window_cells st inp i j))"
  proof (rule inj_onI)
    fix a b
    assume a: "a \<in> set (window_cells st inp i j)" and b: "b \<in> set (window_cells st inp i j)"
      and e: "fst a + snd a * r = fst b + snd b * r"
    from a have "fst a < r" using set_window_cells[of "fst a" "snd a" st inp i j] assms by simp
    moreover from b have "fst b < r" using set_window_cells[of "fst b" "snd b" st inp i j] assms by simp
    ultimately show "a = b" using index_inj[OF _ _ e] by (simp add: prod_eq_iff)
  qed
  with distinct_window_cells show ?thesis by (simp add: distinct_map)
qed

lemma window_index_mem:
  assumes "n_rows inp = r" and "x < r"
  shows "x + y * r \<in> (\<lambda>c. fst c + snd c * r) ` set (window_cells st inp i j)
         \<longleftrightarrow> (x, y) \<in> set (window_cells st inp i j)"
proof
  assume "x + y * r \<in> (\<lambda>c. fst c + snd c * r) ` set (window_cells st inp i j)"
  then obtain c where c: "c \<in> set (window_cells st inp i j)" and e: "x + y * r = fst c + snd c * r"
    by auto
  from c have "fst c < r" using set_window_cells[of "fst c" "snd c" st inp i j] assms by simp
  with index_inj[OF assms(2) this e] c show "(x, y) \<in> set (window_cells st inp i j)"
    by simp
next
  assume "(x, y) \<in> set (window_cells st inp i j)"
  then show "x + y * r \<in> (\<lambda>c. fst c + snd c * r) ` set (window_cells st inp i j)"
    by force
qed

lemma Unpooling_window_shape [simp]:
  "n_rows (Unpooling_window st inp err out ij) = n_rows out"
  "n_cols (Unpooling_window st inp err out ij) = n_cols out"
  "length (mem (Unpooling_window st inp err out ij)) = length (mem out)"
  by (simp_all add: Unpooling_window_def Let_def)

lemma Unpooling_window_at:
  assumes "n_rows inp = n_rows out" and "x < n_rows out" and "x + y * n_rows out < length (mem out)"
  shows "mat_at (Unpooling_window st inp err out ij) x y =
         mat_at out x y + window_share st inp err x y ij"
proof -
  have d: "distinct (map (\<lambda>c. fst c + snd c * n_rows out) (window_cells st inp (fst ij) (snd ij)))"
    using assms(1) by (rule distinct_window_index)
  show ?thesis
    unfolding Unpooling_window_def Let_def mat_at_def window_share_def
    using foldl_add_at_nth[OF d assms(3)] window_index_mem[OF assms(1) assms(2)]
    by simp
qed

lemma foldl_Unpooling_window_shape [simp]:
  "n_rows (foldl (Unpooling_window st inp err) out ws) = n_rows out"
  "n_cols (foldl (Unpooling_window st inp err) out ws) = n_cols out"
  "length (mem (foldl (Unpooling_window st inp err) out ws)) = length (mem out)"
  by (induction ws arbitrary: out) simp_all

lemma foldl_Unpooling_window_at:
  assumes "n_rows inp = n_rows out" and "x < n_rows out" and "x + y * n_rows out < length (mem out)"
  shows "mat_at (foldl (Unpooling_window st inp err) out ws) x y =
         mat_at out x y + sum_list (map (window_share st inp err x y) ws)"
  using assms
proof (induction ws arbitrary: out)
  case Nil
  then show ?case by simp
next
  case (Cons w ws)
  let ?out = "Unpooling_window st inp err out w"
  have "mat_at (foldl (Unpooling_window st inp err) ?out ws) x y =
         mat_at ?out x y + sum_list (map (window_share st inp err x y) ws)"
    using Cons.prems by (intro Cons.IH) simp_all
  with Unpooling_window_at[OF Cons.prems, of st err w] show ?case by simp
qed

lemma Unpooling_shape [simp]:
  "n_rows (Unpooling st inp err out) = n_rows out"
  "n_cols (Unpooling st inp err out) = n_cols out"
  "length (mem (Unpooling st inp err out)) = length (mem out)"
  by (simp_all add: Unpooling_def)

lemma Unpooling_at:
  assumes "n_rows inp = n_rows out" and "x < n_rows out" and "x + y * n_rows out < length (mem out)"
  shows "mat_at (Unpooling st inp err out) x y =
         mat_at out x y + sum_list (map (window_share st inp err x y) (cells_of err))"
  unfolding Unpooling_def using assms by (rule foldl_Unpooling_window_at)

lemma sum_list_absent:
  "a \<notin> set xs \<Longrightarrow> sum_list (map (\<lambda>c. if a = c then f c else (0::real)) xs) = 0"
  by (induction xs) auto

lemma sum_list_single:
  "distinct xs \<Longrightarrow> a \<in> set xs \<Longrightarrow> sum_list (map (\<lambda>c. if a = c then f c else (0::real)) xs) = f a"
  by (induction xs) (auto simp: sum_list_absent)

lemma sum_list_cong: "(\<And>x. x \<in> set xs \<Longrightarrow> f x = g x) \<Longrightarrow> sum_list (map f xs) = sum_list (map g xs)"
  by (induction xs) simp_all

lemma Unpooling_identity:
  fixes out err :: mat
  assumes k: "kernelWidth st = 1" "kernelHeight st = 1" "strideWidth st = 1" "strideHeight st = 1"
    and dims: "n_rows inp = n_rows out" "n_cols inp = n_cols out"
      "n_rows err = n_rows out" "n_cols err = n_cols out"
    and zero: "mem out = replicate (n_rows out * n_cols out) 0"
    and wf: "wf_mat err"
  shows "Unpooling st inp err out = err"
proof -
  let ?U = "Unpooling st inp err out"
  let ?r = "n_rows out"
  have len: "length (mem ?U) = length (mem err)"
    using zero wf dims by (simp add: wf_mat_def)
  have "mem ?U ! p = mem err ! p" if p: "p < length (mem ?U)" for p
  proof -
    from p have plt: "p < ?r * n_cols out" using zero by simp
    then have rpos: "0 < ?r" by (cases "?r = 0") simp_all
    define x where "x = p mod ?r"
    define y where "y = p div ?r"
    have xy: "p = x + y * ?r" by (simp add: x_def y_def)
    have xlt: "x < ?r" using rpos by (simp add: x_def)
    have ylt: "y < n_cols out" using plt by (simp add: y_def less_mult_imp_div_less mult.commute)
    have pl: "x + y * ?r < length (mem out)" using p xy by simp
    have share: "window_share st inp err x y c = (if (x, y) = c then mat_at err (fst c) (snd c) else 0)"
      if "c \<in> set (cells_of err)" for c
    proof -
      from that have "fst c < n_rows inp" "snd c < n_cols inp"
        using set_cells_of[of "fst c" "snd c" err] dims by simp_all
      from window_cells_unit[OF k this] show ?thesis
        by (simp add: window_share_def prod_eq_iff)
    qed
    have inC: "(x, y) \<in> set (cells_of err)" using xlt ylt dims by (simp add: set_cells_of)
    have "mat_at ?U x y = mat_at out x y + sum_list (map (window_share st inp err x y) (cells_of err))"
      using dims(1) xlt pl by (rule Unpooling_at)
    also have "sum_list (map (window_share st inp err x y) (cells_of err))
        = sum_list (map (\<lambda>c. if (x, y) = c then mat_at err (fst c) (snd c) else 0) (cells_of err))"
      using share by (rule sum_list_cong)
    also have "\<dots> = mat_at err x y"
      using sum_list_single[OF distinct_cells_of inC, of "\<lambda>c. mat_at err (fst c) (snd c)"] by simp
    also have "mat_at out x y = 0" using zero pl by (simp add: mat_at_def)
    finally show ?thesis using xy dims by (simp add: mat_at_def)
  qed
  with len have "mem ?U = mem err" by (intro nth_equalityI) simp_all
  moreover have "n_rows ?U = n_rows err" "n_cols ?U = n_cols err" using dims by simp_all
  ultimately show ?thesis by simp
qed

subsection \<open>Writing one slice\<close>

lemma splice_block:
  fixes xs B :: "'a list"
  assumes "length B = k" and "s * k + k \<le> length xs"
  shows "length (take (s * k) xs @ B @ drop (Suc s * k) xs) = length xs"
    and "take (Suc s * k) (take (s * k) xs @ B @ drop (Suc s * k) xs) = take (s * k) xs @ B"
    and "Suc s \<le> m \<Longrightarrow> drop (m * k) (take (s * k) xs @ B @ drop (Suc s * k) xs) = drop (m * k) xs"
proof -
  let ?A = "take (s * k) xs"
  let ?C = "drop (Suc s * k) xs"
  have lenA: "length ?A = s * k" using assms(2) by simp
  have lenAB: "length (?A @ B) = Suc s * k" using lenA assms(1) by simp
  show "length (?A @ B @ ?C) = length xs" using lenA assms by simp
  have "?A @ B @ ?C = (?A @ B) @ ?C" by simp
  then show "take (Suc s * k) (?A @ B @ ?C) = ?A @ B"
    using lenAB by (metis append_eq_conv_conj)
  assume "Suc s \<le> m"
  then have "Suc s * k \<le> m * k" by (rule mult_le_mono1)
  then obtain e where e: "m * k = Suc s * k + e" using le_Suc_ex by blast
  have "drop (m * k) ((?A @ B) @ ?C) = drop e ?C"
    unfolding e using lenAB by (metis append_eq_conv_conj drop_drop add.commute)
  also have "\<dots> = drop (m * k) xs" unfolding e by (simp add: add.commute)
  finally show "drop (m * k) (?A @ B @ ?C) = drop (m * k) xs" by simp
qed

lemma slice_set_slice_above:
  assumes "s < t" and "length (mem m) = n_rows c * n_cols c"
    and "s * (n_rows c * n_cols c) + n_rows c * n_cols c \<le> length (mem c)"
  shows "slice (set_slice c s m) t = slice c t"
  using splice_block(3)[OF assms(2,3), of t] assms(1)
  by (simp add: slice_def set_slice_def)

lemma length_slice:
  "Suc t * (n_rows c * n_cols c) \<le> length (mem c) \<Longrightarrow>
     length (mem (slice c t)) = n_rows c * n_cols c"
  by (simp add: slice_def)

subsection \<open>The loop over the slices of Backward\<close>

lemma Backward_slices_run:
  assumes "n_slices E \<le> n_slices (inputTemp st)" and "n_slices E \<le> n_slices (gTemp st)"
    and "length (mem (gTemp st)) = n_slices (gTemp st) * (n_rows (gTemp st) * n_cols (gTemp st))"
    and "s \<le> n_slices E" and "d = n_slices E - s"
  shows "Backward_slices st E s = Inr (st\<lparr>gTemp := (gTemp st)\<lparr>mem :=
           take (s * (n_rows (gTemp st) * n_cols (gTemp st))) (mem (gTemp st)) @
           concat (map (\<lambda>t. mem (Unpooling st (slice (inputTemp st) t) (slice E t)
                                   (slice (gTemp st) t))) [s ..< n_slices E]) @
           drop (n_slices E * (n_rows (gTemp st) * n_cols (gTemp st))) (mem (gTemp st))\<rparr>\<rparr>)"
  using assms
proof (induction d arbitrary: s st)
  case 0
  then have s: "s = n_slices E" by simp
  have "Backward_slices st E s = Inr st"
    by (subst Backward_slices.simps) (simp add: s)
  then show ?case by (simp add: s)
next
  case (Suc d)
  define k where "k = n_rows (gTemp st) * n_cols (gTemp st)"
  define g where "g = gTemp st"
  define U where "U = (\<lambda>t. mem (Unpooling st (slice (inputTemp st) t) (slice E t) (slice g t)))"
  from Suc.prems have lt: "s < n_slices E" by simp
  have leng: "length (mem g) = n_slices g * k"
    using Suc.prems(3) by (simp add: g_def k_def)
  have "Suc s \<le> n_slices g" using lt Suc.prems(2) by (simp add: g_def)
  then have "Suc s * k \<le> n_slices g * k" by (rule mult_le_mono1)
  then have sk: "s * k + k \<le> length (mem g)" using leng by simp
  have lenU: "length (U s) = k"
    using sk by (simp add: U_def slice_def g_def k_def)
  define st1 where "st1 = st\<lparr>gTemp := set_slice g s
      (Unpooling st (slice (inputTemp st) s) (slice E s) (slice g s))\<rparr>"
  have g1: "n_rows (gTemp st1) = n_rows g" "n_cols (gTemp st1) = n_cols g"
    "n_slices (gTemp st1) = n_slices g" "inputTemp st1 = inputTemp st"
    "mem (gTemp st1) = take (s * k) (mem g) @ U s @ drop (Suc s * k) (mem g)"
    by (simp_all add: st1_def set_slice_def k_def g_def U_def)
  note sp = splice_block[OF lenU sk]
  have step: "Backward_slices st E s = Backward_slices st1 E (Suc s)"
    using lt Suc.prems(1,2)
    by (subst Backward_slices.simps) (simp add: st1_def g_def)
  have IH0: "Backward_slices st1 E (Suc s) = Inr (st1\<lparr>gTemp := (gTemp st1)\<lparr>mem :=
           take (Suc s * (n_rows (gTemp st1) * n_cols (gTemp st1))) (mem (gTemp st1)) @
           concat (map (\<lambda>t. mem (Unpooling st1 (slice (inputTemp st1) t) (slice E t)
                                   (slice (gTemp st1) t))) [Suc s ..< n_slices E]) @
           drop (n_slices E * (n_rows (gTemp st1) * n_cols (gTemp st1))) (mem (gTemp st1))\<rparr>\<rparr>)"
  proof (rule Suc.IH)
    show "n_slices E \<le> n_slices (inputTemp st1)" using Suc.prems(1) by (simp add: g1)
    show "n_slices E \<le> n_slices (gTemp st1)" using Suc.prems(2) by (simp add: g1 g_def)
    show "length (mem (gTemp st1)) =
        n_slices (gTemp st1) * (n_rows (gTemp st1) * n_cols (gTemp st1))"
      using sp(1) leng by (simp add: g1 k_def g_def)
    show "Suc s \<le> n_slices E" using lt by simp
    show "d = n_slices E - Suc s" using Suc.prems(5) by simp
  qed
  have same: "mem (Unpooling st1 (slice (inputTemp st1) t) (slice E t) (slice (gTemp st1) t)) = U t"
    if "t \<in> set [Suc s ..< n_slices E]" for t
  proof -
    from that have "s < t" by simp
    moreover have "length (mem (Unpooling st (slice (inputTemp st) s) (slice E s) (slice g s)))
        = n_rows g * n_cols g"
      using lenU by (simp add: U_def k_def g_def)
    moreover have "s * (n_rows g * n_cols g) + n_rows g * n_cols g \<le> length (mem g)"
      using sk by (simp add: k_def g_def)
    ultimately have "slice (gTemp st1) t = slice g t"
      unfolding st1_def by (simp add: slice_set_slice_above)
    then show ?thesis by (simp add: g1 U_def) (simp add: st1_def)
  qed
  have mapeq: "map (\<lambda>t. mem (Unpooling st1 (slice (inputTemp st1) t) (slice E t)
                                   (slice (gTemp st1) t))) [Suc s ..< n_slices E]
      = map U [Suc s ..< n_slices E]"
    using same by (rule map_cong[OF refl])
  have dr: "drop (n_slices E * k) (mem (gTemp st1)) = drop (n_slices E * k) (mem g)"
    using sp(3)[of "n_slices E"] lt by (simp add: g1)
  have tk: "take (Suc s * k) (mem (gTemp st1)) = take (s * k) (mem g) @ U s"
    using sp(2) by (simp add: g1)
  have upt: "[s ..< n_slices E] = s # [Suc s ..< n_slices E]" using lt by (simp add: upt_conv_Cons)
  have IH: "Backward_slices st1 E (Suc s) = Inr (st1\<lparr>gTemp := (gTemp st1)\<lparr>mem :=
           take (Suc s * k) (mem (gTemp st1)) @ concat (map U [Suc s ..< n_slices E]) @
           drop (n_slices E * k) (mem (gTemp st1))\<rparr>\<rparr>)"
    using IH0 unfolding mapeq g1(1,2) k_def[symmetric] g_def[symmetric]
    by (simp only: k_def g_def)
  have cc: "take (Suc s * k) (mem (gTemp st1)) @ concat (map U [Suc s ..< n_slices E]) @
           drop (n_slices E * k) (mem (gTemp st1))
      = take (s * k) (mem g) @ concat (map U [s ..< n_slices E]) @ drop (n_slices E * k) (mem g)"
    by (simp only: tk upt dr) simp
  have upd: "\<And>X. st1\<lparr>gTemp := (gTemp st1)\<lparr>mem := X\<rparr>\<rparr> = st\<lparr>gTemp := (gTemp st)\<lparr>mem := X\<rparr>\<rparr>"
    by (simp add: st1_def set_slice_def g_def)
  have "Backward_slices st E s = Inr (st\<lparr>gTemp := (gTemp st)\<lparr>mem :=
           take (s * k) (mem g) @ concat (map U [s ..< n_slices E]) @
           drop (n_slices E * k) (mem g)\<rparr>\<rparr>)"
    using step IH by (simp only: cc upd)
  then show ?case by (simp only: k_def g_def U_def)
qed

lemma output_size_unit: "output_size fl n 1 1 = Inr n"
  by (simp add: output_size_def to_size_t_def)

lemma slice_zeros_cube:
  "t < n \<Longrightarrow> slice (zeros_cube r c n) t = \<lparr>n_rows = r, n_cols = c, mem = replicate (r * c) 0\<rparr>"
proof -
  assume "t < n"
  then have "Suc t \<le> n" by simp
  then have "Suc t * (r * c) \<le> n * (r * c)" by (rule mult_le_mono1)
  then have "r * c \<le> r * c * n - t * (r * c)" by (simp add: mult.commute)
  then show ?thesis by (simp add: slice_def zeros_cube_def min_def)
qed

lemma MeanPooling_Backward_run:
  assumes "outputWidth st * outputHeight st * MeanPooling.outSize st \<le> length (mem gy)"
    and "MeanPooling.outSize st \<le> n_slices (inputTemp st)"
    and "batchSize st \<noteq> 0"
  defines "r \<equiv> n_rows (inputTemp st)" and "c \<equiv> n_cols (inputTemp st)"
    and "n \<equiv> n_slices (inputTemp st)"
  defines "E \<equiv> \<lparr>n_rows = outputWidth st, n_cols = outputHeight st,
                 mem = take (outputWidth st * outputHeight st * MeanPooling.outSize st) (mem gy),
                 n_slices = MeanPooling.outSize st\<rparr>"
  defines "G \<equiv> concat (map (\<lambda>t. mem (Unpooling st (slice (inputTemp st) t) (slice E t)
                 \<lparr>n_rows = r, n_cols = c, mem = replicate (r * c) 0\<rparr>))
                 [0 ..< MeanPooling.outSize st]) @
               drop (MeanPooling.outSize st * (r * c)) (replicate (r * c * n) 0)"
  shows "MeanPooling_Backward st input gy =
     Inr (st\<lparr>gTemp := \<lparr>n_rows = r, n_cols = c, mem = G, n_slices = n\<rparr>\<rparr>,
          \<lparr>n_rows = r * c * n div batchSize st, n_cols = batchSize st,
           mem = take (r * c * n div batchSize st * batchSize st) G\<rparr>)"
proof -
  define st1 where "st1 = st\<lparr>gTemp := zeros_cube r c n\<rparr>"
  have run: "Backward_slices st1 E 0 = Inr (st1\<lparr>gTemp := (gTemp st1)\<lparr>mem :=
           take (0 * (n_rows (gTemp st1) * n_cols (gTemp st1))) (mem (gTemp st1)) @
           concat (map (\<lambda>t. mem (Unpooling st1 (slice (inputTemp st1) t) (slice E t)
                                   (slice (gTemp st1) t))) [0 ..< n_slices E]) @
           drop (n_slices E * (n_rows (gTemp st1) * n_cols (gTemp st1))) (mem (gTemp st1))\<rparr>\<rparr>)"
  proof (rule Backward_slices_run)
    show "n_slices E \<le> n_slices (inputTemp st1)" using assms(2) by (simp add: E_def st1_def)
    show "n_slices E \<le> n_slices (gTemp st1)"
      using assms(2) by (simp add: E_def st1_def zeros_cube_def n_def)
    show "length (mem (gTemp st1)) =
        n_slices (gTemp st1) * (n_rows (gTemp st1) * n_cols (gTemp st1))"
      by (simp add: st1_def zeros_cube_def mult.commute)
    show "0 \<le> n_slices E" by simp
    show "n_slices E - 0 = n_slices E - 0" by simp
  qed
  have sl: "slice (gTemp st1) t = \<lparr>n_rows = r, n_cols = c, mem = replicate (r * c) 0\<rparr>"
    if "t \<in> set [0 ..< MeanPooling.outSize st]" for t
    using that assms(2) by (simp add: st1_def slice_zeros_cube n_def)
  have mapeq: "map (\<lambda>t. mem (Unpooling st1 (slice (inputTemp st1) t) (slice E t)
                                   (slice (gTemp st1) t))) [0 ..< MeanPooling.outSize st]
      = map (\<lambda>t. mem (Unpooling st (slice (inputTemp st) t) (slice E t)
                 \<lparr>n_rows = r, n_cols = c, mem = replicate (r * c) 0\<rparr>))
                 [0 ..< MeanPooling.outSize st]"
  proof (rule map_cong[OF refl])
    fix t assume "t \<in> set [0 ..< MeanPooling.outSize st]"
    from sl[OF this] show "mem (Unpooling st1 (slice (inputTemp st1) t) (slice E t)
                                   (slice (gTemp st1) t))
        = mem (Unpooling st (slice (inputTemp st) t) (slice E t)
                 \<lparr>n_rows = r, n_cols = c, mem = replicate (r * c) 0\<rparr>)"
      by (simp add: st1_def)
  qed
  have nE: "n_slices E = MeanPooling.outSize st" by (simp add: E_def)
  have g1: "n_rows (gTemp st1) = r" "n_cols (gTemp st1) = c"
    "mem (gTemp st1) = replicate (r * c * n) 0"
    by (simp_all add: st1_def zeros_cube_def)
  have run': "Backward_slices st1 E 0 = Inr (st1\<lparr>gTemp := (gTemp st1)\<lparr>mem := G\<rparr>\<rparr>)"
    using run unfolding nE mapeq g1 G_def by simp
  have fin: "st1\<lparr>gTemp := (gTemp st1)\<lparr>mem := G\<rparr>\<rparr>
      = st\<lparr>gTemp := \<lparr>n_rows = r, n_cols = c, mem = G, n_slices = n\<rparr>\<rparr>"
    by (simp add: st1_def zeros_cube_def)
  have "MeanPooling_Backward st input gy =
      (case Backward_slices st1 E 0 of Inl e \<Rightarrow> Inl e
       | Inr st2 \<Rightarrow> if batchSize st2 = 0 then Inl DivisionByZero
          else Inr (st2, \<lparr>n_rows = cube_n_elem (gTemp st2) div batchSize st2,
           n_cols = batchSize st2,
           mem = take (cube_n_elem (gTemp st2) div batchSize st2 * batchSize st2)
                   (mem (gTemp st2))\<rparr>))"
    using assms(1) unfolding MeanPooling_Backward_def Let_def st1_def E_def r_def c_def n_def
    by simp
  then show ?thesis
    unfolding run' fin using assms(3) by (simp add: cube_n_elem_def)
qed

lemma cell_index_bound:
  fixes i j r c :: nat
  assumes "i < r" "j < c"
  shows "i + j * r < r * c"
proof -
  have "i + j * r < r + j * r" using assms(1) by simp
  also have "\<dots> = Suc j * r" by simp
  also have "\<dots> \<le> c * r" using assms(2) by (intro mult_le_mono1) simp
  finally show ?thesis by (simp add: mult.commute)
qed

lemma mat_at_slice:
  assumes "i < n_rows C" "j < n_cols C" "s < n_slices C"
    and "n_rows C * n_cols C * n_slices C \<le> length (mem C)"
  shows "mat_at (slice C s) i j = mem C ! (i + j * n_rows C + s * (n_rows C * n_cols C))"
proof -
  let ?k = "n_rows C * n_cols C"
  have q: "i + j * n_rows C < ?k" using assms(1,2) by (rule cell_index_bound)
  have "Suc s \<le> n_slices C" using assms(3) by simp
  then have "Suc s * ?k \<le> n_slices C * ?k" by (rule mult_le_mono1)
  then have "s * ?k + ?k \<le> length (mem C)" using assms(4) by (simp add: mult.commute)
  with q show ?thesis by (simp add: mat_at_def slice_def add.commute)
qed

lemma MeanPooling_Backward_cells:
  assumes len: "outputWidth st * outputHeight st * MeanPooling.outSize st \<le> length (mem gy)"
    and sl: "MeanPooling.outSize st \<le> n_slices (inputTemp st)"
    and b: "batchSize st \<noteq> 0"
  shows "\<exists>st' g. MeanPooling_Backward st input gy = Inr (st', g) \<and>
     n_cols g = batchSize st \<and>
     (\<forall>s x y. s < MeanPooling.outSize st \<and> x < n_rows (inputTemp st) \<and>
        y < n_cols (inputTemp st) \<and>
        x + y * n_rows (inputTemp st) + s * (n_rows (inputTemp st) * n_cols (inputTemp st))
          < length (mem g) \<longrightarrow>
        mem g ! (x + y * n_rows (inputTemp st) +
                 s * (n_rows (inputTemp st) * n_cols (inputTemp st))) =
        sum_list (map (\<lambda>ij.
            if (x, y) \<in> set (window_cells st (slice (inputTemp st) s) (fst ij) (snd ij))
            then mem gy ! (fst ij + snd ij * outputWidth st +
                           s * (outputWidth st * outputHeight st)) /
                 real (length (window_cells st (slice (inputTemp st) s) (fst ij) (snd ij)))
            else 0)
          (cells (outputWidth st) (outputHeight st))))"
proof -
  define r where "r = n_rows (inputTemp st)"
  define c where "c = n_cols (inputTemp st)"
  define n where "n = n_slices (inputTemp st)"
  define N where "N = MeanPooling.outSize st"
  define ow where "ow = outputWidth st"
  define oh where "oh = outputHeight st"
  define E :: cube where "E = \<lparr>n_rows = ow, n_cols = oh,
                 mem = take (ow * oh * N) (mem gy), n_slices = N\<rparr>"
  define Z :: mat where "Z = \<lparr>n_rows = r, n_cols = c, mem = replicate (r * c) 0\<rparr>"
  define U where "U = (\<lambda>t. mem (Unpooling st (slice (inputTemp st) t) (slice E t) Z))"
  define G where "G = concat (map U [0 ..< N]) @ drop (N * (r * c)) (replicate (r * c * n) 0)"
  define g :: mat where "g = \<lparr>n_rows = r * c * n div batchSize st, n_cols = batchSize st,
           mem = take (r * c * n div batchSize st * batchSize st) G\<rparr>"
  have run: "MeanPooling_Backward st input gy =
     Inr (st\<lparr>gTemp := \<lparr>n_rows = r, n_cols = c, mem = G, n_slices = n\<rparr>\<rparr>, g)"
    using MeanPooling_Backward_run[OF len sl b, of input]
    unfolding g_def G_def U_def Z_def E_def r_def c_def n_def N_def ow_def oh_def .
  have lenU: "length (U t) = r * c" for t by (simp add: U_def Z_def)
  have lenC: "length (concat (map U [0 ..< N])) = N * (r * c)"
    using lenU by (simp add: length_concat_blocks)
  have cell: "mem g ! (x + y * r + s * (r * c)) =
        sum_list (map (\<lambda>ij.
            if (x, y) \<in> set (window_cells st (slice (inputTemp st) s) (fst ij) (snd ij))
            then mem gy ! (fst ij + snd ij * ow + s * (ow * oh)) /
                 real (length (window_cells st (slice (inputTemp st) s) (fst ij) (snd ij)))
            else 0) (cells ow oh))"
    if s: "s < N" and x: "x < r" and y: "y < c"
      and p: "x + y * r + s * (r * c) < length (mem g)" for s x y
  proof -
    let ?q = "x + y * r"
    let ?inp = "slice (inputTemp st) s"
    have q: "?q < r * c" using x y by (rule cell_index_bound)
    have "Suc s \<le> N" using s by simp
    then have "Suc s * (r * c) \<le> N * (r * c)" by (rule mult_le_mono1)
    with q have pC: "s * (r * c) + ?q < length (concat (map U [0 ..< N]))"
      using lenC by simp
    have "mem g ! (?q + s * (r * c)) = G ! (?q + s * (r * c))"
      using p by (simp add: g_def)
    also have "\<dots> = concat (map U [0 ..< N]) ! (s * (r * c) + ?q)"
      using pC by (simp add: G_def nth_append add.commute)
    also have "\<dots> = U s ! ?q"
      using lenU s q by (intro nth_concat_blocks) simp_all
    also have "\<dots> = mat_at (Unpooling st ?inp (slice E s) Z) x y"
      by (simp add: U_def mat_at_def Z_def)
    also have "\<dots> = mat_at Z x y +
        sum_list (map (window_share st ?inp (slice E s) x y) (cells_of (slice E s)))"
      using x q by (intro Unpooling_at) (simp_all add: Z_def slice_def r_def)
    also have "mat_at Z x y = 0" using q by (simp add: Z_def mat_at_def)
    also have "cells_of (slice E s) = cells ow oh" by (simp add: cells_of_def slice_def E_def)
    also have "sum_list (map (window_share st ?inp (slice E s) x y) (cells ow oh))
        = sum_list (map (\<lambda>ij.
            if (x, y) \<in> set (window_cells st ?inp (fst ij) (snd ij))
            then mem gy ! (fst ij + snd ij * ow + s * (ow * oh)) /
                 real (length (window_cells st ?inp (fst ij) (snd ij)))
            else 0) (cells ow oh))"
    proof (rule sum_list_cong)
      fix ij assume "ij \<in> set (cells ow oh)"
      then have ij: "fst ij < ow" "snd ij < oh"
        using set_cells_of[of "fst ij" "snd ij" "\<lparr>n_rows = ow, n_cols = oh, mem = []\<rparr>"]
        by (simp_all add: cells_of_def)
      have lenE: "n_rows E * n_cols E * n_slices E \<le> length (mem E)"
        using len by (simp add: E_def ow_def oh_def N_def)
      have "mat_at (slice E s) (fst ij) (snd ij) =
          mem E ! (fst ij + snd ij * ow + s * (ow * oh))"
        using mat_at_slice[of "fst ij" E "snd ij" s] ij s lenE by (simp add: E_def)
      moreover have "fst ij + snd ij * ow + s * (ow * oh) < ow * oh * N"
      proof -
        have "fst ij + snd ij * ow < ow * oh" using ij by (rule cell_index_bound)
        moreover have "Suc s * (ow * oh) \<le> N * (ow * oh)"
          using s by (intro mult_le_mono1) simp
        ultimately show ?thesis by (simp add: mult.commute)
      qed
      ultimately have "mat_at (slice E s) (fst ij) (snd ij) =
          mem gy ! (fst ij + snd ij * ow + s * (ow * oh))"
        by (simp add: E_def)
      then show "window_share st ?inp (slice E s) x y ij =
          (if (x, y) \<in> set (window_cells st ?inp (fst ij) (snd ij))
            then mem gy ! (fst ij + snd ij * ow + s * (ow * oh)) /
                 real (length (window_cells st ?inp (fst ij) (snd ij)))
            else 0)"
        by (simp add: window_share_def)
    qed
    finally show ?thesis by simp
  qed
  have "n_cols g = batchSize st" by (simp add: g_def)
  with run cell show ?thesis
    unfolding r_def c_def N_def ow_def oh_def by blast
qed

lemma output_size_unit_Suc: "output_size fl n (Suc 0) (Suc 0) = Inr n"
  using output_size_unit[of fl n] by simp

lemma MeanPooling_Forward_unit:
  assumes k: "kernelWidth st = 1" "kernelHeight st = 1" "strideWidth st = 1" "strideHeight st = 1"
    and wf: "wf_mat input"
    and pos: "0 < inputWidth st" "0 < inputHeight st" "0 < n_cols input"
    and fits: "inputWidth st * inputHeight st * n_cols input < 2 ^ 64"
    and dv: "inputWidth st * inputHeight st * n_cols input dvd n_elem input"
  defines "c \<equiv> n_elem input div (inputWidth st * inputHeight st * n_cols input)"
  defines "T \<equiv> \<lparr>n_rows = inputWidth st, n_cols = inputHeight st, mem = mem input,
                 n_slices = n_cols input * c\<rparr>"
  shows "MeanPooling_Forward st input =
     Inr (st\<lparr>batchSize := n_cols input, inSize := c, inputTemp := T,
             outputWidth := inputWidth st, outputHeight := inputHeight st,
             offset := (if floor_mode st then 0 else 1), outputTemp := T,
             MeanPooling.outSize := n_cols input * c\<rparr>, input)"
proof -
  define iw where "iw = inputWidth st"
  define ih where "ih = inputHeight st"
  define b where "b = n_cols input"
  define n where "n = b * c"
  have nz: "iw * ih * b \<noteq> 0" using pos by (simp add: iw_def ih_def b_def)
  have ne: "n_elem input = iw * ih * b * c"
    using dv by (simp add: c_def iw_def ih_def b_def)
  have len: "length (mem input) = iw * ih * (b * c)"
    using wf ne by (simp add: wf_mat_def n_elem_def mult.assoc)
  define st3 where "st3 = st\<lparr>batchSize := b, inSize := c, inputTemp := T\<rparr>"
  have le: "iw * ih \<le> iw * ih * b" using pos(3) by (simp add: b_def)
  have fits': "iw * ih * b < 2 ^ 64" using fits by (simp only: iw_def ih_def b_def)
  from le fits' have "iw * ih < 2 ^ 64" by (rule le_less_trans)
  then have "size_t_times iw ih = iw * ih" by (rule size_t_times_fits)
  moreover from fits' have "size_t_times (iw * ih) b = iw * ih * b" by (rule size_t_times_fits)
  ultimately have dv': "size_t_times (size_t_times iw ih) b = iw * ih * b" by simp
  have v: "Forward_view st input = Inr st3"
    unfolding Forward_view_def Let_def
    using nz len dv'
    by (simp add: st3_def T_def c_def iw_def ih_def b_def)
  define st5 where "st5 = st3\<lparr>outputWidth := iw, outputHeight := ih,
      offset := (if floor_mode st then 0 else 1), outputTemp := zeros_cube iw ih n\<rparr>"
  have o: "Forward_output_size st3 = Inr st5"
    using k by (simp add: Forward_output_size_def Let_def st3_def st5_def output_size_unit_Suc
        iw_def ih_def n_def)
  define M where "M = (\<lambda>t. take (iw * ih) (drop (t * (iw * ih)) (mem input)))"
  have it5: "inputTemp st5 = T" "n_rows (outputTemp st5) = iw" "n_cols (outputTemp st5) = ih"
    "mem (outputTemp st5) = replicate (iw * ih * n) 0"
    by (simp_all add: st5_def st3_def zeros_cube_def)
  have k5: "kernelWidth st5 = 1" "kernelHeight st5 = 1" "strideWidth st5 = 1" "strideHeight st5 = 1"
    using k by (simp_all add: st5_def st3_def)
  have l0: "Forward_slices st5 0 = Inr (st5\<lparr>outputTemp := (outputTemp st5)\<lparr>mem :=
           take (0 * (n_rows (outputTemp st5) * n_cols (outputTemp st5))) (mem (outputTemp st5)) @
           concat (map M [0 ..< n_slices (inputTemp st5)])\<rparr>\<rparr>)"
  proof (rule Forward_slices_run)
    fix t assume "0 \<le> t" and t: "t < n_slices (inputTemp st5)"
    then have "Suc t \<le> n" by (simp add: it5 T_def n_def b_def)
    then have "Suc t * (iw * ih) \<le> n * (iw * ih)" by (rule mult_le_mono1)
    then have "t * (iw * ih) + iw * ih \<le> length (mem input)"
      using len by (simp add: n_def mult.commute)
    then have wfs: "wf_mat (slice (inputTemp st5) t)"
      by (simp add: wf_mat_def slice_def it5 T_def iw_def ih_def)
    have "Pooling st5 (slice (inputTemp st5) t)
        \<lparr>n_rows = n_rows (outputTemp st5), n_cols = n_cols (outputTemp st5), mem = []\<rparr>
      = Inr (\<lparr>n_rows = n_rows (outputTemp st5), n_cols = n_cols (outputTemp st5), mem = []\<rparr>
              \<lparr>mem := mem (slice (inputTemp st5) t)\<rparr>)"
      using k5 _ _ wfs by (rule Pooling_identity) (simp_all add: it5 slice_def T_def iw_def ih_def)
    then show "Pooling st5 (slice (inputTemp st5) t)
        \<lparr>n_rows = n_rows (outputTemp st5), n_cols = n_cols (outputTemp st5), mem = []\<rparr>
      = Inr \<lparr>n_rows = n_rows (outputTemp st5), n_cols = n_cols (outputTemp st5), mem = M t\<rparr>"
      by (simp add: M_def slice_def it5 T_def iw_def ih_def)
  next
    show "length (mem (outputTemp st5)) =
           n_slices (inputTemp st5) * (n_rows (outputTemp st5) * n_cols (outputTemp st5))"
      by (simp add: it5 T_def n_def b_def mult.commute)
    show "0 \<le> n_slices (inputTemp st5)" by simp
    show "n_slices (inputTemp st5) - 0 = n_slices (inputTemp st5) - 0" by simp
  qed
  have "concat (map M [0 ..< n]) = take (n * (iw * ih)) (mem input)"
    unfolding M_def by (rule concat_take_drop_blocks)
  also have "\<dots> = mem input" using len by (simp add: n_def mult.commute)
  finally have cm: "concat (map M [0 ..< n]) = mem input" .
  have n5: "n_slices (inputTemp st5) = n" by (simp add: it5 T_def n_def b_def)
  define st6 where "st6 = st5\<lparr>outputTemp := (outputTemp st5)\<lparr>mem := mem input\<rparr>\<rparr>"
  have l: "Forward_slices st5 0 = Inr st6"
    using l0 unfolding n5 cm by (simp add: st6_def)
  have ot6: "outputTemp st6 = T"
    by (simp add: st6_def st5_def st3_def zeros_cube_def T_def iw_def ih_def n_def b_def)
  have b6: "batchSize st6 = b" "inSize st6 = c" by (simp_all add: st6_def st5_def st3_def)
  have rows: "n_rows input = iw * ih * c"
  proof -
    have "n_rows input * b = (iw * ih * c) * b"
      using ne by (simp add: n_elem_def b_def mult.assoc mult.commute mult.left_commute)
    then show ?thesis using pos(3) by (simp add: b_def)
  qed
  have cne: "cube_n_elem T = (iw * ih * c) * b"
    by (simp add: cube_n_elem_def T_def iw_def ih_def b_def mult.assoc mult.commute mult.left_commute)
  have bpos: "0 < b" using pos(3) by (simp add: b_def)
  have outeq: "\<lparr>n_rows = cube_n_elem T div b, n_cols = b,
       mem = take (cube_n_elem T div b * b) (mem T)\<rparr> = input"
  proof -
    have "cube_n_elem T div b = n_rows input" using cne rows bpos by simp
    moreover have "take (n_rows input * b) (mem T) = mem input"
      using wf by (simp add: T_def wf_mat_def b_def)
    ultimately show ?thesis by (simp add: b_def)
  qed
  have r: "Forward_output st6 =
     (st6\<lparr>outputWidth := iw, outputHeight := ih, MeanPooling.outSize := b * c\<rparr>, input)"
    unfolding Forward_output_def ot6 b6 outeq by (simp add: T_def iw_def ih_def)
  have fin: "st6\<lparr>outputWidth := iw, outputHeight := ih, MeanPooling.outSize := b * c\<rparr>
      = st\<lparr>batchSize := n_cols input, inSize := c, inputTemp := T,
             outputWidth := inputWidth st, outputHeight := inputHeight st,
             offset := (if floor_mode st then 0 else 1), outputTemp := T,
             MeanPooling.outSize := n_cols input * c\<rparr>"
    using ot6 by (simp add: st6_def st5_def st3_def iw_def ih_def b_def)
  show ?thesis
    by (simp only: MeanPooling_Forward_def v o l r fin sum.case)
qed

lemma MeanPooling_Backward_any_input:
  "MeanPooling_Backward st input1 gy = MeanPooling_Backward st input2 gy"
  unfolding MeanPooling_Backward_def ..

lemma MeanPooling_Backward_unit:
  assumes k: "kernelWidth st = 1" "kernelHeight st = 1" "strideWidth st = 1" "strideHeight st = 1"
    and cached: "outputWidth st = n_rows (inputTemp st)" "outputHeight st = n_cols (inputTemp st)"
      "MeanPooling.outSize st = n_slices (inputTemp st)"
    and b: "0 < batchSize st"
    and gy: "wf_mat gy" "n_cols gy = batchSize st"
      "n_rows gy * n_cols gy = n_rows (inputTemp st) * n_cols (inputTemp st) * n_slices (inputTemp st)"
  shows "\<exists>st'. MeanPooling_Backward st input gy = Inr (st', gy)"
proof -
  define r where "r = n_rows (inputTemp st)"
  define c where "c = n_cols (inputTemp st)"
  define n where "n = n_slices (inputTemp st)"
  define E :: cube where "E = \<lparr>n_rows = outputWidth st, n_cols = outputHeight st,
                 mem = take (outputWidth st * outputHeight st * MeanPooling.outSize st) (mem gy),
                 n_slices = MeanPooling.outSize st\<rparr>"
  define Z :: mat where "Z = \<lparr>n_rows = r, n_cols = c, mem = replicate (r * c) 0\<rparr>"
  define G where "G = concat (map (\<lambda>t. mem (Unpooling st (slice (inputTemp st) t) (slice E t) Z))
                 [0 ..< MeanPooling.outSize st]) @
               drop (MeanPooling.outSize st * (r * c)) (replicate (r * c * n) 0)"
  have len: "length (mem gy) = r * c * n"
    using gy by (simp add: wf_mat_def r_def c_def n_def)
  have run: "MeanPooling_Backward st input gy =
     Inr (st\<lparr>gTemp := \<lparr>n_rows = r, n_cols = c, mem = G, n_slices = n\<rparr>\<rparr>,
          \<lparr>n_rows = r * c * n div batchSize st, n_cols = batchSize st,
           mem = take (r * c * n div batchSize st * batchSize st) G\<rparr>)"
    unfolding G_def Z_def E_def r_def c_def n_def
  proof (rule MeanPooling_Backward_run)
    show "outputWidth st * outputHeight st * MeanPooling.outSize st \<le> length (mem gy)"
      using len by (simp add: cached r_def c_def n_def)
    show "MeanPooling.outSize st \<le> n_slices (inputTemp st)" by (simp add: cached)
    show "batchSize st \<noteq> 0" using b by simp
  qed
  have memE: "mem E = mem gy" using len by (simp add: E_def cached r_def c_def n_def)
  have dimE: "n_rows E = r" "n_cols E = c" by (simp_all add: E_def cached r_def c_def)
  have slE: "slice E t = \<lparr>n_rows = r, n_cols = c,
      mem = take (r * c) (drop (t * (r * c)) (mem gy))\<rparr>" for t
    unfolding slice_def dimE memE ..
  have U: "mem (Unpooling st (slice (inputTemp st) t) (slice E t) Z)
      = take (r * c) (drop (t * (r * c)) (mem gy))" if "t \<in> set [0 ..< n]" for t
  proof -
    from that have "Suc t \<le> n" by simp
    then have "Suc t * (r * c) \<le> n * (r * c)" by (rule mult_le_mono1)
    then have "t * (r * c) + r * c \<le> length (mem gy)" using len by (simp add: mult.commute)
    then have wfE: "wf_mat (slice E t)"
      by (simp add: wf_mat_def slE)
    have "Unpooling st (slice (inputTemp st) t) (slice E t) Z = slice E t"
      using k _ _ _ _ _ wfE
      by (rule Unpooling_identity) (simp_all add: Z_def slice_def dimE, simp_all add: r_def c_def)
    then show ?thesis by (simp add: slE)
  qed
  have meq: "map (\<lambda>t. mem (Unpooling st (slice (inputTemp st) t) (slice E t) Z)) [0 ..< n]
      = map (\<lambda>t. take (r * c) (drop (t * (r * c)) (mem gy))) [0 ..< n]"
    using U by (rule map_cong[OF refl])
  have "G = concat (map (\<lambda>t. take (r * c) (drop (t * (r * c)) (mem gy))) [0 ..< n]) @
      drop (n * (r * c)) (replicate (r * c * n) 0)"
    unfolding G_def cached(3) n_def[symmetric] meq ..
  also have "concat (map (\<lambda>t. take (r * c) (drop (t * (r * c)) (mem gy))) [0 ..< n])
      = take (n * (r * c)) (mem gy)"
    by (rule concat_take_drop_blocks)
  also have "drop (n * (r * c)) (replicate (r * c * n) (0::real)) = []"
    by (simp add: mult.commute)
  also have "take (n * (r * c)) (mem gy) = mem gy" using len by (simp add: mult.commute)
  finally have G: "G = mem gy" by simp
  have rows: "r * c * n div batchSize st = n_rows gy"
  proof -
    have "r * c * n = n_rows gy * batchSize st" using gy by (simp add: r_def c_def n_def)
    then show ?thesis using b by simp
  qed
  have "\<lparr>n_rows = r * c * n div batchSize st, n_cols = batchSize st,
           mem = take (r * c * n div batchSize st * batchSize st) G\<rparr> = gy"
    unfolding rows G using gy by (simp add: wf_mat_def)
  with run show ?thesis by simp
qed

subsection \<open>Kernel and stride of one\<close>

text \<open>
  C8, as the code has it: with kernel and stride 1 in both dimensions, \<open>Forward\<close>
  returns its input exactly for every well-formed input whose element count is a multiple
  of \<open>inputWidth * inputHeight * n_cols\<close>, the three of them positive and their
  product below \<open>2\<^sup>6\<^sup>4\<close>; and \<open>Backward\<close>, after that \<open>Forward\<close>,
  returns any well-formed output gradient of the shape of the output unchanged, whatever
  its input argument. (\<open>Pooling\<close> and \<open>Unpooling\<close> are modelled from the spec.)
\<close>

theorem MeanPooling_unit_kernel_identity:
  assumes "kernelWidth st = 1" and "kernelHeight st = 1"
    and "strideWidth st = 1" and "strideHeight st = 1"
    and "wf_mat input"
    and "0 < inputWidth st" and "0 < inputHeight st" and "0 < n_cols input"
    and "inputWidth st * inputHeight st * n_cols input < 2 ^ 64"
    and "inputWidth st * inputHeight st * n_cols input dvd n_elem input"
  shows "\<exists>st'. MeanPooling_Forward st input = Inr (st', input) \<and>
           (\<forall>gy anyInput. wf_mat gy \<and> n_rows gy = n_rows input \<and> n_cols gy = n_cols input \<longrightarrow>
              (\<exists>st''. MeanPooling_Backward st' anyInput gy = Inr (st'', gy)))"
proof -
  define c where "c = n_elem input div (inputWidth st * inputHeight st * n_cols input)"
  define T :: cube where "T = \<lparr>n_rows = inputWidth st, n_cols = inputHeight st, mem = mem input,
                 n_slices = n_cols input * c\<rparr>"
  define st' where "st' = st\<lparr>batchSize := n_cols input, inSize := c, inputTemp := T,
             outputWidth := inputWidth st, outputHeight := inputHeight st,
             offset := (if floor_mode st then 0 else 1), outputTemp := T,
             MeanPooling.outSize := n_cols input * c\<rparr>"
  have fwd: "MeanPooling_Forward st input = Inr (st', input)"
    unfolding st'_def T_def c_def using assms by (rule MeanPooling_Forward_unit)
  have ne: "n_elem input = inputWidth st * inputHeight st * n_cols input * c"
    using assms(10) by (simp add: c_def)
  have bwd: "\<exists>st''. MeanPooling_Backward st' anyInput gy = Inr (st'', gy)"
    if gy: "wf_mat gy \<and> n_rows gy = n_rows input \<and> n_cols gy = n_cols input" for gy anyInput
  proof (rule MeanPooling_Backward_unit)
    show "kernelWidth st' = 1" "kernelHeight st' = 1" "strideWidth st' = 1" "strideHeight st' = 1"
      using assms(1-4) by (simp_all add: st'_def)
    show "outputWidth st' = n_rows (inputTemp st')" "outputHeight st' = n_cols (inputTemp st')"
      "MeanPooling.outSize st' = n_slices (inputTemp st')"
      by (simp_all add: st'_def T_def)
    show "0 < batchSize st'" using assms(8) by (simp add: st'_def)
    show "wf_mat gy" using gy by simp
    show "n_cols gy = batchSize st'" using gy by (simp add: st'_def)
    show "n_rows gy * n_cols gy =
        n_rows (inputTemp st') * n_cols (inputTemp st') * n_slices (inputTemp st')"
      using gy ne by (simp add: st'_def T_def n_elem_def mult.assoc)
  qed
  from fwd bwd show ?thesis by blast
qed

text \<open>The theorem at the 2 \<times> 2 input, with an output gradient of sevens.\<close>

theorem MeanPooling_unit_kernel_identity_witness:
  "\<exists>st'. MeanPooling_Forward pool_unit input_2x2 = Inr (st', input_2x2) \<and>
      (\<exists>st''. MeanPooling_Backward st' input_5 (filled 4 1 7) = Inr (st'', filled 4 1 7))"
proof -
  have "\<exists>st'. MeanPooling_Forward pool_unit input_2x2 = Inr (st', input_2x2) \<and>
           (\<forall>gy anyInput. wf_mat gy \<and> n_rows gy = n_rows input_2x2 \<and>
                n_cols gy = n_cols input_2x2 \<longrightarrow>
              (\<exists>st''. MeanPooling_Backward st' anyInput gy = Inr (st'', gy)))"
    by (rule MeanPooling_unit_kernel_identity)
       (simp_all add: pool_unit_def MeanPooling_new_def input_2x2_def wf_mat_def n_elem_def)
  then obtain st' where f: "MeanPooling_Forward pool_unit input_2x2 = Inr (st', input_2x2)"
    and b: "\<And>gy anyInput. wf_mat gy \<and> n_rows gy = n_rows input_2x2 \<and>
                n_cols gy = n_cols input_2x2 \<Longrightarrow>
              (\<exists>st''. MeanPooling_Backward st' anyInput gy = Inr (st'', gy))"
    by blast
  have "wf_mat (filled 4 1 7) \<and> n_rows (filled 4 1 7) = n_rows input_2x2 \<and>
      n_cols (filled 4 1 7) = n_cols input_2x2"
    by (simp add: filled_def wf_mat_def input_2x2_def)
  from b[OF this] f show ?thesis by blast
qed

text \<open>
  The claim as stated fails in two ways. A layer for inputs of
  \<open>2\<^sup>3\<^sup>2 \<times> 2\<^sup>3\<^sup>2\<close> and an empty input of one column, whose element count 0 is a
  multiple of every product: the divisor \<open>inputWidth * inputHeight * batchSize\<close> wraps
  around to 0 and \<open>Forward\<close> divides by zero. And a column of five elements given to
  a layer for 2 \<times> 2 inputs, which the layer does not check: it comes back as its first
  four elements (\<open>inSize\<close> is an integer division and \<open>inputTemp\<close> shows four
  elements); likewise an output gradient of five elements after a \<open>Forward\<close> on four
  comes back as its first four.
\<close>

theorem MeanPooling_unit_kernel_counterexample:
  "kernelWidth pool_unit_wide = 1 \<and> kernelHeight pool_unit_wide = 1 \<and>
   strideWidth pool_unit_wide = 1 \<and> strideHeight pool_unit_wide = 1 \<and>
   wf_mat empty_column \<and> n_cols empty_column = 1 \<and>
   0 < inputWidth pool_unit_wide \<and> 0 < inputHeight pool_unit_wide \<and>
   inputWidth pool_unit_wide * inputHeight pool_unit_wide * n_cols empty_column
     dvd n_elem empty_column \<and>
   MeanPooling_Forward pool_unit_wide empty_column = Inl DivisionByZero \<and>
   kernelWidth pool_unit = 1 \<and> kernelHeight pool_unit = 1 \<and>
   strideWidth pool_unit = 1 \<and> strideHeight pool_unit = 1 \<and> wf_mat input_5 \<and>
   map_sum id snd (MeanPooling_Forward pool_unit input_5) = Inr input_2x2 \<and>
   input_2x2 \<noteq> input_5 \<and>
   (case MeanPooling_Forward pool_unit input_2x2 of
      Inl e \<Rightarrow> False
    | Inr (st', out) \<Rightarrow>
        map_sum id snd (MeanPooling_Backward st' input_2x2 input_5) = Inr input_2x2)"
proof -
  have wide: "kernelWidth pool_unit_wide = 1 \<and> kernelHeight pool_unit_wide = 1 \<and>
      strideWidth pool_unit_wide = 1 \<and> strideHeight pool_unit_wide = 1 \<and>
      wf_mat empty_column \<and> n_cols empty_column = 1 \<and>
      0 < inputWidth pool_unit_wide \<and> 0 < inputHeight pool_unit_wide \<and>
      inputWidth pool_unit_wide * inputHeight pool_unit_wide * n_cols empty_column
        dvd n_elem empty_column"
    by (simp add: pool_unit_wide_def MeanPooling_new_def empty_column_def wf_mat_def n_elem_def)
  have "size_t_times (size_t_times (2 ^ 32) (2 ^ 32)) 1 = 0"
    by (simp add: size_t_times_def)
  then have "Forward_view pool_unit_wide empty_column = Inl DivisionByZero"
    by (simp add: Forward_view_def Let_def pool_unit_wide_def empty_column_def)
  then have zero: "MeanPooling_Forward pool_unit_wide empty_column = Inl DivisionByZero"
    by (simp add: MeanPooling_Forward_def)
  have five: "kernelWidth pool_unit = 1 \<and> kernelHeight pool_unit = 1 \<and>
      strideWidth pool_unit = 1 \<and> strideHeight pool_unit = 1 \<and> wf_mat input_5 \<and>
      map_sum id snd (MeanPooling_Forward pool_unit input_5) = Inr input_2x2 \<and>
      input_2x2 \<noteq> input_5 \<and>
      (case MeanPooling_Forward pool_unit input_2x2 of
         Inl e \<Rightarrow> False
       | Inr (st', out) \<Rightarrow>
           map_sum id snd (MeanPooling_Backward st' input_2x2 input_5) = Inr input_2x2)"
    by code_simp
  from wide zero five show ?thesis by (intro conjI) (elim conjE, assumption)+
qed

subsection \<open>Backward is the adjoint of the averaging\<close>

lemma pool_overlap_cached_Forward: "MeanPooling_Forward ((MeanPooling_new 2 2 1 1 True)\<lparr>inputWidth := 3, inputHeight := 3\<rparr>)
   \<lparr>n_rows = 9, n_cols = 1, mem = map real [1 ..< 10]\<rparr> = Inr (pool_overlap_cached, \<lparr>n_rows = 4, n_cols = 1, mem = [3, 4, 6, 7]\<rparr>)"
  by code_simp

text \<open>
  C3: whenever the output gradient covers the cached output shape, \<open>Backward\<close>
  returns, and every cell \<open>(x, y)\<close> of slice \<open>s\<close> of the input gradient is the
  sum, over all windows \<open>(i, j)\<close> that cover the cell, of
  \<open>outputGrad(i, j)\<close> of that slice divided by the number of cells of the window:
  windows that overlap add up. For the 4 \<times> 4 input of ones with kernel 2 \<times> 2, stride
  2 \<times> 2 and floor mode, \<open>Forward\<close> gives the 2 \<times> 2 output of ones, and
  \<open>Backward\<close> on an output gradient of ones gives 1/4 everywhere.
  (\<open>Pooling\<close> and \<open>Unpooling\<close> are modelled from the spec.)
\<close>

theorem MeanPooling_Backward_adjoint:
  "(\<forall>st input gy.
      outputWidth st * outputHeight st * MeanPooling.outSize st \<le> length (mem gy) \<and>
      MeanPooling.outSize st \<le> n_slices (inputTemp st) \<and> batchSize st \<noteq> 0 \<longrightarrow>
      (\<exists>st' g. MeanPooling_Backward st input gy = Inr (st', g) \<and>
         n_cols g = batchSize st \<and>
         (\<forall>s x y. s < MeanPooling.outSize st \<and> x < n_rows (inputTemp st) \<and>
            y < n_cols (inputTemp st) \<and>
            x + y * n_rows (inputTemp st) + s * (n_rows (inputTemp st) * n_cols (inputTemp st))
              < length (mem g) \<longrightarrow>
            mem g ! (x + y * n_rows (inputTemp st) +
                     s * (n_rows (inputTemp st) * n_cols (inputTemp st))) =
            sum_list (map (\<lambda>ij.
                if (x, y) \<in> set (window_cells st (slice (inputTemp st) s) (fst ij) (snd ij))
                then mem gy ! (fst ij + snd ij * outputWidth st +
                               s * (outputWidth st * outputHeight st)) /
                     real (length (window_cells st (slice (inputTemp st) s) (fst ij) (snd ij)))
                else 0)
              (cells (outputWidth st) (outputHeight st)))))) \<and>
   MeanPooling_Forward pool_4x4 (filled 16 1 1) = Inr (pool_4x4_cached, filled 4 1 1) \<and>
   (\<forall>input. MeanPooling_Backward pool_4x4_cached input (filled 4 1 1) =
      Inr (pool_4x4_cached\<lparr>gTemp :=
             \<lparr>n_rows = 4, n_cols = 4, mem = replicate 16 (1 / 4), n_slices = 1\<rparr>\<rparr>,
           filled 16 1 (1 / 4)))"
proof (intro conjI allI impI)
  fix st :: MeanPooling and input gy :: mat
  assume "outputWidth st * outputHeight st * MeanPooling.outSize st \<le> length (mem gy) \<and>
      MeanPooling.outSize st \<le> n_slices (inputTemp st) \<and> batchSize st \<noteq> 0"
  then show "\<exists>st' g. MeanPooling_Backward st input gy = Inr (st', g) \<and>
         n_cols g = batchSize st \<and>
         (\<forall>s x y. s < MeanPooling.outSize st \<and> x < n_rows (inputTemp st) \<and>
            y < n_cols (inputTemp st) \<and>
            x + y * n_rows (inputTemp st) + s * (n_rows (inputTemp st) * n_cols (inputTemp st))
              < length (mem g) \<longrightarrow>
            mem g ! (x + y * n_rows (inputTemp st) +
                     s * (n_rows (inputTemp st) * n_cols (inputTemp st))) =
            sum_list (map (\<lambda>ij.
                if (x, y) \<in> set (window_cells st (slice (inputTemp st) s) (fst ij) (snd ij))
                then mem gy ! (fst ij + snd ij * outputWidth st +
                               s * (outputWidth st * outputHeight st)) /
                     real (length (window_cells st (slice (inputTemp st) s) (fst ij) (snd ij)))
                else 0)
              (cells (outputWidth st) (outputHeight st))))"
    using MeanPooling_Backward_cells[of st gy input] by blast
next
  show "MeanPooling_Forward pool_4x4 (filled 16 1 1) = Inr (pool_4x4_cached, filled 4 1 1)"
    by code_simp
next
  fix input
  have "MeanPooling_Backward pool_4x4_cached (filled 0 0 0) (filled 4 1 1) =
      Inr (pool_4x4_cached\<lparr>gTemp :=
             \<lparr>n_rows = 4, n_cols = 4, mem = replicate 16 (1 / 4), n_slices = 1\<rparr>\<rparr>,
           filled 16 1 (1 / 4))"
    by code_simp
  then show "MeanPooling_Backward pool_4x4_cached input (filled 4 1 1) =
      Inr (pool_4x4_cached\<lparr>gTemp :=
             \<lparr>n_rows = 4, n_cols = 4, mem = replicate 16 (1 / 4), n_slices = 1\<rparr>\<rparr>,
           filled 16 1 (1 / 4))"
    using MeanPooling_Backward_any_input[of pool_4x4_cached input "filled 4 1 1" "filled 0 0 0"]
    by simp
qed

text \<open>
  The theorem at overlapping windows (kernel 2 \<times> 2, stride 1 \<times> 1, a 3 \<times> 3 input) with
  an output gradient of ones: a corner lies in one window and gets 1/4, an edge cell lies
  in two and gets 1/2, the centre lies in all four and gets 1.
\<close>

theorem MeanPooling_Backward_adjoint_witness:
  "outputWidth pool_overlap_cached * outputHeight pool_overlap_cached *
     MeanPooling.outSize pool_overlap_cached \<le> length (mem (filled 4 1 1)) \<and>
   MeanPooling.outSize pool_overlap_cached \<le> n_slices (inputTemp pool_overlap_cached) \<and>
   batchSize pool_overlap_cached \<noteq> 0 \<and>
   (\<exists>st' g. MeanPooling_Backward pool_overlap_cached (filled 0 0 0) (filled 4 1 1) = Inr (st', g) \<and>
      mem g ! 0 = 1 / 4 \<and> mem g ! 1 = 1 / 2 \<and> mem g ! 4 = 1)"
proof -
  have h: "outputWidth pool_overlap_cached * outputHeight pool_overlap_cached *
     MeanPooling.outSize pool_overlap_cached \<le> length (mem (filled 4 1 1)) \<and>
   MeanPooling.outSize pool_overlap_cached \<le> n_slices (inputTemp pool_overlap_cached) \<and>
   batchSize pool_overlap_cached \<noteq> 0"
    by (simp add: pool_overlap_cached_def MeanPooling_new_def filled_def)
  let ?st = pool_overlap_cached
  let ?gy = "filled 4 1 1"
  let ?sum = "\<lambda>s x y. sum_list (map (\<lambda>ij.
                if (x, y) \<in> set (window_cells ?st (slice (inputTemp ?st) s) (fst ij) (snd ij))
                then mem ?gy ! (fst ij + snd ij * outputWidth ?st +
                               s * (outputWidth ?st * outputHeight ?st)) /
                     real (length (window_cells ?st (slice (inputTemp ?st) s) (fst ij) (snd ij)))
                else 0)
              (cells (outputWidth ?st) (outputHeight ?st)))"
  from MeanPooling_Backward_adjoint h
  obtain st' g where run: "MeanPooling_Backward ?st (filled 0 0 0) ?gy = Inr (st', g)"
    and cell: "\<And>s x y. s < MeanPooling.outSize ?st \<and> x < n_rows (inputTemp ?st) \<and>
            y < n_cols (inputTemp ?st) \<and>
            x + y * n_rows (inputTemp ?st) + s * (n_rows (inputTemp ?st) * n_cols (inputTemp ?st))
              < length (mem g) \<Longrightarrow>
            mem g ! (x + y * n_rows (inputTemp ?st) +
                     s * (n_rows (inputTemp ?st) * n_cols (inputTemp ?st))) = ?sum s x y"
    by blast
  have "length (mem (snd (projr (MeanPooling_Backward ?st (filled 0 0 0) ?gy)))) = 9"
    by code_simp
  with run have len: "length (mem g) = 9" by simp
  have d: "MeanPooling.outSize ?st = 1" "n_rows (inputTemp ?st) = 3" "n_cols (inputTemp ?st) = 3"
    by (simp_all add: pool_overlap_cached_def MeanPooling_new_def)
  have "mem g ! (0 + 0 * n_rows (inputTemp ?st) +
                     0 * (n_rows (inputTemp ?st) * n_cols (inputTemp ?st))) = ?sum 0 0 0"
    by (rule cell) (simp add: d len)
  moreover have "?sum 0 0 0 = 1 / 4" by code_simp
  ultimately have g0: "mem g ! 0 = 1 / 4" by simp
  have "mem g ! (1 + 0 * n_rows (inputTemp ?st) +
                     0 * (n_rows (inputTemp ?st) * n_cols (inputTemp ?st))) = ?sum 0 1 0"
    by (rule cell) (simp add: d len)
  moreover have "?sum 0 1 0 = 1 / 2" by code_simp
  ultimately have g1: "mem g ! 1 = 1 / 2" by simp
  have "mem g ! (1 + 1 * n_rows (inputTemp ?st) +
                     0 * (n_rows (inputTemp ?st) * n_cols (inputTemp ?st))) = ?sum 0 1 1"
    by (rule cell) (simp add: d len)
  moreover have "?sum 0 1 1 = 1" by code_simp
  ultimately have g4: "mem g ! 4 = 1" by (simp add: d)
  from h run g0 g1 g4 show ?thesis by blast
qed

section \<open>Properties of the recurrent attention layer\<close>

subsection \<open>The loop of Forward\<close>

lemma ForwardLoop_trace:
  assumes "ForwardLoop rops aops input st = Inr st'" and "forwardStep st \<le> rho st"
  shows "\<exists>steps. length steps = rho st - forwardStep st \<and>
     calls st' = calls st @ forward_calls
       (if forwardStep st = 0 then initialInput st else OutputParameter (rnnModule st)) steps \<and>
     (\<forall>s \<in> set steps. glimpseInput input (fst s) = Inr (fst (snd s))) \<and>
     initialInput st' = initialInput st \<and> deterministic st' = deterministic st \<and>
     rho st' = rho st \<and> outSize st' = outSize st \<and> forwardStep st' = rho st \<and>
     backwardStep st' = backwardStep st \<and>
     OutputParameter (rnnModule st') =
       (if steps = [] then OutputParameter (rnnModule st) else snd (snd (last steps)))"
  using assms
proof (induction rops aops input st rule: ForwardLoop.induct)
  case (1 rops aops input st)
  show ?case
  proof (cases "forwardStep st < rho st")
    case False
    with "1.prems" have "st' = st" "rho st - forwardStep st = 0"
      by (simp_all add: ForwardLoop.simps[of rops aops input st])
    then show ?thesis using "1.prems"(2) False
      by (intro exI[of _ "[]"]) simp
  next
    case True
    with "1.prems"(1) obtain st1 where s1: "ForwardStep rops aops input st = Inr st1"
      and l1: "ForwardLoop rops aops input (st1\<lparr>forwardStep := forwardStep st1 + 1\<rparr>) = Inr st'"
      by (cases "ForwardStep rops aops input st")
         (auto simp: ForwardLoop.simps[of rops aops input st])
    let ?ain = "if forwardStep st = 0 then initialInput st else OutputParameter (rnnModule st)"
    from s1 obtain a aout gl r rout where
      a: "Forward_op aops (actionModule st) ?ain = Inr (a, aout)"
      and gl: "glimpseInput input aout = Inr gl"
      and r: "Forward_op rops (rnnModule st) gl = Inr (r, rout)"
      and st1: "st1 = st\<lparr>actionModule := a\<lparr>OutputParameter := aout\<rparr>,
                  rnnModule := r\<lparr>OutputParameter := rout\<rparr>,
                  calls := calls st @ [ForwardCall ActionModule ?ain aout,
                     ForwardCall RnnModule gl rout],
                  moduleOutputParameter := moduleOutputParameter st1\<rparr>"
      by (rule ForwardStep_Inr)
    have g1: "forwardStep st1 = forwardStep st" "rho st1 = rho st"
      "initialInput st1 = initialInput st" "deterministic st1 = deterministic st"
      "outSize st1 = outSize st" "backwardStep st1 = backwardStep st"
      "OutputParameter (rnnModule st1) = rout"
      "calls st1 = calls st @ [ForwardCall ActionModule ?ain aout, ForwardCall RnnModule gl rout]"
      by (subst st1, simp)+
    define st2 where "st2 = st1\<lparr>forwardStep := forwardStep st1 + 1\<rparr>"
    have f2: "forwardStep st2 = Suc (forwardStep st)" "rho st2 = rho st"
      "initialInput st2 = initialInput st" "deterministic st2 = deterministic st"
      "outSize st2 = outSize st" "backwardStep st2 = backwardStep st"
      "OutputParameter (rnnModule st2) = rout"
      "calls st2 = calls st @ [ForwardCall ActionModule ?ain aout, ForwardCall RnnModule gl rout]"
      by (simp_all add: st2_def g1)
    have le2: "forwardStep st2 \<le> rho st2" using True by (simp add: f2)
    from "1.IH"[OF True s1 l1[folded st2_def, unfolded st2_def] le2[unfolded st2_def]]
    obtain steps where len: "length steps = rho st2 - forwardStep st2"
      and c: "calls st' = calls st2 @ forward_calls
         (if forwardStep st2 = 0 then initialInput st2 else OutputParameter (rnnModule st2)) steps"
      and g: "\<forall>s \<in> set steps. glimpseInput input (fst s) = Inr (fst (snd s))"
      and rest: "initialInput st' = initialInput st2" "deterministic st' = deterministic st2"
        "rho st' = rho st2" "outSize st' = outSize st2" "forwardStep st' = rho st2"
        "backwardStep st' = backwardStep st2"
        "OutputParameter (rnnModule st') =
           (if steps = [] then OutputParameter (rnnModule st2) else snd (snd (last steps)))"
      unfolding st2_def by blast
    let ?steps = "(aout, gl, rout) # steps"
    have "length ?steps = rho st - forwardStep st" using len True by (simp add: f2)
    moreover have "calls st' = calls st @ forward_calls ?ain ?steps"
      using c by (simp add: f2)
    moreover have "\<forall>s \<in> set ?steps. glimpseInput input (fst s) = Inr (fst (snd s))"
      using g gl by simp
    moreover have "OutputParameter (rnnModule st') =
       (if ?steps = [] then OutputParameter (rnnModule st) else snd (snd (last ?steps)))"
      using rest(7) by (simp add: f2)
    ultimately show ?thesis using rest(1-6) unfolding f2 by blast
  qed
qed

subsection \<open>The glimpse input\<close>

lemma glimpseInput_Inr:
  assumes "glimpseInput input aout = Inr gl"
  shows "n_rows gl = n_elem input" and "n_cols gl = 2"
    and "n_cols input = 1" and "n_cols aout = 1"
    and "0 < n_elem aout" and "n_elem aout \<le> n_elem input"
    and "\<And>i. i < n_elem input \<Longrightarrow> mat_at gl i 0 = mem input ! i"
    and "\<And>i. i < n_elem input \<Longrightarrow>
           mat_at gl i 1 = (if i < n_elem aout then mem aout ! i else 0)"
proof -
  define n where "n = n_elem input"
  define m where "m = n_elem aout"
  from assms obtain g0 where g0: "assign_col (zeros n 2) 0 input = Inr g0"
    and gl: "assign_submat g0 0 1 (size_t_minus m 1) 1 aout = Inr gl"
    by (cases "assign_col (zeros n 2) 0 input") (auto simp: glimpseInput_def n_def m_def)
  from g0 have inp: "n_rows input = n" "n_cols input = 1"
    and g0eq: "g0 = \<lparr>n_rows = n, n_cols = 2, mem = map (\<lambda>p.
          if p div n = 0 then mat_at input (p mod n) 0 else replicate (n * 2) 0 ! p)
          [0 ..< n * 2]\<rparr>"
    by (auto simp: assign_col_def zeros_def split: if_splits)
  have g0s: "n_rows g0 = n" "n_cols g0 = 2" "length (mem g0) = n * 2"
    by (simp_all add: g0eq)
  from gl have bnd: "size_t_minus m 1 < n"
    and dims: "n_rows aout = size_t_minus m 1 + 1" "n_cols aout = 1"
    and gleq: "gl = g0\<lparr>mem := map (\<lambda>p.
          if 0 \<le> p mod n \<and> p mod n \<le> size_t_minus m 1 \<and> 1 \<le> p div n \<and> p div n \<le> 1
          then mat_at aout (p mod n - 0) (p div n - 1)
          else mem g0 ! p) [0 ..< n * 2]\<rparr>"
    by (auto simp: assign_submat_def g0s split: if_splits)
  have mpos: "0 < m"
  proof (rule ccontr)
    assume "\<not> 0 < m"
    then have "m = 0" by simp
    then have "n_rows aout = 2 ^ 64" using dims(1) by (simp add: size_t_minus_def)
    with dims(2) \<open>m = 0\<close> show False by (simp add: m_def n_elem_def)
  qed
  then have r2: "size_t_minus m 1 = m - 1" by (simp add: size_t_minus_def)
  then have r2': "size_t_minus m (Suc 0) = m - 1" by simp
  show "n_rows gl = n_elem input" by (simp add: gleq g0s n_def)
  show "n_cols gl = 2" by (simp add: gleq g0s)
  show "n_cols input = 1" by (rule inp(2))
  show "n_cols aout = 1" by (rule dims(2))
  show "0 < n_elem aout" using mpos by (simp add: m_def)
  from bnd have "m - 1 < n" unfolding r2 .
  with mpos have mle: "m \<le> n" by simp
  then show "n_elem aout \<le> n_elem input" by (simp add: m_def n_def)
  {
    fix i assume i: "i < n_elem input"
    then have i': "i < n" by (simp add: n_def)
    then have "mem gl ! i = mem g0 ! i" by (simp add: gleq)
    also have "\<dots> = mat_at input i 0" using i' by (simp add: g0eq)
    also have "\<dots> = mem input ! i" by (simp add: mat_at_def)
    finally show "mat_at gl i 0 = mem input ! i" by (simp add: mat_at_def)
  }
  {
    fix i assume i: "i < n_elem input"
    then have i': "i < n" by (simp add: n_def)
    have dv: "(i + n) div n = 1" "(i + n) mod n = i" using i' by simp_all
    have lt: "i + n < n * 2" using i' by simp
    have "mat_at gl i 1 = mem gl ! (i + n)" by (simp add: mat_at_def gleq g0s)
    also have "\<dots> = (if i \<le> m - 1 then mat_at aout i 0 else mem g0 ! (i + n))"
      using lt by (simp add: gleq dv r2')
    also have "mem g0 ! (i + n) = 0" using lt by (simp add: g0eq dv)
    also have "mat_at aout i 0 = mem aout ! i" by (simp add: mat_at_def)
    finally show "mat_at gl i 1 = (if i < n_elem aout then mem aout ! i else 0)"
      using mpos by (auto simp: m_def)
  }
qed

subsection \<open>Reading the calls of Forward\<close>

lemma length_forward_reads [simp]:
  "length (action_inputs (forward_calls prev steps)) = length steps"
  "length (action_outputs (forward_calls prev steps)) = length steps"
  "length (rnn_inputs (forward_calls prev steps)) = length steps"
  "length (rnn_outputs (forward_calls prev steps)) = length steps"
  by (induction prev steps rule: forward_calls.induct)
     (simp_all add: action_inputs_def action_outputs_def rnn_inputs_def rnn_outputs_def)

lemma forward_reads:
  "action_outputs (forward_calls prev steps) = map fst steps"
  "rnn_inputs (forward_calls prev steps) = map (\<lambda>s. fst (snd s)) steps"
  "rnn_outputs (forward_calls prev steps) = map (\<lambda>s. snd (snd s)) steps"
  by (induction prev steps rule: forward_calls.induct)
     (simp_all add: action_outputs_def rnn_inputs_def rnn_outputs_def)

lemma action_inputs_step:
  "action_inputs (ForwardCall ActionModule prev aout # ForwardCall RnnModule gl rout # evs)
     = prev # action_inputs evs"
  by (simp add: action_inputs_def)

lemma action_inputs_forward_calls:
  "t < length steps \<Longrightarrow>
     action_inputs (forward_calls prev steps) ! t =
       (if t = 0 then prev else snd (snd (steps ! (t - 1))))"
proof (induction prev steps arbitrary: t rule: forward_calls.induct)
  case (1 prev)
  then show ?case by simp
next
  case (2 prev aout gl rout steps)
  have unf: "action_inputs (forward_calls prev ((aout, gl, rout) # steps))
      = prev # action_inputs (forward_calls rout steps)"
    by (simp add: action_inputs_step)
  show ?case
  proof (cases t)
    case 0
    then show ?thesis by (simp only: unf) simp
  next
    case (Suc t')
    with "2.prems" have "t' < length steps" by simp
    from "2.IH"[OF this] Suc show ?thesis by (cases t') (simp_all only: unf, simp_all)
  qed
qed

subsection \<open>Forward as a whole\<close>

lemma InitializeActionInput_fields [simp]:
  "calls (InitializeActionInput input st) = calls st"
  "rho (InitializeActionInput input st) = rho st"
  "outSize (InitializeActionInput input st) = outSize st"
  "deterministic (InitializeActionInput input st) = deterministic st"
  "moduleOutputParameter (InitializeActionInput input st) = moduleOutputParameter st"
  "rnnModule (InitializeActionInput input st) = rnnModule st"
  "initialInput (InitializeActionInput input st) =
     (if is_empty (initialInput st) then zeros (outSize st) (n_cols input) else initialInput st)"
  by (simp_all add: InitializeActionInput_def)

lemma RecurrentAttention_Forward_trace:
  assumes "RecurrentAttention_Forward rops aops st input = Inr (st', out)"
  shows "\<exists>steps. length steps = rho st \<and>
     calls st' = calls st @ forward_calls (initialInput st') steps \<and>
     (\<forall>s \<in> set steps. glimpseInput input (fst s) = Inr (fst (snd s))) \<and>
     initialInput st' =
       (if is_empty (initialInput st) then zeros (outSize st) (n_cols input)
        else initialInput st) \<and>
     deterministic st' = deterministic st \<and> rho st' = rho st \<and> outSize st' = outSize st \<and>
     forwardStep st' = 0 \<and> backwardStep st' = 0 \<and>
     out = OutputParameter (rnnModule st') \<and>
     out = (if steps = [] then OutputParameter (rnnModule st) else snd (snd (last steps)))"
proof -
  define st0 where "st0 = (InitializeActionInput input st)\<lparr>forwardStep := 0\<rparr>"
  from assms obtain st1 where l: "ForwardLoop rops aops input st0 = Inr st1"
    and st': "st' = st1\<lparr>forwardStep := 0, backwardStep := 0\<rparr>"
    and out: "out = OutputParameter (rnnModule st1)"
    by (cases "ForwardLoop rops aops input st0")
       (auto simp: RecurrentAttention_Forward_def st0_def)
  have f0: "forwardStep st0 = 0" "calls st0 = calls st" "rho st0 = rho st"
    "outSize st0 = outSize st" "deterministic st0 = deterministic st"
    "moduleOutputParameter st0 = moduleOutputParameter st" "rnnModule st0 = rnnModule st"
    "initialInput st0 =
       (if is_empty (initialInput st) then zeros (outSize st) (n_cols input) else initialInput st)"
    by (simp_all add: st0_def)
  have "forwardStep st0 \<le> rho st0" by (simp add: f0)
  from ForwardLoop_trace[OF l this] obtain steps where
    s: "length steps = rho st0 - forwardStep st0"
      "calls st1 = calls st0 @ forward_calls
       (if forwardStep st0 = 0 then initialInput st0 else OutputParameter (rnnModule st0)) steps"
      "\<forall>s \<in> set steps. glimpseInput input (fst s) = Inr (fst (snd s))"
      "initialInput st1 = initialInput st0" "deterministic st1 = deterministic st0"
      "rho st1 = rho st0" "outSize st1 = outSize st0"
      "OutputParameter (rnnModule st1) =
       (if steps = [] then OutputParameter (rnnModule st0) else snd (snd (last steps)))"
    by blast
  have i': "initialInput st' = initialInput st0" using s(4) by (simp add: st')
  have "length steps = rho st" using s(1) by (simp add: f0)
  moreover have "calls st' = calls st @ forward_calls (initialInput st') steps"
    using s(2) by (simp add: st' f0(1,2) s(4))
  moreover have "initialInput st' =
       (if is_empty (initialInput st) then zeros (outSize st) (n_cols input)
        else initialInput st)"
    using i' by (simp only: f0(8))
  moreover have "deterministic st' = deterministic st" "rho st' = rho st"
    "outSize st' = outSize st" "forwardStep st' = 0" "backwardStep st' = 0"
    using s(5,6,7) by (simp_all add: st' f0)
  moreover have "out = OutputParameter (rnnModule st')" using out by (simp add: st')
  moreover have "out = (if steps = [] then OutputParameter (rnnModule st)
      else snd (snd (last steps)))"
    using out s(8) by (simp add: f0)
  ultimately show ?thesis using s(3) by blast
qed

subsection \<open>One iteration of Backward\<close>

lemma IntermediateGradient_Inr:
  assumes "IntermediateGradient ig st = Inr st'"
  shows "calls st' = calls st" "moduleOutputParameter st' = moduleOutputParameter st"
    "actionDelta st' = actionDelta st" "actionError st' = actionError st"
    "initialInput st' = initialInput st" "rho st' = rho st"
    "backwardStep st' = backwardStep st" "rnnDelta st' = rnnDelta st"
    "recurrentError st' = recurrentError st" "network st' = network st"
  using assms by (auto simp: IntermediateGradient_def split: sum.splits)

lemma ActionBackward_Inr:
  assumes "ActionBackward aops st = Inr st'"
  obtains a adelta where
    "Backward_op aops (actionModule st)
       (if backwardStep st = rho st - 1 then OutputParameter (actionModule st)
        else initialInput st) (actionError st) = Inr (a, adelta)"
    and "st' = st\<lparr>actionModule := a, actionDelta := adelta,
                  calls := calls st @
                    [BackwardCall ActionModule
                       (if backwardStep st = rho st - 1 then OutputParameter (actionModule st)
                        else initialInput st) (actionError st) adelta]\<rparr>"
proof -
  define ain where "ain = (if backwardStep st = rho st - 1
      then OutputParameter (actionModule st) else initialInput st)"
  note A = assms[unfolded ActionBackward_def Let_def, folded ain_def]
  from A obtain a adelta where
    a: "Backward_op aops (actionModule st) ain (actionError st) = Inr (a, adelta)"
    by (cases "Backward_op aops (actionModule st) ain (actionError st)") auto
  note A1 = A[unfolded a sum.case prod.case]
  from A1 have "st' = st\<lparr>actionModule := a, actionDelta := adelta,
      calls := calls st @ [BackwardCall ActionModule ain (actionError st) adelta]\<rparr>"
    by simp
  with a show ?thesis using that unfolding ain_def by blast
qed

lemma RnnBackward_Inr:
  assumes "RnnBackward rops st = Inr st'"
  obtains r rdelta where
    "Backward_op rops (rnnModule st) (OutputParameter (rnnModule st)) (recurrentError st)
       = Inr (r, rdelta)"
    and "st' = st\<lparr>rnnModule := r, rnnDelta := rdelta,
                  calls := calls st @
                    [BackwardCall RnnModule (OutputParameter (rnnModule st))
                       (recurrentError st) rdelta]\<rparr>"
proof -
  note A = assms[unfolded RnnBackward_def]
  from A obtain r rdelta where
    r: "Backward_op rops (rnnModule st) (OutputParameter (rnnModule st)) (recurrentError st)
          = Inr (r, rdelta)"
    by (cases "Backward_op rops (rnnModule st) (OutputParameter (rnnModule st))
          (recurrentError st)") auto
  note A1 = A[unfolded r sum.case prod.case]
  from A1 have "st' = st\<lparr>rnnModule := r, rnnDelta := rdelta,
      calls := calls st @ [BackwardCall RnnModule (OutputParameter (rnnModule st))
                       (recurrentError st) rdelta]\<rparr>"
    by simp
  with r show ?thesis using that by blast
qed

text \<open>
  What an iteration that returns has done. The two modules run backward from their
  current outputs as the iteration finds them: the inner loop over \<open>network\<close> changes
  the slots and the stack only.
\<close>

lemma BackwardStep_Inr:
  assumes "BackwardStep rops aops ig gy st g = Inr (st', g')"
  obtains st3 a adelta r rdelta c where
    "LoadOutputParameters [0 ..< length (network st)] (SelectRecurrentError gy st) = Inr st3"
    and "Backward_op aops (actionModule st)
           (if backwardStep st = rho st - 1 then OutputParameter (actionModule st)
            else initialInput st) (actionError st)
         = Inr (a, adelta)"
    and "Backward_op rops (rnnModule st) (OutputParameter (rnnModule st))
           (if backwardStep st = 0 then gy else actionDelta st)
         = Inr (r, rdelta)"
    and "col rdelta 1 = Inr c"
    and "(if backwardStep st = 0 then Inr c else add_assign g c) = Inr g'"
    and "calls st' = calls st @
          [BackwardCall ActionModule
             (if backwardStep st = rho st - 1 then OutputParameter (actionModule st)
              else initialInput st)
             (actionError st) adelta,
           BackwardCall RnnModule (OutputParameter (rnnModule st))
             (if backwardStep st = 0 then gy else actionDelta st) rdelta]"
    and "moduleOutputParameter st' = moduleOutputParameter st3"
    and "network st' = network st3"
    and "actionDelta st' = adelta"
    and "rnnDelta st' = rdelta"
    and "recurrentError st' = (if backwardStep st = 0 then gy else actionDelta st)"
    and "actionError st' = actionError st" and "initialInput st' = initialInput st"
    and "rho st' = rho st" and "backwardStep st' = backwardStep st"
proof -
  let ?rec = "if backwardStep st = 0 then gy else actionDelta st"
  let ?ain = "if backwardStep st = rho st - 1 then OutputParameter (actionModule st)
              else initialInput st"
  define st1 where "st1 = SelectRecurrentError gy st"
  note B = assms[unfolded BackwardStep_def Let_def, folded st1_def]
  from B obtain st3 where l: "LoadOutputParameters [0 ..< length (network st1)] st1 = Inr st3"
    by (cases "LoadOutputParameters [0 ..< length (network st1)] st1") auto
  note B1 = B[unfolded l sum.case]
  from B1 obtain st4 where ab: "ActionBackward aops st3 = Inr st4"
    by (cases "ActionBackward aops st3") auto
  note B2 = B1[unfolded ab sum.case]
  from B2 obtain st5 where rb: "RnnBackward rops st4 = Inr st5"
    by (cases "RnnBackward rops st4") auto
  note B3 = B2[unfolded rb sum.case]
  from B3 obtain g1 where acc: "AccumulateInputGradient st5 g = Inr g1"
    by (cases "AccumulateInputGradient st5 g") auto
  note B4 = B3[unfolded acc sum.case]
  from B4 have ig: "IntermediateGradient ig st5 = Inr st'" and gg: "g1 = g'"
    by (cases "IntermediateGradient ig st5"; auto)+
  have s1: "st1 = st\<lparr>recurrentError := ?rec\<rparr>" by (simp add: st1_def SelectRecurrentError_def)
  have n1: "network st1 = network st" by (simp add: s1)
  note fr = LoadOutputParameters_frame[OF l]
  have f3: "backwardStep st3 = backwardStep st" "rho st3 = rho st"
    "actionModule st3 = actionModule st" "rnnModule st3 = rnnModule st"
    "initialInput st3 = initialInput st" "actionError st3 = actionError st"
    "actionDelta st3 = actionDelta st" "recurrentError st3 = ?rec" "calls st3 = calls st"
    by (subst fr, simp add: s1)+
  from ab obtain a adelta where
    a: "Backward_op aops (actionModule st3)
       (if backwardStep st3 = rho st3 - 1 then OutputParameter (actionModule st3)
        else initialInput st3) (actionError st3) = Inr (a, adelta)"
    and st4: "st4 = st3\<lparr>actionModule := a, actionDelta := adelta,
                  calls := calls st3 @
                    [BackwardCall ActionModule
                       (if backwardStep st3 = rho st3 - 1 then OutputParameter (actionModule st3)
                        else initialInput st3) (actionError st3) adelta]\<rparr>"
    by (rule ActionBackward_Inr)
  note a' = a[unfolded f3]
  have f4: "backwardStep st4 = backwardStep st" "rho st4 = rho st"
    "rnnModule st4 = rnnModule st"
    "initialInput st4 = initialInput st" "actionError st4 = actionError st"
    "actionDelta st4 = adelta" "recurrentError st4 = ?rec"
    "calls st4 = calls st @ [BackwardCall ActionModule ?ain (actionError st) adelta]"
    "moduleOutputParameter st4 = moduleOutputParameter st3" "network st4 = network st3"
    by (simp_all add: st4 f3)
  from rb obtain r rdelta where
    r: "Backward_op rops (rnnModule st4) (OutputParameter (rnnModule st4)) (recurrentError st4)
       = Inr (r, rdelta)"
    and st5: "st5 = st4\<lparr>rnnModule := r, rnnDelta := rdelta,
                  calls := calls st4 @
                    [BackwardCall RnnModule (OutputParameter (rnnModule st4))
                       (recurrentError st4) rdelta]\<rparr>"
    by (rule RnnBackward_Inr)
  note r' = r[unfolded f4]
  have f5: "backwardStep st5 = backwardStep st" "rho st5 = rho st"
    "initialInput st5 = initialInput st" "actionError st5 = actionError st"
    "actionDelta st5 = adelta" "recurrentError st5 = ?rec" "rnnDelta st5 = rdelta"
    "calls st5 = calls st @ [BackwardCall ActionModule ?ain (actionError st) adelta,
       BackwardCall RnnModule (OutputParameter (rnnModule st)) ?rec rdelta]"
    "moduleOutputParameter st5 = moduleOutputParameter st3" "network st5 = network st3"
    by (simp_all add: st5 f4)
  from acc obtain c where c: "col rdelta 1 = Inr c"
    and gg': "(if backwardStep st = 0 then Inr c else add_assign g c) = Inr g1"
    by (cases "col rdelta 1") (auto simp: AccumulateInputGradient_def f5)
  note i = IntermediateGradient_Inr[OF ig]
  show ?thesis
  proof (rule that[OF l[unfolded n1, unfolded st1_def] a' r' c gg'[unfolded gg]])
    show "calls st' = calls st @
          [BackwardCall ActionModule ?ain (actionError st) adelta,
           BackwardCall RnnModule (OutputParameter (rnnModule st)) ?rec rdelta]"
      by (simp add: i f5)
    show "moduleOutputParameter st' = moduleOutputParameter st3" by (simp add: i f5)
    show "network st' = network st3" by (simp add: i f5)
    show "actionDelta st' = adelta" by (simp add: i f5)
    show "rnnDelta st' = rdelta" by (simp add: i f5)
    show "recurrentError st' = ?rec" by (simp add: i f5)
    show "actionError st' = actionError st" by (simp add: i f5)
    show "initialInput st' = initialInput st" by (simp add: i f5)
    show "rho st' = rho st" by (simp add: i f5)
    show "backwardStep st' = backwardStep st" by (simp add: i f5)
  qed
qed

subsection \<open>The loop of Backward\<close>

lemma BackwardLoop_trace:
  assumes "BackwardLoop rops aops ig gy st g = Inr (st', g')" and "backwardStep st \<le> rho st"
  shows "\<exists>steps. length steps = rho st - backwardStep st \<and>
     calls st' = calls st @ backward_calls (actionError st)
       (if backwardStep st = 0 then gy else actionDelta st) steps \<and>
     accumulate (backwardStep st) g (map (\<lambda>s. snd (snd (snd s))) steps) = Inr g' \<and>
     rho st' = rho st \<and> backwardStep st' = rho st \<and> initialInput st' = initialInput st"
  using assms
proof (induction rops aops ig gy st g rule: BackwardLoop.induct)
  case (1 rops aops ig gy st g)
  show ?case
  proof (cases "backwardStep st < rho st")
    case False
    with "1.prems" have "st' = st" "g' = g" "rho st - backwardStep st = 0"
      by (simp_all add: BackwardLoop.simps[of rops aops ig gy st g])
    then show ?thesis using "1.prems"(2) False
      by (intro exI[of _ "[]"]) simp
  next
    case True
    with "1.prems"(1) obtain st1 g1 where s1: "BackwardStep rops aops ig gy st g = Inr (st1, g1)"
      and l1: "BackwardLoop rops aops ig gy (st1\<lparr>backwardStep := backwardStep st1 + 1\<rparr>) g1
               = Inr (st', g')"
      by (cases "BackwardStep rops aops ig gy st g")
         (auto simp: BackwardLoop.simps[of rops aops ig gy st g])
    let ?rec = "if backwardStep st = 0 then gy else actionDelta st"
    let ?ain = "if backwardStep st = rho st - 1 then OutputParameter (actionModule st)
                else initialInput st"
    let ?rin = "OutputParameter (rnnModule st)"
    from s1 obtain st3 a adelta r rdelta c where
      c: "col rdelta 1 = Inr c"
      and gg: "(if backwardStep st = 0 then Inr c else add_assign g c) = Inr g1"
      and calls1: "calls st1 = calls st @
          [BackwardCall ActionModule ?ain (actionError st) adelta,
           BackwardCall RnnModule ?rin ?rec rdelta]"
      and f1: "actionDelta st1 = adelta"
        "actionError st1 = actionError st" "initialInput st1 = initialInput st"
        "rho st1 = rho st" "backwardStep st1 = backwardStep st"
      by (rule BackwardStep_Inr)
    define st2 where "st2 = st1\<lparr>backwardStep := backwardStep st1 + 1\<rparr>"
    have f2: "backwardStep st2 = Suc (backwardStep st)" "rho st2 = rho st"
      "actionDelta st2 = adelta"
      "actionError st2 = actionError st" "initialInput st2 = initialInput st"
      "calls st2 = calls st1"
      by (simp_all add: st2_def f1)
    have le2: "backwardStep st2 \<le> rho st2" using True by (simp add: f2)
    from "1.IH"[OF True s1 refl l1[folded st2_def, unfolded st2_def] le2[unfolded st2_def]]
    obtain steps where len: "length steps = rho st2 - backwardStep st2"
      and cl: "calls st' = calls st2 @ backward_calls (actionError st2)
         (if backwardStep st2 = 0 then gy else actionDelta st2) steps"
      and ac: "accumulate (backwardStep st2) g1 (map (\<lambda>s. snd (snd (snd s))) steps) = Inr g'"
      and rest: "rho st' = rho st2" "backwardStep st' = rho st2"
        "initialInput st' = initialInput st2"
      unfolding st2_def by blast
    let ?steps = "(?ain, ?rin, adelta, rdelta) # steps"
    have "length ?steps = rho st - backwardStep st" using len True by (simp add: f2)
    moreover have "calls st' = calls st @ backward_calls (actionError st) ?rec ?steps"
      using cl by (simp add: f2 calls1)
    moreover have "accumulate (backwardStep st) g (map (\<lambda>s. snd (snd (snd s))) ?steps) = Inr g'"
    proof (cases "backwardStep st = 0")
      case True
      with gg have "g1 = c" by simp
      with ac c True show ?thesis by (simp add: f2)
    next
      case False
      with gg have "add_assign g c = Inr g1" by simp
      with ac c False show ?thesis by (simp add: f2)
    qed
    ultimately show ?thesis using rest unfolding f2 by blast
  qed
qed

subsection \<open>Before the loop of Backward\<close>

lemma InitializeGradients_Inr:
  assumes "InitializeGradients st = Inr st'"
  shows "calls st' = calls st" "moduleOutputParameter st' = moduleOutputParameter st"
    "rho st' = rho st" "backwardStep st' = backwardStep st"
    "initialInput st' = initialInput st" "actionDelta st' = actionDelta st"
  using assms
  by (auto simp: InitializeGradients_def Let_def split: if_splits sum.splits)

lemma RecurrentAttention_Backward_trace:
  assumes "RecurrentAttention_Backward rops aops ig st input gy g = Inr (st', g')"
    and "backwardStep st \<le> rho st"
  shows "\<exists>steps actErr. length steps = rho st - backwardStep st \<and>
     calls st' = calls st @ backward_calls actErr
       (if backwardStep st = 0 then gy else actionDelta st) steps \<and>
     accumulate (backwardStep st) g (map (\<lambda>s. snd (snd (snd s))) steps) = Inr g' \<and>
     rho st' = rho st \<and> backwardStep st' = rho st \<and> initialInput st' = initialInput st"
proof -
  from assms(1) obtain st1 where i: "InitializeGradients st = Inr st1"
    and l: "BackwardLoop rops aops ig gy st1 g = Inr (st', g')"
    by (cases "InitializeGradients st") (auto simp: RecurrentAttention_Backward_def)
  note f = InitializeGradients_Inr[OF i]
  have "backwardStep st1 \<le> rho st1" using assms(2) by (simp add: f)
  from BackwardLoop_trace[OF l this] show ?thesis
    unfolding f by blast
qed

subsection \<open>Reading the calls of Backward\<close>

lemma backward_reads:
  "rnn_deltas (backward_calls actErr recErr steps)
     = map (\<lambda>s. snd (snd (snd s))) steps"
  "action_deltas (backward_calls actErr recErr steps)
     = map (\<lambda>s. fst (snd (snd s))) steps"
  by (induction actErr recErr steps rule: backward_calls.induct)
     (simp_all add: rnn_deltas_def action_deltas_def)

lemma rnn_errors_backward_calls:
  "rnn_errors (backward_calls actErr recErr steps)
     = (if steps = [] then []
        else recErr # butlast (map (\<lambda>s. fst (snd (snd s))) steps))"
  by (induction actErr recErr steps rule: backward_calls.induct)
     (simp_all add: rnn_errors_def)

subsection \<open>The sum that Backward returns\<close>

lemma col_Inr:
  assumes "col d k = Inr c"
  shows "k < n_cols d" "n_rows c = n_rows d" "n_cols c = 1"
    "\<And>i. i < n_rows d \<Longrightarrow> mem c ! i = mat_at d i k"
  using assms by (auto simp: col_def split: if_splits)

lemma add_assign_Inr:
  assumes "add_assign g c = Inr g'"
  shows "n_rows g = n_rows c" "n_cols g = n_cols c" "n_rows g' = n_rows g" "n_cols g' = n_cols g"
    "\<And>p. p < n_rows g * n_cols g \<Longrightarrow> mem g' ! p = mem g ! p + mem c ! p"
  using assms by (auto simp: add_assign_def split: if_splits)

lemma accumulate_later:
  assumes "accumulate k g ds = Inr g'" and "0 < k"
  shows "n_rows g' = n_rows g \<and> n_cols g' = n_cols g \<and>
     (ds \<noteq> [] \<longrightarrow> n_cols g = 1) \<and>
     (\<forall>d \<in> set ds. n_rows d = n_rows g \<and> 1 < n_cols d) \<and>
     (\<forall>i < n_rows g * n_cols g.
        mem g' ! i = mem g ! i + sum_list (map (\<lambda>d. mat_at d i 1) ds))"
  using assms
proof (induction ds arbitrary: k g)
  case Nil
  then show ?case by simp
next
  case (Cons d ds)
  from Cons.prems obtain c where c: "col d 1 = Inr c"
    by (cases "col d 1") auto
  from Cons.prems c obtain g1 where g1: "add_assign g c = Inr g1"
    and rec: "accumulate (Suc k) g1 ds = Inr g'"
    by (cases "add_assign g c") auto
  note cf = col_Inr[OF c]
  note af = add_assign_Inr[OF g1]
  from Cons.IH[OF rec] have IH: "n_rows g' = n_rows g1" "n_cols g' = n_cols g1"
    "\<forall>d \<in> set ds. n_rows d = n_rows g1 \<and> 1 < n_cols d"
    "\<forall>i < n_rows g1 * n_cols g1.
        mem g' ! i = mem g1 ! i + sum_list (map (\<lambda>d. mat_at d i 1) ds)"
    by simp_all
  have one: "n_cols g = 1" using af(2) cf(3) by simp
  have rows: "n_rows d = n_rows g" using af(1) cf(2) by simp
  have "mem g' ! i = mem g ! i + sum_list (map (\<lambda>d. mat_at d i 1) (d # ds))"
    if "i < n_rows g * n_cols g" for i
  proof -
    from that have i: "i < n_rows g" using one by simp
    have "mem g' ! i = mem g1 ! i + sum_list (map (\<lambda>d. mat_at d i 1) ds)"
      using IH(4) that by (simp add: af)
    also have "mem g1 ! i = mem g ! i + mem c ! i" using that by (rule af(5))
    also have "mem c ! i = mat_at d i 1" using i rows by (simp add: cf(4))
    finally show ?thesis by simp
  qed
  with IH(1,2,3) af one rows cf(1) show ?case by simp
qed

lemma accumulate_first:
  assumes "accumulate 0 g0 (d # ds) = Inr g"
  shows "n_rows g = n_rows d \<and> n_cols g = 1 \<and>
     (\<forall>d' \<in> set (d # ds). n_rows d' = n_rows g \<and> 1 < n_cols d') \<and>
     (\<forall>i < n_rows g. mem g ! i = sum_list (map (\<lambda>d'. mat_at d' i 1) (d # ds)))"
proof -
  from assms obtain c where c: "col d 1 = Inr c" and rec: "accumulate (Suc 0) c ds = Inr g"
    by (cases "col d 1") auto
  note cf = col_Inr[OF c]
  from accumulate_later[OF rec] have L: "n_rows g = n_rows c" "n_cols g = n_cols c"
    "\<forall>d \<in> set ds. n_rows d = n_rows c \<and> 1 < n_cols d"
    "\<forall>i < n_rows c * n_cols c.
        mem g ! i = mem c ! i + sum_list (map (\<lambda>d. mat_at d i 1) ds)"
    by simp_all
  have "mem g ! i = sum_list (map (\<lambda>d'. mat_at d' i 1) (d # ds))" if "i < n_rows g" for i
  proof -
    from that have i: "i < n_rows d" by (simp add: L cf)
    then have "mem g ! i = mem c ! i + sum_list (map (\<lambda>d. mat_at d i 1) ds)"
      using L(4) by (simp add: cf)
    with i show ?thesis by (simp add: cf(4))
  qed
  with L cf show ?thesis by simp
qed

subsection \<open>The calls that Forward and Backward make\<close>

text \<open>
  C1: \<open>Backward\<close> replays the \<open>rho\<close> unroll steps from the last to the first.
  In a run that starts at \<open>backwardStep = 0\<close> and returns, the error handed to the
  recurrent module in reverse iteration \<open>k\<close> is the output gradient \<open>gy\<close> for
  \<open>k = 0\<close>, and for every later \<open>k\<close> it is the delta that the action module
  returned in reverse iteration \<open>k - 1\<close>. With \<open>rho = 1\<close> the recurrent module
  receives \<open>gy\<close> and nothing else.
\<close>

theorem RecurrentAttention_Backward_recurrent_error:
  assumes "RecurrentAttention_Backward rops aops ig st input gy g0 = Inr (st', g)"
    and "backwardStep st = 0"
  shows "\<exists>evs. calls st' = calls st @ evs \<and>
     length (rnn_errors evs) = rho st \<and> length (action_deltas evs) = rho st \<and>
     rnn_errors evs = (if rho st = 0 then [] else gy # butlast (action_deltas evs)) \<and>
     (\<forall>k < rho st. rnn_errors evs ! k = (if k = 0 then gy else action_deltas evs ! (k - 1))) \<and>
     (rho st = 1 \<longrightarrow> rnn_errors evs = [gy])"
proof -
  have "backwardStep st \<le> rho st" using assms(2) by simp
  from RecurrentAttention_Backward_trace[OF assms(1) this] obtain steps actErr where
    len: "length steps = rho st"
    and c: "calls st' = calls st @ backward_calls actErr gy steps"
    using assms(2) by auto
  let ?evs = "backward_calls actErr gy steps"
  let ?ad = "map (\<lambda>s. fst (snd (snd s))) steps"
  have ad: "action_deltas ?evs = ?ad" by (rule backward_reads)
  have re: "rnn_errors ?evs = (if rho st = 0 then [] else gy # butlast ?ad)"
  proof -
    have "(steps = []) = (rho st = 0)" using len by auto
    then show ?thesis by (simp add: rnn_errors_backward_calls)
  qed
  have l1: "length (rnn_errors ?evs) = rho st" using len by (simp add: re)
  have l2: "length (action_deltas ?evs) = rho st" using len by (simp add: ad)
  have nth: "rnn_errors ?evs ! k = (if k = 0 then gy else action_deltas ?evs ! (k - 1))"
    if "k < rho st" for k
  proof (cases k)
    case 0
    with that show ?thesis by (simp add: re)
  next
    case (Suc j)
    with that len have "j < length ?ad - 1" by simp
    then have "butlast ?ad ! j = ?ad ! j" by (simp add: nth_butlast)
    with Suc that show ?thesis by (simp add: re ad)
  qed
  have one: "rnn_errors ?evs = [gy]" if "rho st = 1"
  proof -
    from that len have "length ?ad = 1" by simp
    then have "butlast ?ad = []" by (cases ?ad) simp_all
    then show ?thesis by (subst re) (simp add: that)
  qed
  have re': "rnn_errors ?evs =
      (if rho st = 0 then [] else gy # butlast (action_deltas ?evs))"
    using re unfolding ad .
  have nth': "\<forall>k < rho st. rnn_errors ?evs ! k =
      (if k = 0 then gy else action_deltas ?evs ! (k - 1))"
    using nth by blast
  have one': "rho st = 1 \<longrightarrow> rnn_errors ?evs = [gy]" using one by blast
  show ?thesis
    by (rule exI[of _ ?evs]) (intro conjI c l1 l2 re' nth' one')
qed

text \<open>
  C6: in a run of \<open>Backward\<close> that starts at \<open>backwardStep = 0\<close>, takes at
  least one step and returns, the returned input gradient \<open>g\<close> is the sum, over all
  reverse iterations, of column 1 of the delta that the recurrent module returned: the first
  iteration assigns the column, every later one adds its column.
\<close>

theorem RecurrentAttention_Backward_input_gradient:
  assumes "RecurrentAttention_Backward rops aops ig st input gy g0 = Inr (st', g)"
    and "backwardStep st = 0" and "0 < rho st"
  shows "\<exists>evs. calls st' = calls st @ evs \<and> length (rnn_deltas evs) = rho st \<and>
     accumulate 0 g0 (rnn_deltas evs) = Inr g \<and>
     n_rows g = n_rows (hd (rnn_deltas evs)) \<and> n_cols g = 1 \<and>
     (\<forall>d \<in> set (rnn_deltas evs). n_rows d = n_rows g \<and> 1 < n_cols d) \<and>
     (\<forall>i < n_rows g. mem g ! i = sum_list (map (\<lambda>d. mat_at d i 1) (rnn_deltas evs)))"
proof -
  have "backwardStep st \<le> rho st" using assms(2) by simp
  from RecurrentAttention_Backward_trace[OF assms(1) this] obtain steps actErr where
    len: "length steps = rho st"
    and c: "calls st' = calls st @ backward_calls actErr gy steps"
    and acc: "accumulate 0 g0 (map (\<lambda>s. snd (snd (snd s))) steps) = Inr g"
    using assms(2) by auto
  let ?evs = "backward_calls actErr gy steps"
  let ?ds = "map (\<lambda>s. snd (snd (snd s))) steps"
  have rd: "rnn_deltas ?evs = ?ds" by (rule backward_reads)
  from len assms(3) obtain s ss where ss: "steps = s # ss" by (cases steps) auto
  have ds: "?ds = snd (snd (snd s)) # map (\<lambda>s. snd (snd (snd s))) ss" by (simp add: ss)
  have acc': "accumulate 0 g0 (snd (snd (snd s)) # map (\<lambda>s. snd (snd (snd s))) ss) = Inr g"
    using acc by (simp only: ds)
  have "n_rows g = n_rows (hd ?ds) \<and> n_cols g = 1 \<and>
     (\<forall>d' \<in> set ?ds. n_rows d' = n_rows g \<and> 1 < n_cols d') \<and>
     (\<forall>i < n_rows g. mem g ! i = sum_list (map (\<lambda>d'. mat_at d' i 1) ?ds))"
    unfolding ds list.sel by (rule accumulate_first[OF acc'])
  then have A: "n_rows g = n_rows (hd (rnn_deltas ?evs)) \<and> n_cols g = 1 \<and>
     (\<forall>d' \<in> set (rnn_deltas ?evs). n_rows d' = n_rows g \<and> 1 < n_cols d') \<and>
     (\<forall>i < n_rows g. mem g ! i = sum_list (map (\<lambda>d'. mat_at d' i 1) (rnn_deltas ?evs)))"
    unfolding rd .
  have B: "length (rnn_deltas ?evs) = rho st" using len by (simp add: rd)
  have C: "accumulate 0 g0 (rnn_deltas ?evs) = Inr g" using acc unfolding rd .
  from c A B C show ?thesis by (intro exI[of _ ?evs]) simp
qed

text \<open>
  C5: in step \<open>t\<close> of a \<open>Forward\<close> that returns, the action module's input is
  the initial action input for \<open>t = 0\<close> (zeros when it was allocated in this call) and
  the output of the recurrent module of step \<open>t - 1\<close> otherwise; the recurrent module's
  input has two columns, column 0 the external input and column 1 the output of the action
  module in its leading elements and zero below.
\<close>

theorem RecurrentAttention_Forward_inputs:
  assumes "RecurrentAttention_Forward rops aops st input = Inr (st', out)"
  shows "\<exists>evs. calls st' = calls st @ evs \<and>
     length (action_inputs evs) = rho st \<and> length (action_outputs evs) = rho st \<and>
     length (rnn_inputs evs) = rho st \<and> length (rnn_outputs evs) = rho st \<and>
     (\<forall>t < rho st.
        action_inputs evs ! t = (if t = 0 then initialInput st' else rnn_outputs evs ! (t - 1)) \<and>
        n_rows (rnn_inputs evs ! t) = n_elem input \<and> n_cols (rnn_inputs evs ! t) = 2 \<and>
        (\<forall>i < n_elem input.
           mat_at (rnn_inputs evs ! t) i 0 = mem input ! i \<and>
           mat_at (rnn_inputs evs ! t) i 1 =
             (if i < n_elem (action_outputs evs ! t) then mem (action_outputs evs ! t) ! i
              else 0))) \<and>
     (is_empty (initialInput st) \<longrightarrow> initialInput st' = zeros (outSize st) (n_cols input))"
proof -
  from RecurrentAttention_Forward_trace[OF assms] obtain steps where
    len: "length steps = rho st"
    and c: "calls st' = calls st @ forward_calls (initialInput st') steps"
    and gl: "\<forall>s \<in> set steps. glimpseInput input (fst s) = Inr (fst (snd s))"
    and ini: "initialInput st' =
       (if is_empty (initialInput st) then zeros (outSize st) (n_cols input)
        else initialInput st)"
    by auto
  let ?evs = "forward_calls (initialInput st') steps"
  have step: "action_inputs ?evs ! t =
        (if t = 0 then initialInput st' else rnn_outputs ?evs ! (t - 1)) \<and>
      n_rows (rnn_inputs ?evs ! t) = n_elem input \<and> n_cols (rnn_inputs ?evs ! t) = 2 \<and>
      (\<forall>i < n_elem input.
           mat_at (rnn_inputs ?evs ! t) i 0 = mem input ! i \<and>
           mat_at (rnn_inputs ?evs ! t) i 1 =
             (if i < n_elem (action_outputs ?evs ! t) then mem (action_outputs ?evs ! t) ! i
              else 0))"
    if t: "t < rho st" for t
  proof -
    from t len have tl: "t < length steps" by simp
    then have "steps ! t \<in> set steps" by simp
    with gl have g: "glimpseInput input (fst (steps ! t)) = Inr (fst (snd (steps ! t)))"
      by blast
    note G = glimpseInput_Inr[OF g]
    have ri: "rnn_inputs ?evs ! t = fst (snd (steps ! t))"
      and ao: "action_outputs ?evs ! t = fst (steps ! t)"
      using tl by (simp_all add: forward_reads)
    have ai: "action_inputs ?evs ! t =
        (if t = 0 then initialInput st' else rnn_outputs ?evs ! (t - 1))"
      using tl by (simp add: action_inputs_forward_calls forward_reads)
    show ?thesis unfolding ri ao using ai G(1,2,7,8) by (simp add: ri)
  qed
  have "length (action_inputs ?evs) = rho st" "length (action_outputs ?evs) = rho st"
    "length (rnn_inputs ?evs) = rho st" "length (rnn_outputs ?evs) = rho st"
    using len by simp_all
  with c step ini show ?thesis by (intro exI[of _ ?evs]) simp
qed

subsection \<open>The split of the attention gradient\<close>

lemma submat_column_block:
  assumes "0 < n" and "off + n \<le> n_rows X" and "0 < n_cols X"
  shows "submat X off 0 (size_t_minus (off + n) 1) 0 =
     Inr \<lparr>n_rows = n, n_cols = 1, mem = map (\<lambda>i. mem X ! i) [off ..< off + n]\<rparr>"
proof -
  have r2: "size_t_minus (off + n) 1 = off + n - 1"
    using assms(1) by (simp add: size_t_minus_def)
  have a: "Suc (off + n - 1) = off + n" using assms(1) by simp
  have b: "off + n - 1 - off + 1 = n" using assms(1) by simp
  have c: "\<not> off + n - 1 < off" using assms(1) by simp
  have d: "\<not> n_rows X \<le> off + n - 1" using assms(1,2) by simp
  have e: "\<not> n_cols X \<le> 0" using assms(3) by simp
  show ?thesis
    unfolding r2 submat_def using c d e by (simp only: a b if_False) (simp add: mat_at_def)
qed

text \<open>
  C7: when the attention gradient has at least as many rows as both modules have parameters,
  \<open>Gradient\<close> returns; it gives the recurrent module the rows from 0 up to its number of
  parameters and the action module the rows that follow, and a module without parameters is
  left untouched. The write that is skipped is the one that would fail: the row range of a
  block of no rows ends at \<open>offset - 1\<close> (which wraps for offset 0), and the
  submatrix view refuses it.
\<close>

theorem RecurrentAttention_Gradient_split:
  "(n_elem (Parameters (rnnModule st)) + n_elem (Parameters (actionModule st))
      \<le> n_rows (attentionGradient st) \<and> 0 < n_cols (attentionGradient st) \<longrightarrow>
    (\<exists>st'. RecurrentAttention_Gradient st = Inr st' \<and>
      st' = st\<lparr>rnnModule := rnnModule st', actionModule := actionModule st'\<rparr> \<and>
      (n_elem (Parameters (rnnModule st)) \<noteq> 0 \<longrightarrow>
         rnnModule st' = (rnnModule st)\<lparr>Gradient :=
           \<lparr>n_rows = n_elem (Parameters (rnnModule st)), n_cols = 1,
            mem = map (\<lambda>i. mem (attentionGradient st) ! i)
                    [0 ..< n_elem (Parameters (rnnModule st))]\<rparr>\<rparr>) \<and>
      (n_elem (Parameters (rnnModule st)) = 0 \<longrightarrow> rnnModule st' = rnnModule st) \<and>
      (n_elem (Parameters (actionModule st)) \<noteq> 0 \<longrightarrow>
         actionModule st' = (actionModule st)\<lparr>Gradient :=
           \<lparr>n_rows = n_elem (Parameters (actionModule st)), n_cols = 1,
            mem = map (\<lambda>i. mem (attentionGradient st) ! i)
                    [n_elem (Parameters (rnnModule st)) ..<
                     n_elem (Parameters (rnnModule st)) +
                     n_elem (Parameters (actionModule st))]\<rparr>\<rparr>) \<and>
      (n_elem (Parameters (actionModule st)) = 0 \<longrightarrow> actionModule st' = actionModule st))) \<and>
   (\<forall>X off. n_rows X < 2 ^ 64 \<longrightarrow>
      submat X off 0 (size_t_minus (off + 0) 1) 0 = Inl IndexOutOfBounds)"
proof (intro conjI allI impI)
  fix X :: mat and off :: nat
  assume "n_rows X < 2 ^ 64"
  then show "submat X off 0 (size_t_minus (off + 0) 1) 0 = Inl IndexOutOfBounds"
    by (cases "off = 0") (auto simp: submat_def size_t_minus_def)
next
  define nr where "nr = n_elem (Parameters (rnnModule st))"
  define na where "na = n_elem (Parameters (actionModule st))"
  define X where "X = attentionGradient st"
  assume "n_elem (Parameters (rnnModule st)) + n_elem (Parameters (actionModule st))
      \<le> n_rows (attentionGradient st) \<and> 0 < n_cols (attentionGradient st)"
  then have h: "nr + na \<le> n_rows X" "0 < n_cols X" by (simp_all add: nr_def na_def X_def)
  have br: "nr \<noteq> 0 \<Longrightarrow> submat X 0 0 (size_t_minus (0 + nr) 1) 0 =
     Inr \<lparr>n_rows = nr, n_cols = 1, mem = map (\<lambda>i. mem X ! i) [0 ..< 0 + nr]\<rparr>"
    using h by (intro submat_column_block) simp_all
  have ba: "na \<noteq> 0 \<Longrightarrow> submat X off 0 (size_t_minus (off + na) 1) 0 =
     Inr \<lparr>n_rows = na, n_cols = 1, mem = map (\<lambda>i. mem X ! i) [off ..< off + na]\<rparr>"
    if "off \<le> nr" for off
    using h that by (intro submat_column_block) simp_all
  show "\<exists>st'. RecurrentAttention_Gradient st = Inr st' \<and>
      st' = st\<lparr>rnnModule := rnnModule st', actionModule := actionModule st'\<rparr> \<and>
      (n_elem (Parameters (rnnModule st)) \<noteq> 0 \<longrightarrow>
         rnnModule st' = (rnnModule st)\<lparr>Gradient :=
           \<lparr>n_rows = n_elem (Parameters (rnnModule st)), n_cols = 1,
            mem = map (\<lambda>i. mem (attentionGradient st) ! i)
                    [0 ..< n_elem (Parameters (rnnModule st))]\<rparr>\<rparr>) \<and>
      (n_elem (Parameters (rnnModule st)) = 0 \<longrightarrow> rnnModule st' = rnnModule st) \<and>
      (n_elem (Parameters (actionModule st)) \<noteq> 0 \<longrightarrow>
         actionModule st' = (actionModule st)\<lparr>Gradient :=
           \<lparr>n_rows = n_elem (Parameters (actionModule st)), n_cols = 1,
            mem = map (\<lambda>i. mem (attentionGradient st) ! i)
                    [n_elem (Parameters (rnnModule st)) ..<
                     n_elem (Parameters (rnnModule st)) +
                     n_elem (Parameters (actionModule st))]\<rparr>\<rparr>) \<and>
      (n_elem (Parameters (actionModule st)) = 0 \<longrightarrow> actionModule st' = actionModule st)"
    unfolding nr_def[symmetric] na_def[symmetric] X_def[symmetric]
  proof (cases "nr = 0"; cases "na = 0")
    assume z: "nr = 0" "na = 0"
    then have "RecurrentAttention_Gradient st = Inr st"
      by (simp add: RecurrentAttention_Gradient_def nr_def na_def)
    with z show "\<exists>st'. RecurrentAttention_Gradient st = Inr st' \<and>
      st' = st\<lparr>rnnModule := rnnModule st', actionModule := actionModule st'\<rparr> \<and>
      (nr \<noteq> 0 \<longrightarrow> rnnModule st' = (rnnModule st)\<lparr>Gradient :=
           \<lparr>n_rows = nr, n_cols = 1, mem = map (\<lambda>i. mem X ! i) [0 ..< nr]\<rparr>\<rparr>) \<and>
      (nr = 0 \<longrightarrow> rnnModule st' = rnnModule st) \<and>
      (na \<noteq> 0 \<longrightarrow> actionModule st' = (actionModule st)\<lparr>Gradient :=
           \<lparr>n_rows = na, n_cols = 1, mem = map (\<lambda>i. mem X ! i) [nr ..< nr + na]\<rparr>\<rparr>) \<and>
      (na = 0 \<longrightarrow> actionModule st' = actionModule st)"
      by simp
  next
    assume z: "nr = 0" "na \<noteq> 0"
    with ba[of 0] have "RecurrentAttention_Gradient st = Inr (st\<lparr>actionModule :=
        (actionModule st)\<lparr>Gradient :=
           \<lparr>n_rows = na, n_cols = 1, mem = map (\<lambda>i. mem X ! i) [0 ..< 0 + na]\<rparr>\<rparr>\<rparr>)"
      by (simp add: RecurrentAttention_Gradient_def nr_def[symmetric] na_def[symmetric]
          X_def[symmetric])
    with z show "\<exists>st'. RecurrentAttention_Gradient st = Inr st' \<and>
      st' = st\<lparr>rnnModule := rnnModule st', actionModule := actionModule st'\<rparr> \<and>
      (nr \<noteq> 0 \<longrightarrow> rnnModule st' = (rnnModule st)\<lparr>Gradient :=
           \<lparr>n_rows = nr, n_cols = 1, mem = map (\<lambda>i. mem X ! i) [0 ..< nr]\<rparr>\<rparr>) \<and>
      (nr = 0 \<longrightarrow> rnnModule st' = rnnModule st) \<and>
      (na \<noteq> 0 \<longrightarrow> actionModule st' = (actionModule st)\<lparr>Gradient :=
           \<lparr>n_rows = na, n_cols = 1, mem = map (\<lambda>i. mem X ! i) [nr ..< nr + na]\<rparr>\<rparr>) \<and>
      (na = 0 \<longrightarrow> actionModule st' = actionModule st)"
      by simp
  next
    assume z: "nr \<noteq> 0" "na = 0"
    with br have "RecurrentAttention_Gradient st = Inr (st\<lparr>rnnModule :=
        (rnnModule st)\<lparr>Gradient :=
           \<lparr>n_rows = nr, n_cols = 1, mem = map (\<lambda>i. mem X ! i) [0 ..< 0 + nr]\<rparr>\<rparr>\<rparr>)"
      by (simp add: RecurrentAttention_Gradient_def nr_def[symmetric] na_def[symmetric]
          X_def[symmetric])
    with z show "\<exists>st'. RecurrentAttention_Gradient st = Inr st' \<and>
      st' = st\<lparr>rnnModule := rnnModule st', actionModule := actionModule st'\<rparr> \<and>
      (nr \<noteq> 0 \<longrightarrow> rnnModule st' = (rnnModule st)\<lparr>Gradient :=
           \<lparr>n_rows = nr, n_cols = 1, mem = map (\<lambda>i. mem X ! i) [0 ..< nr]\<rparr>\<rparr>) \<and>
      (nr = 0 \<longrightarrow> rnnModule st' = rnnModule st) \<and>
      (na \<noteq> 0 \<longrightarrow> actionModule st' = (actionModule st)\<lparr>Gradient :=
           \<lparr>n_rows = na, n_cols = 1, mem = map (\<lambda>i. mem X ! i) [nr ..< nr + na]\<rparr>\<rparr>) \<and>
      (na = 0 \<longrightarrow> actionModule st' = actionModule st)"
      by simp
  next
    assume z: "nr \<noteq> 0" "na \<noteq> 0"
    with br ba[of nr] have "RecurrentAttention_Gradient st = Inr (st\<lparr>rnnModule :=
        (rnnModule st)\<lparr>Gradient :=
           \<lparr>n_rows = nr, n_cols = 1, mem = map (\<lambda>i. mem X ! i) [0 ..< 0 + nr]\<rparr>\<rparr>,
        actionModule := (actionModule st)\<lparr>Gradient :=
           \<lparr>n_rows = na, n_cols = 1, mem = map (\<lambda>i. mem X ! i) [nr ..< nr + na]\<rparr>\<rparr>\<rparr>)"
      by (simp add: RecurrentAttention_Gradient_def nr_def[symmetric] na_def[symmetric]
          X_def[symmetric])
    with z show "\<exists>st'. RecurrentAttention_Gradient st = Inr st' \<and>
      st' = st\<lparr>rnnModule := rnnModule st', actionModule := actionModule st'\<rparr> \<and>
      (nr \<noteq> 0 \<longrightarrow> rnnModule st' = (rnnModule st)\<lparr>Gradient :=
           \<lparr>n_rows = nr, n_cols = 1, mem = map (\<lambda>i. mem X ! i) [0 ..< nr]\<rparr>\<rparr>) \<and>
      (nr = 0 \<longrightarrow> rnnModule st' = rnnModule st) \<and>
      (na \<noteq> 0 \<longrightarrow> actionModule st' = (actionModule st)\<lparr>Gradient :=
           \<lparr>n_rows = na, n_cols = 1, mem = map (\<lambda>i. mem X ! i) [nr ..< nr + na]\<rparr>\<rparr>) \<and>
      (na = 0 \<longrightarrow> actionModule st' = actionModule st)"
      by simp
  qed
qed

subsection \<open>The initial action input\<close>

lemma SaveOutputParameters_initialInput:
  "initialInput (layer_after (SaveOutputParameters ss st)) = initialInput st"
proof (induction ss arbitrary: st)
  case Nil
  show ?case by (simp add: layer_after_def)
next
  case (Cons s ss)
  show ?case
  proof (cases "slot_OutputParameter st s")
    case (Inl e)
    then show ?thesis by (simp add: layer_after_def)
  next
    case (Inr m)
    then show ?thesis by (simp add: Cons.IH)
  qed
qed

lemma glimpseInput_columns:
  "n_cols input \<noteq> 1 \<Longrightarrow> glimpseInput input aout = Inl IncompatibleDimensions"
  by (simp add: glimpseInput_def assign_col_def zeros_def)

lemma ForwardStep_glimpse_fails:
  assumes "Forward_op aops (actionModule st)
       (if forwardStep st = 0 then initialInput st else OutputParameter (rnnModule st))
     = Inr (a, aout)"
    and "glimpseInput input aout = Inl e"
  shows "ForwardStep rops aops input st =
     Inl (e, st\<lparr>actionModule := a\<lparr>OutputParameter := aout\<rparr>,
               calls := calls st @
                 [ForwardCall ActionModule
                    (if forwardStep st = 0 then initialInput st
                     else OutputParameter (rnnModule st)) aout]\<rparr>)"
proof -
  define ain where
    "ain = (if forwardStep st = 0 then initialInput st else OutputParameter (rnnModule st))"
  define st1 where "st1 = st\<lparr>actionModule := a\<lparr>OutputParameter := aout\<rparr>,
                   calls := calls st @ [ForwardCall ActionModule ain aout]\<rparr>"
  have g: "glimpseInput input (OutputParameter (actionModule st1)) = Inl e"
    using assms(2) by (simp add: st1_def)
  show ?thesis
    unfolding ForwardStep_def Let_def ain_def[symmetric] assms(1)[folded ain_def]
      sum.case prod.case st1_def[symmetric] g ..
qed

lemma ForwardStep_initialInput:
  "initialInput (layer_after (ForwardStep rops aops input st)) = initialInput st"
proof -
  define ain where
    "ain = (if forwardStep st = 0 then initialInput st else OutputParameter (rnnModule st))"
  note U = ForwardStep_def[of rops aops input st, unfolded Let_def, folded ain_def]
  show ?thesis
  proof (cases "Forward_op aops (actionModule st) ain")
    case (Inl p)
    obtain e a where p: "p = (e, a)" by (cases p)
    show ?thesis unfolding U Inl p by (simp add: layer_after_def)
  next
    case (Inr p)
    obtain a aout where p: "p = (a, aout)" by (cases p)
    define st1 where "st1 = st\<lparr>actionModule := a\<lparr>OutputParameter := aout\<rparr>,
                   calls := calls st @ [ForwardCall ActionModule ain aout]\<rparr>"
    note U1 = U[unfolded Inr p sum.case prod.case, folded st1_def]
    have i1: "initialInput st1 = initialInput st" by (simp add: st1_def)
    show ?thesis
    proof (cases "glimpseInput input (OutputParameter (actionModule st1))")
      case (Inl e)
      show ?thesis unfolding U1 Inl by (simp add: layer_after_def i1)
    next
      case gl: (Inr gl)
      note U2 = U1[unfolded gl sum.case]
      show ?thesis
      proof (cases "Forward_op rops (rnnModule st1) gl")
        case (Inl q)
        obtain e r where q: "q = (e, r)" by (cases q)
        show ?thesis unfolding U2 Inl q by (simp add: layer_after_def i1)
      next
        case (Inr q)
        obtain r rout where q: "q = (r, rout)" by (cases q)
        define st2 where "st2 = st1\<lparr>rnnModule := r\<lparr>OutputParameter := rout\<rparr>,
                    calls := calls st1 @ [ForwardCall RnnModule gl rout]\<rparr>"
        note U3 = U2[unfolded Inr q sum.case prod.case, folded st2_def]
        have i2: "initialInput st2 = initialInput st" by (simp add: st2_def i1)
        show ?thesis
          unfolding U3
          by (cases "deterministic st2")
             (simp_all add: SaveOutputParameters_initialInput i2, simp add: layer_after_def i2)
      qed
    qed
  qed
qed

lemma ForwardLoop_initialInput:
  "initialInput (layer_after (ForwardLoop rops aops input st)) = initialInput st"
proof (induction rops aops input st rule: ForwardLoop.induct)
  case (1 rops aops input st)
  show ?case
  proof (cases "forwardStep st < rho st")
    case False
    then show ?thesis
      by (simp add: ForwardLoop.simps[of rops aops input st] layer_after_def)
  next
    case True
    show ?thesis
    proof (cases "ForwardStep rops aops input st")
      case (Inl p)
      obtain e st1 where p: "p = (e, st1)" by (cases p)
      from ForwardStep_initialInput[of rops aops input st]
      have "initialInput st1 = initialInput st" by (simp add: Inl p layer_after_def)
      then show ?thesis
        using True by (simp add: ForwardLoop.simps[of rops aops input st] Inl p layer_after_def)
    next
      case (Inr st1)
      from ForwardStep_initialInput[of rops aops input st]
      have i1: "initialInput st1 = initialInput st" by (simp add: Inr layer_after_def)
      from "1.IH"[OF True Inr]
      have "initialInput (layer_after (ForwardLoop rops aops input
              (st1\<lparr>forwardStep := forwardStep st1 + 1\<rparr>))) = initialInput st"
        by (simp add: i1)
      then show ?thesis
        using True by (simp add: ForwardLoop.simps[of rops aops input st] Inr)
    qed
  qed
qed

lemma RecurrentAttention_Forward_initialInput:
  "initialInput (after_Forward (RecurrentAttention_Forward rops aops st input)) =
     (if is_empty (initialInput st) then zeros (outSize st) (n_cols input)
      else initialInput st)"
proof -
  define st0 where "st0 = (InitializeActionInput input st)\<lparr>forwardStep := 0\<rparr>"
  have i0: "initialInput st0 =
     (if is_empty (initialInput st) then zeros (outSize st) (n_cols input)
      else initialInput st)"
    by (simp add: st0_def)
  have "initialInput (after_Forward (RecurrentAttention_Forward rops aops st input))
      = initialInput (layer_after (ForwardLoop rops aops input st0))"
  proof (cases "ForwardLoop rops aops input st0")
    case (Inl p)
    obtain e st1 where p: "p = (e, st1)" by (cases p)
    show ?thesis
      unfolding RecurrentAttention_Forward_def st0_def[symmetric] Inl p
      by (simp add: after_Forward_def layer_after_def)
  next
    case (Inr st1)
    show ?thesis
      unfolding RecurrentAttention_Forward_def st0_def[symmetric] Inr
      by (simp add: after_Forward_def layer_after_def)
  qed
  then show ?thesis unfolding ForwardLoop_initialInput i0 .
qed

lemma RecurrentAttention_Forward_columns:
  assumes "0 < rho st" and "\<not> is_empty (initialInput st)" and "n_cols input \<noteq> 1"
    and "Forward_op aops (actionModule st) (initialInput st) = Inr (a, aout)"
  shows "RecurrentAttention_Forward rops aops st input =
     Inl (IncompatibleDimensions,
          st\<lparr>forwardStep := 0, actionModule := a\<lparr>OutputParameter := aout\<rparr>,
             calls := calls st @ [ForwardCall ActionModule (initialInput st) aout]\<rparr>)"
proof -
  define st0 where "st0 = st\<lparr>forwardStep := 0\<rparr>"
  have s0: "(InitializeActionInput input st)\<lparr>forwardStep := 0\<rparr> = st0"
    using assms(2) by (simp add: InitializeActionInput_def st0_def)
  have a0: "Forward_op aops (actionModule st0)
       (if forwardStep st0 = 0 then initialInput st0 else OutputParameter (rnnModule st0))
     = Inr (a, aout)"
    using assms(4) by (simp add: st0_def)
  have g: "glimpseInput input aout = Inl IncompatibleDimensions"
    using assms(3) by (rule glimpseInput_columns)
  have step: "ForwardStep rops aops input st0 =
     Inl (IncompatibleDimensions,
          st\<lparr>forwardStep := 0, actionModule := a\<lparr>OutputParameter := aout\<rparr>,
             calls := calls st @ [ForwardCall ActionModule (initialInput st) aout]\<rparr>)"
    by (subst ForwardStep_glimpse_fails[OF a0 g]) (simp add: st0_def)
  have "forwardStep st0 < rho st0" using assms(1) by (simp add: st0_def)
  then have "ForwardLoop rops aops input st0 =
     Inl (IncompatibleDimensions,
          st\<lparr>forwardStep := 0, actionModule := a\<lparr>OutputParameter := aout\<rparr>,
             calls := calls st @ [ForwardCall ActionModule (initialInput st) aout]\<rparr>)"
    by (simp add: ForwardLoop.simps[of rops aops input st0] step)
  then show ?thesis
    unfolding RecurrentAttention_Forward_def s0 by simp
qed

text \<open>
  C10, as the code has it: a new layer has an empty initial action input. Every
  \<open>Forward\<close>, whether it returns or throws, leaves the buffer as zeros of
  \<open>outSize\<close> rows and as many columns as its input when it found the buffer empty,
  and as it found it otherwise. So after a first \<open>Forward\<close> on an input with
  columns, with \<open>outSize > 0\<close>, every later \<open>Forward\<close> keeps the buffer of
  the first call, whatever the number of columns of its own input. A later
  \<open>Forward\<close> of a layer with \<open>rho > 0\<close> on an input that has not exactly
  one column hands this buffer to the action module and, when that returns, throws at the
  assignment of the input to column 0 of the glimpse input.
\<close>

theorem RecurrentAttention_initialInput_allocated_once:
  "is_empty (initialInput (RecurrentAttention_new outSize0 rnn action rho0)) \<and>
   (\<forall>rops aops st input.
      initialInput (after_Forward (RecurrentAttention_Forward rops aops st input)) =
        (if is_empty (initialInput st) then zeros (outSize st) (n_cols input)
         else initialInput st)) \<and>
   (\<forall>rops aops st0 in1 st1 in2 st2.
      is_empty (initialInput st0) \<and> 0 < outSize st0 \<and> 0 < n_cols in1 \<and>
      st1 = after_Forward (RecurrentAttention_Forward rops aops st0 in1) \<and>
      st2 = after_Forward (RecurrentAttention_Forward rops aops st1 in2) \<longrightarrow>
      initialInput st1 = zeros (outSize st0) (n_cols in1) \<and>
      initialInput st2 = initialInput st1 \<and>
      n_cols (initialInput st2) = n_cols in1) \<and>
   (\<forall>rops aops st input a aout.
      0 < rho st \<and> \<not> is_empty (initialInput st) \<and> n_cols input \<noteq> 1 \<and>
      Forward_op aops (actionModule st) (initialInput st) = Inr (a, aout) \<longrightarrow>
      (\<exists>st'. RecurrentAttention_Forward rops aops st input =
              Inl (IncompatibleDimensions, st') \<and>
         initialInput st' = initialInput st \<and>
         calls st' = calls st @ [ForwardCall ActionModule (initialInput st) aout]))"
proof (intro conjI allI impI)
  show "is_empty (initialInput (RecurrentAttention_new outSize0 rnn action rho0))"
    by (simp add: RecurrentAttention_new_def empty_mat_def is_empty_def n_elem_def)
next
  fix rops :: "'c LayerOps" and aops :: "'d LayerOps" and st :: "('c, 'd) RecurrentAttention"
    and input :: mat
  show "initialInput (after_Forward (RecurrentAttention_Forward rops aops st input)) =
        (if is_empty (initialInput st) then zeros (outSize st) (n_cols input)
         else initialInput st)"
    by (rule RecurrentAttention_Forward_initialInput)
next
  fix rops :: "'e LayerOps" and aops :: "'f LayerOps"
    and st0 st1 st2 :: "('e, 'f) RecurrentAttention" and in1 in2 :: mat
  assume h: "is_empty (initialInput st0) \<and> 0 < outSize st0 \<and> 0 < n_cols in1 \<and>
      st1 = after_Forward (RecurrentAttention_Forward rops aops st0 in1) \<and>
      st2 = after_Forward (RecurrentAttention_Forward rops aops st1 in2)"
  from h RecurrentAttention_Forward_initialInput[of rops aops st0 in1]
  have i1: "initialInput st1 = zeros (outSize st0) (n_cols in1)" by simp
  then have ne: "\<not> is_empty (initialInput st1)"
    using h by (simp add: is_empty_def n_elem_def zeros_def)
  from h RecurrentAttention_Forward_initialInput[of rops aops st1 in2] ne
  have i2: "initialInput st2 = initialInput st1" by simp
  show "initialInput st1 = zeros (outSize st0) (n_cols in1)" by (rule i1)
  show "initialInput st2 = initialInput st1" by (rule i2)
  show "n_cols (initialInput st2) = n_cols in1" by (simp add: i2 i1 zeros_def)
next
  fix rops :: "'g LayerOps" and aops :: "'h LayerOps" and st :: "('g, 'h) RecurrentAttention"
    and input :: mat and a :: "'h Layer" and aout :: mat
  assume h: "0 < rho st \<and> \<not> is_empty (initialInput st) \<and> n_cols input \<noteq> 1 \<and>
      Forward_op aops (actionModule st) (initialInput st) = Inr (a, aout)"
  then have "RecurrentAttention_Forward rops aops st input =
     Inl (IncompatibleDimensions,
          st\<lparr>forwardStep := 0, actionModule := a\<lparr>OutputParameter := aout\<rparr>,
             calls := calls st @ [ForwardCall ActionModule (initialInput st) aout]\<rparr>)"
    by (intro RecurrentAttention_Forward_columns) simp_all
  then show "\<exists>st'. RecurrentAttention_Forward rops aops st input =
              Inl (IncompatibleDimensions, st') \<and>
         initialInput st' = initialInput st \<and>
         calls st' = calls st @ [ForwardCall ActionModule (initialInput st) aout]"
    by simp
qed

subsection \<open>Runs of the example layers\<close>

lemma attention_example_runs:
  "\<exists>st1 out st2 g.
     RecurrentAttention_Forward rnn_ops action_ops attention_example input_3 = Inr (st1, out) \<and>
     RecurrentAttention_Backward rnn_ops action_ops keep_gradients st1 empty_mat gy_3 empty_mat
       = Inr (st2, g) \<and>
     backwardStep st1 = 0 \<and> rho st1 = 2 \<and>
     out = \<lparr>n_rows = 3, n_cols = 1, mem = [2, 4, 6]\<rparr> \<and>
     g = \<lparr>n_rows = 3, n_cols = 1, mem = [22, 42, 62]\<rparr>"
proof -
  have "case RecurrentAttention_Forward rnn_ops action_ops attention_example input_3 of
          Inl e \<Rightarrow> False
        | Inr (st1, out) \<Rightarrow>
            (case RecurrentAttention_Backward rnn_ops action_ops keep_gradients st1 empty_mat
                    gy_3 empty_mat of
               Inl e \<Rightarrow> False
             | Inr (st2, g) \<Rightarrow>
                 backwardStep st1 = 0 \<and> rho st1 = 2 \<and>
                 out = \<lparr>n_rows = 3, n_cols = 1, mem = [2, 4, 6]\<rparr> \<and>
                 g = \<lparr>n_rows = 3, n_cols = 1, mem = [22, 42, 62]\<rparr>)"
    by code_simp
  then obtain st1 out where
    f: "RecurrentAttention_Forward rnn_ops action_ops attention_example input_3 = Inr (st1, out)"
    and c: "case RecurrentAttention_Backward rnn_ops action_ops keep_gradients st1 empty_mat
                    gy_3 empty_mat of
               Inl e \<Rightarrow> False
             | Inr (st2, g) \<Rightarrow>
                 backwardStep st1 = 0 \<and> rho st1 = 2 \<and>
                 out = \<lparr>n_rows = 3, n_cols = 1, mem = [2, 4, 6]\<rparr> \<and>
                 g = \<lparr>n_rows = 3, n_cols = 1, mem = [22, 42, 62]\<rparr>"
    by (cases "RecurrentAttention_Forward rnn_ops action_ops attention_example input_3")
      (simp_all split: prod.splits)
  from c obtain st2 g where
    b: "RecurrentAttention_Backward rnn_ops action_ops keep_gradients st1 empty_mat gy_3
          empty_mat = Inr (st2, g)"
    and r: "backwardStep st1 = 0" "rho st1 = 2"
      "out = \<lparr>n_rows = 3, n_cols = 1, mem = [2, 4, 6]\<rparr>"
      "g = \<lparr>n_rows = 3, n_cols = 1, mem = [22, 42, 62]\<rparr>"
    by (cases "RecurrentAttention_Backward rnn_ops action_ops keep_gradients st1 empty_mat
          gy_3 empty_mat") (simp_all split: prod.splits)
  from f b r show ?thesis by blast
qed

theorem RecurrentAttention_Backward_recurrent_error_witness:
  "\<exists>st1 out st2 g evs.
     RecurrentAttention_Forward rnn_ops action_ops attention_example input_3 = Inr (st1, out) \<and>
     RecurrentAttention_Backward rnn_ops action_ops keep_gradients st1 empty_mat gy_3 empty_mat
       = Inr (st2, g) \<and>
     backwardStep st1 = 0 \<and> calls st2 = calls st1 @ evs \<and>
     length (rnn_errors evs) = 2 \<and>
     rnn_errors evs ! 0 = gy_3 \<and> rnn_errors evs ! 1 = action_deltas evs ! 0"
proof -
  from attention_example_runs obtain st1 out st2 g where
    f: "RecurrentAttention_Forward rnn_ops action_ops attention_example input_3 = Inr (st1, out)"
    and b: "RecurrentAttention_Backward rnn_ops action_ops keep_gradients st1 empty_mat gy_3
              empty_mat = Inr (st2, g)"
    and z: "backwardStep st1 = 0" and r: "rho st1 = 2"
    by blast
  from RecurrentAttention_Backward_recurrent_error[OF b z] obtain evs where
    e: "calls st2 = calls st1 @ evs" "length (rnn_errors evs) = rho st1"
      "\<forall>k < rho st1. rnn_errors evs ! k = (if k = 0 then gy_3 else action_deltas evs ! (k - 1))"
    by blast
  from e(3) r have "rnn_errors evs ! 0 = gy_3" "rnn_errors evs ! 1 = action_deltas evs ! 0"
    by simp_all
  with f b z e(1,2) r show ?thesis by (intro exI[of _ st1] exI[of _ out] exI[of _ st2]
      exI[of _ g] exI[of _ evs]) simp
qed

theorem RecurrentAttention_Backward_input_gradient_witness:
  "\<exists>st1 out st2 g evs.
     RecurrentAttention_Forward rnn_ops action_ops attention_example input_3 = Inr (st1, out) \<and>
     RecurrentAttention_Backward rnn_ops action_ops keep_gradients st1 empty_mat gy_3 empty_mat
       = Inr (st2, g) \<and>
     backwardStep st1 = 0 \<and> 0 < rho st1 \<and> calls st2 = calls st1 @ evs \<and>
     length (rnn_deltas evs) = 2 \<and> n_cols g = 1 \<and>
     mem g ! 0 = sum_list (map (\<lambda>d. mat_at d 0 1) (rnn_deltas evs)) \<and>
     g = \<lparr>n_rows = 3, n_cols = 1, mem = [22, 42, 62]\<rparr>"
proof -
  from attention_example_runs obtain st1 out st2 g where
    f: "RecurrentAttention_Forward rnn_ops action_ops attention_example input_3 = Inr (st1, out)"
    and b: "RecurrentAttention_Backward rnn_ops action_ops keep_gradients st1 empty_mat gy_3
              empty_mat = Inr (st2, g)"
    and z: "backwardStep st1 = 0" and r: "rho st1 = 2"
    and g: "g = \<lparr>n_rows = 3, n_cols = 1, mem = [22, 42, 62]\<rparr>"
    by blast
  have pos: "0 < rho st1" using r by simp
  from RecurrentAttention_Backward_input_gradient[OF b z pos] obtain evs where
    e: "calls st2 = calls st1 @ evs" "length (rnn_deltas evs) = rho st1" "n_cols g = 1"
      "\<forall>i < n_rows g. mem g ! i = sum_list (map (\<lambda>d. mat_at d i 1) (rnn_deltas evs))"
    by blast
  have "0 < n_rows g" by (simp add: g)
  with e(4) have "mem g ! 0 = sum_list (map (\<lambda>d. mat_at d 0 1) (rnn_deltas evs))" by blast
  with f b z pos e(1,2,3) r g show ?thesis
    by (intro exI[of _ st1] exI[of _ out] exI[of _ st2] exI[of _ g] exI[of _ evs]) simp
qed

theorem RecurrentAttention_Forward_inputs_witness:
  "\<exists>st' out evs.
     RecurrentAttention_Forward rnn_ops action_ops attention_example input_3 = Inr (st', out) \<and>
     calls st' = calls attention_example @ evs \<and> length (action_inputs evs) = 2 \<and>
     action_inputs evs ! 0 = zeros 3 1 \<and> action_inputs evs ! 1 = rnn_outputs evs ! 0 \<and>
     n_rows (rnn_inputs evs ! 1) = 3 \<and> n_cols (rnn_inputs evs ! 1) = 2 \<and>
     mat_at (rnn_inputs evs ! 1) 2 0 = 3 \<and>
     out = \<lparr>n_rows = 3, n_cols = 1, mem = [2, 4, 6]\<rparr>"
proof -
  from attention_example_runs obtain st1 out where
    f: "RecurrentAttention_Forward rnn_ops action_ops attention_example input_3 = Inr (st1, out)"
    and o: "out = \<lparr>n_rows = 3, n_cols = 1, mem = [2, 4, 6]\<rparr>"
    by blast
  have r: "rho attention_example = 2" "outSize attention_example = 3"
    "is_empty (initialInput attention_example)"
    by (simp_all add: attention_example_def RecurrentAttention_new_def is_empty_def
        n_elem_def empty_mat_def)
  have i: "n_elem input_3 = 3" "n_cols input_3 = 1" "mem input_3 ! 2 = 3"
    by (simp_all add: input_3_def n_elem_def)
  from RecurrentAttention_Forward_inputs[OF f] obtain evs where
    e: "calls st1 = calls attention_example @ evs"
      "length (action_inputs evs) = rho attention_example"
      "\<forall>t < rho attention_example.
        action_inputs evs ! t = (if t = 0 then initialInput st1 else rnn_outputs evs ! (t - 1)) \<and>
        n_rows (rnn_inputs evs ! t) = n_elem input_3 \<and> n_cols (rnn_inputs evs ! t) = 2 \<and>
        (\<forall>i < n_elem input_3.
           mat_at (rnn_inputs evs ! t) i 0 = mem input_3 ! i \<and>
           mat_at (rnn_inputs evs ! t) i 1 =
             (if i < n_elem (action_outputs evs ! t) then mem (action_outputs evs ! t) ! i
              else 0))"
      "is_empty (initialInput attention_example) \<longrightarrow>
         initialInput st1 = zeros (outSize attention_example) (n_cols input_3)"
    by blast
  have ini: "initialInput st1 = zeros 3 1" using e(4) r i by simp
  have t0: "action_inputs evs ! 0 = zeros 3 1" using e(3) r ini by simp
  have t1: "action_inputs evs ! 1 = rnn_outputs evs ! 0"
    "n_rows (rnn_inputs evs ! 1) = 3" "n_cols (rnn_inputs evs ! 1) = 2"
    "\<forall>i < 3. mat_at (rnn_inputs evs ! 1) i 0 = mem input_3 ! i"
    using e(3) r i by simp_all
  from t1(4) i have "mat_at (rnn_inputs evs ! 1) 2 0 = 3" by simp
  with f e(1,2) r t0 t1 o show ?thesis
    by (intro exI[of _ st1] exI[of _ out] exI[of _ evs]) simp
qed

theorem RecurrentAttention_Gradient_split_witness:
  "n_elem (Parameters (rnnModule attention_with_gradient)) +
     n_elem (Parameters (actionModule attention_with_gradient))
     \<le> n_rows (attentionGradient attention_with_gradient) \<and>
   0 < n_cols (attentionGradient attention_with_gradient) \<and>
   n_elem (Parameters (actionModule attention_with_gradient)) = 0 \<and>
   (\<exists>st'. RecurrentAttention_Gradient attention_with_gradient = Inr st' \<and>
      Gradient (rnnModule st') = filled 2 1 9 \<and>
      actionModule st' = actionModule attention_with_gradient) \<and>
   n_rows empty_mat < (2::nat) ^ 64 \<and>
   submat empty_mat 0 0 (size_t_minus (0 + 0) 1) 0 = Inl IndexOutOfBounds"
proof -
  let ?st = attention_with_gradient
  have p: "n_elem (Parameters (rnnModule ?st)) = 2" "n_elem (Parameters (actionModule ?st)) = 0"
    "n_rows (attentionGradient ?st) = 2" "n_cols (attentionGradient ?st) = 1"
    "mem (attentionGradient ?st) = [9, 9]"
    by (simp_all add: attention_with_gradient_def attention_example_def
        RecurrentAttention_new_def layer_with_def filled_def empty_mat_def n_elem_def
        numeral_2_eq_2)
  have h: "n_elem (Parameters (rnnModule ?st)) + n_elem (Parameters (actionModule ?st))
      \<le> n_rows (attentionGradient ?st) \<and> 0 < n_cols (attentionGradient ?st)"
    by (simp add: p)
  from RecurrentAttention_Gradient_split[of ?st, THEN conjunct1, rule_format, OF h]
  obtain st' where
    g: "RecurrentAttention_Gradient ?st = Inr st'"
    and r: "n_elem (Parameters (rnnModule ?st)) \<noteq> 0 \<longrightarrow>
         rnnModule st' = (rnnModule ?st)\<lparr>Gradient :=
           \<lparr>n_rows = n_elem (Parameters (rnnModule ?st)), n_cols = 1,
            mem = map (\<lambda>i. mem (attentionGradient ?st) ! i)
                    [0 ..< n_elem (Parameters (rnnModule ?st))]\<rparr>\<rparr>"
    and a: "n_elem (Parameters (actionModule ?st)) = 0 \<longrightarrow>
         actionModule st' = actionModule ?st"
    by (elim exE conjE)
  note T = RecurrentAttention_Gradient_split[of ?st]
  have two: "[0 ..< 2] = [0, Suc 0]" by (simp add: numeral_2_eq_2)
  from r have "Gradient (rnnModule st') = filled 2 1 9"
    by (simp add: p filled_def two numeral_2_eq_2)
  moreover from a have "actionModule st' = actionModule ?st" by (simp add: p)
  moreover have e: "n_rows empty_mat < (2::nat) ^ 64" by (simp add: empty_mat_def)
  moreover from T[THEN conjunct2, rule_format, OF e]
  have "submat empty_mat 0 0 (size_t_minus (0 + 0) 1) 0 = Inl IndexOutOfBounds" .
  ultimately show ?thesis using h g p(2) by blast
qed

text \<open>
  The layer of two steps with \<open>outSize = 3\<close>: after a \<open>Forward\<close> on one
  column, a \<open>Forward\<close> on two columns gives the action module the buffer of one
  column and throws.
\<close>

theorem RecurrentAttention_initialInput_allocated_once_witness:
  "\<exists>st1 out1 st2.
     is_empty (initialInput attention_example) \<and> 0 < outSize attention_example \<and>
     0 < n_cols input_3 \<and>
     RecurrentAttention_Forward rnn_ops action_ops attention_example input_3 = Inr (st1, out1) \<and>
     initialInput st1 = zeros 3 1 \<and> 0 < rho st1 \<and> n_cols (filled 3 2 1) = 2 \<and>
     RecurrentAttention_Forward rnn_ops action_ops st1 (filled 3 2 1)
       = Inl (IncompatibleDimensions, st2) \<and>
     initialInput st2 = zeros 3 1 \<and>
     calls st2 = calls st1 @ [ForwardCall ActionModule (zeros 3 1) (zeros 3 1)]"
proof -
  note T = RecurrentAttention_initialInput_allocated_once[of 0 undefined undefined 0]
  from attention_example_runs obtain st1 out1 where
    f1: "RecurrentAttention_Forward rnn_ops action_ops attention_example input_3 = Inr (st1, out1)"
    and r: "rho st1 = 2"
    by blast
  have h: "is_empty (initialInput attention_example)" "0 < outSize attention_example"
    "0 < n_cols input_3" "outSize attention_example = 3" "n_cols input_3 = 1"
    "n_cols (filled 3 2 1) = 2"
    by (simp_all add: attention_example_def RecurrentAttention_new_def is_empty_def n_elem_def
        empty_mat_def input_3_def filled_def)
  from T[THEN conjunct2, THEN conjunct1, rule_format,
      of rnn_ops action_ops attention_example input_3]
  have i1: "initialInput st1 = zeros 3 1"
    by (simp add: f1 after_Forward_def h)
  have ne: "\<not> is_empty (initialInput st1)"
    by (simp add: i1 is_empty_def n_elem_def zeros_def)
  have a: "Forward_op action_ops (actionModule st1) (initialInput st1)
      = Inr (actionModule st1, zeros 3 1)"
    by (simp add: action_ops_def i1)
  have "0 < rho st1 \<and> \<not> is_empty (initialInput st1) \<and> n_cols (filled 3 2 1) \<noteq> 1 \<and>
      Forward_op action_ops (actionModule st1) (initialInput st1)
        = Inr (actionModule st1, zeros 3 1)"
    using r ne h(6) a by simp
  from T[THEN conjunct2, THEN conjunct2, THEN conjunct2, rule_format, OF this,
      of rnn_ops]
  obtain st2 where
    f2: "RecurrentAttention_Forward rnn_ops action_ops st1 (filled 3 2 1)
           = Inl (IncompatibleDimensions, st2)"
    and i2: "initialInput st2 = initialInput st1"
    and c2: "calls st2 = calls st1 @ [ForwardCall ActionModule (initialInput st1) (zeros 3 1)]"
    by blast
  have "0 < rho st1" using r by simp
  with h f1 i1 f2 i2 c2 show ?thesis
    by (intro exI[of _ st1] exI[of _ out1] exI[of _ st2]) simp
qed

text \<open>
  The claim as stated fails for a layer with \<open>outSize = 0\<close>: the buffer that the
  first \<open>Forward\<close> allocates is empty, so the next \<open>Forward\<close> allocates again,
  with the columns of its own input, and the action module receives the new buffer.
\<close>

theorem RecurrentAttention_initialInput_counterexample:
  "case RecurrentAttention_Forward rnn_ops fixed_ops attention_flat input_3 of
     Inl e \<Rightarrow> False
   | Inr (st1, out1) \<Rightarrow>
       initialInput st1 = zeros 0 1 \<and>
       (case RecurrentAttention_Forward rnn_ops fixed_ops st1 (filled 3 2 1) of
          Inr r \<Rightarrow> False
        | Inl (e, st2) \<Rightarrow>
            initialInput st2 = zeros 0 2 \<and> initialInput st2 \<noteq> initialInput st1 \<and>
            calls st2 = calls st1 @ [ForwardCall ActionModule (zeros 0 2) (filled 1 1 0)])"
  by code_simp

subsection \<open>The saved outputs\<close>


end
